(* ===== verification/Prelude.thy ===== *)
theory Prelude
  imports Main "HOL-Library.Word"
begin

text \<open>
  Shared vocabulary of the development: bytes and machine words, Rust's way of
  returning (\<open>Ok\<close>, \<open>Err\<close>, a panic), effectful code as functions from a world to
  an outcome and a world, the operations of the Rust standard library that the
  sources use on slices, strings, paths and numbers, and the lemmas about them
  that the component theories share.
\<close>

section \<open>Machine types\<close>

type_synonym byte = "8 word"
type_synonym bytes = "byte list"
type_synonym u16 = "16 word"
type_synonym u32 = "32 word"
type_synonym u64 = "64 word"
type_synonym usize = "64 word"

section \<open>Outcomes and effectful code\<close>

text \<open>
  A Rust call returns \<open>Ok\<close>, returns \<open>Err\<close> or panics (\<open>expect\<close> on an error, a
  slice out of range). Effectful code also changes the world it runs in; the
  change stays when the call fails, so the world is returned in every case.
\<close>

datatype ('a, 'e) outcome = Ok 'a | Err 'e | Panic string

type_synonym ('w, 'a, 'e) rs = "'w \<Rightarrow> ('a, 'e) outcome \<times> 'w"

named_theorems outcome_simps \<open>evaluation of the sequencing of outcomes\<close>
named_theorems rs_simps \<open>evaluation of the sequencing of effectful code\<close>

fun is_ok :: "('a, 'e) outcome \<Rightarrow> bool" where
  "is_ok (Ok x) = True"
| "is_ok (Err e) = False"
| "is_ok (Panic s) = False"

fun is_panic :: "('a, 'e) outcome \<Rightarrow> bool" where
  "is_panic (Ok x) = False"
| "is_panic (Err e) = False"
| "is_panic (Panic s) = True"

text \<open>Pure code: \<open>obind\<close> is the \<open>?\<close> operator, \<open>omap_err\<close> is \<open>map_err\<close>.\<close>

fun obind :: "('a, 'e) outcome \<Rightarrow> ('a \<Rightarrow> ('b, 'e) outcome) \<Rightarrow> ('b, 'e) outcome" where
  "obind (Ok x) f = f x"
| "obind (Err e) f = Err e"
| "obind (Panic s) f = Panic s"

fun omap_err :: "('e \<Rightarrow> 'f) \<Rightarrow> ('a, 'e) outcome \<Rightarrow> ('a, 'f) outcome" where
  "omap_err g (Ok x) = Ok x"
| "omap_err g (Err e) = Err (g e)"
| "omap_err g (Panic s) = Panic s"

fun ok_or :: "'e \<Rightarrow> 'a option \<Rightarrow> ('a, 'e) outcome" where
  "ok_or e (Some x) = Ok x"
| "ok_or e None = Err e"

text \<open>Effectful code: returning, failing, the \<open>?\<close> operator and \<open>map_err\<close>.\<close>

definition ret :: "'a \<Rightarrow> ('w, 'a, 'e) rs" where
  "ret x = (\<lambda>w. (Ok x, w))"

definition lift :: "('a, 'e) outcome \<Rightarrow> ('w, 'a, 'e) rs" where
  "lift r = (\<lambda>w. (r, w))"

definition bindR :: "('w, 'a, 'e) rs \<Rightarrow> ('a \<Rightarrow> ('w, 'b, 'e) rs) \<Rightarrow> ('w, 'b, 'e) rs" where
  "bindR m f = (\<lambda>w. case m w of
      (Ok x, w') \<Rightarrow> f x w'
    | (Err e, w') \<Rightarrow> (Err e, w')
    | (Panic s, w') \<Rightarrow> (Panic s, w'))"

definition map_err :: "('e \<Rightarrow> 'f) \<Rightarrow> ('w, 'a, 'e) rs \<Rightarrow> ('w, 'a, 'f) rs" where
  "map_err g m = (\<lambda>w. case m w of (r, w') \<Rightarrow> (omap_err g r, w'))"

text \<open>
  \<open>attempt m\<close> runs \<open>m\<close> and hands its \<open>Result\<close> on as a value, as
  \<open>let result = ...;\<close> without \<open>?\<close> does; a panic still unwinds.
\<close>

definition attempt :: "('w, 'a, 'e) rs \<Rightarrow> ('w, ('a, 'e) outcome, 'f) rs" where
  "attempt m = (\<lambda>w. case m w of
      (Panic s, w') \<Rightarrow> (Panic s, w')
    | (r, w') \<Rightarrow> (Ok r, w'))"

text \<open>\<open>std::sync::Mutex\<close>: the protected value, and whether a holder panicked.\<close>

record 'a mutex =
  mutex_data :: 'a
  mutex_poisoned :: bool

definition mutex_new :: "'a \<Rightarrow> 'a mutex" where
  "mutex_new x = \<lparr>mutex_data = x, mutex_poisoned = False\<rparr>"

section \<open>Evaluation lemmas\<close>

lemma ret_apply [rs_simps, simp]: "ret x w = (Ok x, w)"
  by (simp add: ret_def)

lemma lift_apply [rs_simps, simp]: "lift r w = (r, w)"
  by (simp add: lift_def)

lemma bindR_apply:
  "bindR m f w = (case m w of
      (Ok x, w') \<Rightarrow> f x w' | (Err e, w') \<Rightarrow> (Err e, w') | (Panic s, w') \<Rightarrow> (Panic s, w'))"
  by (simp add: bindR_def)

lemma bindR_Ok [rs_simps]: "m w = (Ok x, w') \<Longrightarrow> bindR m f w = f x w'"
  by (simp add: bindR_def)

lemma bindR_Err [rs_simps]: "m w = (Err e, w') \<Longrightarrow> bindR m f w = (Err e, w')"
  by (simp add: bindR_def)

lemma bindR_Panic [rs_simps]: "m w = (Panic s, w') \<Longrightarrow> bindR m f w = (Panic s, w')"
  by (simp add: bindR_def)

lemma bindR_ret [simp]: "bindR (ret x) f = f x"
  by (simp add: bindR_def ret_def)

lemma bindR_lift_Ok [simp]: "bindR (lift (Ok x)) f = f x"
  by (simp add: bindR_def lift_def)

lemma bindR_assoc: "bindR (bindR m f) g = bindR m (\<lambda>x. bindR (f x) g)"
  by (auto simp: bindR_def fun_eq_iff split: prod.splits outcome.splits)

lemma bindR_ret_right: "bindR m ret = m"
  by (auto simp: bindR_def ret_def fun_eq_iff split: prod.splits outcome.splits)

lemma bindR_Ok_iff:
  "bindR m f w = (Ok y, w'') \<longleftrightarrow> (\<exists>x w'. m w = (Ok x, w') \<and> f x w' = (Ok y, w''))"
  by (auto simp: bindR_def split: prod.splits outcome.splits)

lemma bindR_OkE:
  assumes "bindR m f w = (Ok y, w'')"
  obtains x w' where "m w = (Ok x, w')" and "f x w' = (Ok y, w'')"
  using assms by (auto simp: bindR_Ok_iff)

lemma map_err_apply: "map_err g m w = (omap_err g (fst (m w)), snd (m w))"
  by (simp add: map_err_def split: prod.splits)

lemma map_err_eq [rs_simps]: "m w = (r, w') \<Longrightarrow> map_err g m w = (omap_err g r, w')"
  by (simp add: map_err_def)

lemma omap_err_Ok_iff [simp]: "omap_err g r = Ok x \<longleftrightarrow> r = Ok x"
  by (cases r) auto

lemma omap_err_Panic_iff [simp]: "omap_err g r = Panic s \<longleftrightarrow> r = Panic s"
  by (cases r) auto

lemma map_err_Ok_iff [simp]: "map_err g m w = (Ok x, w') \<longleftrightarrow> m w = (Ok x, w')"
  by (auto simp: map_err_def split: prod.splits)

lemma attempt_Ok [rs_simps]: "m w = (Ok x, w') \<Longrightarrow> attempt m w = (Ok (Ok x), w')"
  by (simp add: attempt_def)

lemma attempt_Err [rs_simps]: "m w = (Err e, w') \<Longrightarrow> attempt m w = (Ok (Err e), w')"
  by (simp add: attempt_def)

lemma attempt_Panic [rs_simps]: "m w = (Panic s, w') \<Longrightarrow> attempt m w = (Panic s, w')"
  by (simp add: attempt_def)

lemma attempt_Ok_iff:
  "attempt m w = (Ok r, w') \<longleftrightarrow> m w = (r, w') \<and> \<not> is_panic r"
  by (cases "m w"; cases "fst (m w)") (auto simp: attempt_def)

lemma obind_Ok_iff: "obind r f = Ok y \<longleftrightarrow> (\<exists>x. r = Ok x \<and> f x = Ok y)"
  by (cases r) auto

lemma obind_assoc: "obind (obind r f) g = obind r (\<lambda>x. obind (f x) g)"
  by (cases r) auto

lemma ok_or_Ok_iff [simp]: "ok_or e x = Ok y \<longleftrightarrow> x = Some y"
  by (cases x) auto

lemma ok_or_Panic [simp]: "ok_or e x \<noteq> Panic s"
  by (cases x) auto

lemmas outcome_cases = outcome.splits prod.splits

declare obind.simps [outcome_simps] omap_err.simps [outcome_simps]

section \<open>Total correctness of effectful code\<close>

text \<open>
  \<open>runs_ok m w Q\<close>: started in \<open>w\<close>, \<open>m\<close> returns \<open>Ok\<close> with a value and a world
  that satisfy \<open>Q\<close>. \<open>runs_err m w Q\<close>: it returns \<open>Err\<close>. Both compute along the
  sequencing operators, so a specification of a function follows from the
  specifications of the calls it makes.
\<close>

definition runs_ok :: "('w, 'a, 'e) rs \<Rightarrow> 'w \<Rightarrow> ('a \<Rightarrow> 'w \<Rightarrow> bool) \<Rightarrow> bool" where
  "runs_ok m w Q = (case m w of (Ok x, w') \<Rightarrow> Q x w' | _ \<Rightarrow> False)"

definition runs_err :: "('w, 'a, 'e) rs \<Rightarrow> 'w \<Rightarrow> ('e \<Rightarrow> 'w \<Rightarrow> bool) \<Rightarrow> bool" where
  "runs_err m w Q = (case m w of (Err e, w') \<Rightarrow> Q e w' | _ \<Rightarrow> False)"

named_theorems wp \<open>weakest preconditions of the sequencing operators\<close>

lemma runs_ok_iff: "runs_ok m w Q \<longleftrightarrow> (\<exists>x w'. m w = (Ok x, w') \<and> Q x w')"
  by (auto simp: runs_ok_def split: prod.splits outcome.splits)

lemma runs_err_iff: "runs_err m w Q \<longleftrightarrow> (\<exists>e w'. m w = (Err e, w') \<and> Q e w')"
  by (auto simp: runs_err_def split: prod.splits outcome.splits)

lemma runs_ok_ret [wp, simp]: "runs_ok (ret x) w Q = Q x w"
  by (simp add: runs_ok_def)

lemma runs_ok_lift_Ok [wp, simp]: "runs_ok (lift (Ok x)) w Q = Q x w"
  by (simp add: runs_ok_def)

lemma runs_ok_bindR [wp]:
  "runs_ok (bindR m f) w Q = runs_ok m w (\<lambda>x w'. runs_ok (f x) w' Q)"
  by (auto simp: runs_ok_def bindR_def split: prod.splits outcome.splits)

lemma runs_ok_map_err [wp, simp]: "runs_ok (map_err g m) w Q = runs_ok m w Q"
  by (auto simp: runs_ok_iff)

lemma runs_ok_mono: "runs_ok m w P \<Longrightarrow> (\<And>x w'. P x w' \<Longrightarrow> Q x w') \<Longrightarrow> runs_ok m w Q"
  by (auto simp: runs_ok_iff)

lemma runs_ok_attempt: "runs_ok m w (\<lambda>x. Q (Ok x)) \<Longrightarrow> runs_ok (attempt m) w Q"
  by (auto simp: runs_ok_iff attempt_def)

lemma runs_ok_attempt_err: "runs_err m w (\<lambda>e. Q (Err e)) \<Longrightarrow> runs_ok (attempt m) w Q"
  by (auto simp: runs_ok_iff runs_err_iff attempt_def)

lemma runs_err_mono: "runs_err m w P \<Longrightarrow> (\<And>e w'. P e w' \<Longrightarrow> Q e w') \<Longrightarrow> runs_err m w Q"
  by (auto simp: runs_err_iff)

lemma runs_err_map_err [wp]: "runs_err (map_err g m) w Q = runs_err m w (\<lambda>e. Q (g e))"
proof -
  obtain r w' where "m w = (r, w')" by (cases "m w")
  then show ?thesis by (cases r) (simp_all add: runs_err_def map_err_def)
qed

lemma runs_err_bindR_fst: "runs_err m w Q \<Longrightarrow> runs_err (bindR m f) w Q"
  by (auto simp: runs_err_iff bindR_def)

lemma runs_err_bindR_snd:
  "runs_ok m w (\<lambda>x w'. runs_err (f x) w' Q) \<Longrightarrow> runs_err (bindR m f) w Q"
  by (auto simp: runs_ok_iff runs_err_iff bindR_def)

lemma omap_err_id [simp]: "omap_err id r = r"
  by (cases r) simp_all

lemma map_err_id [simp]: "map_err id m = m"
  by (rule ext) (simp add: map_err_apply)

lemmas exec_simps = runs_ok_iff bindR_apply map_err_apply attempt_def

section \<open>Slices\<close>

text \<open>\<open>xs[a..b]\<close> and \<open>xs[a..]\<close> panic when a bound is out of range.\<close>

definition slice :: "nat \<Rightarrow> nat \<Rightarrow> 'a list \<Rightarrow> ('a list, 'e) outcome" where
  "slice a b xs = (if a \<le> b \<and> b \<le> length xs then Ok (take (b - a) (drop a xs))
     else Panic ''range out of range for slice'')"

definition slice_from :: "nat \<Rightarrow> 'a list \<Rightarrow> ('a list, 'e) outcome" where
  "slice_from a xs = (if a \<le> length xs then Ok (drop a xs)
     else Panic ''range out of range for slice'')"

definition index :: "'a list \<Rightarrow> nat \<Rightarrow> ('a, 'e) outcome" where
  "index xs i = (if i < length xs then Ok (xs ! i) else Panic ''index out of bounds'')"

lemma slice_append [simp]: "slice (length xs) (length xs + length ys) (xs @ ys @ zs) = Ok ys"
  by (simp add: slice_def)

lemma slice_from_append [simp]: "slice_from (length xs) (xs @ ys) = Ok ys"
  by (simp add: slice_from_def)

section \<open>Big-endian 16-bit lengths\<close>

text \<open>\<open>u16::to_be_bytes\<close>, \<open>u16::from_be_bytes\<close> and the truncating cast \<open>as u16\<close>.\<close>

definition as_u16 :: "nat \<Rightarrow> u16" where
  "as_u16 n = of_nat n"

definition u16_to_be_bytes :: "u16 \<Rightarrow> bytes" where
  "u16_to_be_bytes x = [ucast (drop_bit 8 x), ucast x]"

definition u16_from_be_bytes :: "byte \<Rightarrow> byte \<Rightarrow> u16" where
  "u16_from_be_bytes a b = push_bit 8 (ucast a) + ucast b"

lemma length_u16_to_be_bytes [simp]: "length (u16_to_be_bytes x) = 2"
  by (simp add: u16_to_be_bytes_def)

lemma unat_as_u16: "unat (as_u16 n) = n mod 65536"
  by (simp add: as_u16_def unat_of_nat)

lemma unat_byte_less [simp]: "unat (b :: byte) < 256"
  using unsigned_less [of b] by simp

lemma unat_ucast_byte [simp]: "unat (ucast (b :: byte) :: u16) = unat b"
  using unat_byte_less [of b] by (simp add: unsigned_ucast_eq take_bit_eq_mod del: unat_byte_less)

lemma unat_u16_from_be_bytes: "unat (u16_from_be_bytes a b) = 256 * unat a + unat b"
proof -
  have "256 * unat a + unat b < 65536"
    using unat_byte_less [of a] unat_byte_less [of b] by linarith
  then show ?thesis
    by (simp add: u16_from_be_bytes_def push_bit_eq_mult unat_word_ariths)
qed

lemma unat_drop_bit_8: "unat (drop_bit 8 (x :: u16)) = unat x div 256"
  by (simp add: drop_bit_eq_div unat_div)

lemma u16_be_roundtrip:
  "u16_to_be_bytes x = [a, b] \<Longrightarrow> u16_from_be_bytes a b = x"
proof -
  assume "u16_to_be_bytes x = [a, b]"
  then have a: "a = ucast (drop_bit 8 x)" and b: "b = ucast x"
    by (simp_all add: u16_to_be_bytes_def)
  have x: "unat x < 65536" using unsigned_less [of x] by simp
  have "unat a = (unat x div 256) mod 256"
    unfolding a by (simp add: unsigned_ucast_eq unat_drop_bit_8 take_bit_eq_mod)
  moreover have "unat b = unat x mod 256"
    unfolding b by (simp add: unsigned_ucast_eq take_bit_eq_mod)
  ultimately have "unat (u16_from_be_bytes a b) = unat x"
    using x by (simp add: unat_u16_from_be_bytes less_mult_imp_div_less)
  then show ?thesis by (simp add: word_unat_eq_iff)
qed

section \<open>Strings, numbers and paths\<close>

text \<open>
  A Rust \<open>String\<close> is a sequence of UTF-8 bytes, as a HOL \<open>string\<close> is a list of
  8-bit characters. \<open>show_nat\<close> is \<open>Display\<close> of an unsigned integer,
  \<open>strip_prefix\<close> and \<open>contains\<close> are the methods of \<open>str\<close>, \<open>str_slice_to\<close> is
  \<open>s[..n]\<close>, which panics past the end and inside a character.
\<close>

fun show_nat :: "nat \<Rightarrow> string" where
  "show_nat n = (if n < 10 then [char_of (48 + n)]
     else show_nat (n div 10) @ [char_of (48 + n mod 10)])"

declare show_nat.simps [simp del]

fun strip_prefix :: "string \<Rightarrow> string \<Rightarrow> string option" where
  "strip_prefix [] s = Some s"
| "strip_prefix (p # ps) [] = None"
| "strip_prefix (p # ps) (c # cs) = (if p = c then strip_prefix ps cs else None)"

definition starts_with :: "string \<Rightarrow> string \<Rightarrow> bool" where
  "starts_with p s = (strip_prefix p s \<noteq> None)"

fun contains :: "string \<Rightarrow> string \<Rightarrow> bool" where
  "contains p [] = (p = [])"
| "contains p (c # cs) = (starts_with p (c # cs) \<or> contains p cs)"

definition is_utf8_continuation :: "char \<Rightarrow> bool" where
  "is_utf8_continuation c = (128 \<le> (of_char c :: nat) \<and> (of_char c :: nat) < 192)"

definition str_slice_to :: "nat \<Rightarrow> string \<Rightarrow> (string, 'e) outcome" where
  "str_slice_to n s =
     (if n \<le> length s \<and> (n = length s \<or> \<not> is_utf8_continuation (s ! n)) then Ok (take n s)
      else Panic ''byte index is out of bounds or not a char boundary'')"

text \<open>\<open>Path::join\<close>: an absolute argument replaces the base; otherwise one separator.\<close>

definition path_join :: "string \<Rightarrow> string \<Rightarrow> string" where
  "path_join base rel =
     (if starts_with ''/'' rel \<or> base = [] then rel
      else if last base = CHR ''/'' then base @ rel
      else base @ ''/'' @ rel)"

lemma strip_prefix_iff: "strip_prefix p s = Some r \<longleftrightarrow> s = p @ r"
  by (induction p s rule: strip_prefix.induct) auto

lemma strip_prefix_None_iff: "strip_prefix p s = None \<longleftrightarrow> (\<forall>r. s \<noteq> p @ r)"
  using strip_prefix_iff [of p s] by (cases "strip_prefix p s") auto

lemma starts_with_iff: "starts_with p s \<longleftrightarrow> (\<exists>r. s = p @ r)"
  by (auto simp: starts_with_def strip_prefix_iff)

lemma contains_iff: "contains p s \<longleftrightarrow> (\<exists>a b. s = a @ p @ b)"
proof (induction s)
  case Nil
  then show ?case by auto
next
  case (Cons c cs)
  have "contains p (c # cs) \<longleftrightarrow> (\<exists>r. c # cs = p @ r) \<or> (\<exists>a b. cs = a @ p @ b)"
    using Cons by (simp add: starts_with_iff)
  also have "\<dots> \<longleftrightarrow> (\<exists>a b. c # cs = a @ p @ b)"
    by (metis append_Cons append_Nil list.exhaust list.sel(3))
  finally show ?case .
qed

lemma show_nat_nonempty [simp]: "show_nat n \<noteq> []"
  by (subst show_nat.simps) simp

section \<open>gRPC status\<close>

text \<open>\<open>tonic::Status\<close>: a code and a message; the three constructors the sources call.\<close>

datatype grpc_code = Internal | PermissionDenied | InvalidArgument

datatype status = Status (status_code: grpc_code) (status_message: string)

lemma ucast_u32_eq_0 [simp]: "(ucast (n :: u32) :: usize) = 0 \<longleftrightarrow> n = 0"
proof -
  have "unat n < 2 ^ 64" using unsigned_less [of n] by (rule order.strict_trans) simp
  then show ?thesis by (simp add: unsigned_ucast_eq take_bit_eq_mod flip: unat_eq_0)
qed

section \<open>Where an error comes from\<close>

lemma map_err_ErrE:
  assumes "map_err g m w = (Err e, w')"
  obtains t where "e = g t"
  using assms by (cases "fst (m w)") (auto simp: map_err_apply)

lemma omap_err_ErrE: "omap_err g r = Err e \<Longrightarrow> (\<And>t. e = g t \<Longrightarrow> thesis) \<Longrightarrow> thesis"
  by (cases r) auto

lemma obind_ErrE:
  assumes "obind r f = Err e"
  obtains "r = Err e" | x where "r = Ok x" and "f x = Err e"
  using assms by (cases r) auto

lemma bindR_ErrE:
  assumes "bindR m f w = (Err e, w')"
  obtains "m w = (Err e, w')" | x w1 where "m w = (Ok x, w1)" and "f x w1 = (Err e, w')"
  using assms by (auto simp: bindR_apply split: prod.splits outcome.splits)

lemma ex_split_at:
  "(\<exists>ys zs. xs = ys @ zs \<and> length ys = n \<and> P ys \<and> Q zs) \<longleftrightarrow>
     n \<le> length xs \<and> P (take n xs) \<and> Q (drop n xs)"
  by auto (metis append_take_drop_id length_take min.absorb2)

lemma ok_or_not_panic [simp]: "\<not> is_panic (ok_or e x)"
  by (cases x) simp_all

section \<open>Updating one element of a list\<close>

lemma length_filter_update:
  "i < length xs \<Longrightarrow> length (filter p (xs[i := t])) + (if p (xs ! i) then 1 else 0) =
     length (filter p xs) + (if p t then 1 else 0)"
proof (induction xs arbitrary: i)
  case (Cons x xs)
  then show ?case by (cases i) auto
qed simp

lemma sum_list_map_update:
  fixes f :: "'a \<Rightarrow> nat"
  shows "i < length xs \<Longrightarrow> sum_list (map f (xs[i := t])) + f (xs ! i) = sum_list (map f xs) + f t"
proof (induction xs arbitrary: i)
  case (Cons x xs)
  then show ?case by (cases i) auto
qed simp

lemma list_ex_filter: "list_ex p xs \<longleftrightarrow> length (filter p xs) \<noteq> 0"
  by (induction xs) auto

lemma list_ex_nth: "list_ex p xs \<Longrightarrow> \<exists>i < length xs. p (xs ! i)"
  by (auto simp: list_ex_length)

end
