(* ===== verification/Tss.thy ===== *)
theory Tss
  imports Prelude
begin

text \<open>
  The interface to the crates that \<open>src/src/tpm.rs\<close> and \<open>src/src/fleet.rs\<close> call:
  \<open>tss-esapi\<close> (the TPM command layer), \<open>sha2\<close> and \<open>hex\<close>. None of them is part
  of the repository, so each call is a field of the record \<open>tss\<close>, an argument
  of every definition that uses it, over an arbitrary type \<open>'w\<close> of worlds (the
  TPM device and the open ESYS contexts). A context is named by a number, since
  several contexts can be open on one device. What the code relies on is stated
  in the theory \<open>Tpm_Contract\<close>.
\<close>

section \<open>Values exchanged with the TPM\<close>

type_synonym context_id = nat
type_synonym digest = bytes

datatype tcti = TctiNameConf string

datatype tss_error = Tss2Error u32 | WrapperError string

text \<open>
  The handles of ESYS resources are opaque names that the library hands out; the
  program only passes them on, so they are natural numbers and never run out.
\<close>

datatype object_handle = ObjectHandle nat
datatype key_handle = KeyHandle nat
datatype auth_session = AuthSession nat
datatype policy_session = PolicySession nat

text \<open>The infallible conversions between handle types (\<open>From\<close> and \<open>Into\<close>).\<close>

fun object_of_key :: "key_handle \<Rightarrow> object_handle" where
  "object_of_key (KeyHandle h) = ObjectHandle h"

fun key_of_object :: "object_handle \<Rightarrow> key_handle" where
  "key_of_object (ObjectHandle h) = KeyHandle h"

fun object_of_session :: "auth_session \<Rightarrow> object_handle" where
  "object_of_session (AuthSession h) = ObjectHandle h"

lemma key_of_object_of_key [simp]: "key_of_object (object_of_key k) = k"
  by (cases k) simp

lemma object_of_key_of_object [simp]: "object_of_key (key_of_object k) = k"
  by (cases k) simp

datatype hashing_algorithm = Sha1 | Sha256 | Sha384 | Sha512
datatype public_algorithm = Rsa | KeyedHash | OtherAlgorithm u16
datatype symmetric = SymmetricNull | AES_128_CFB | OtherSymmetric u16
datatype rsa_key_bits = Rsa1024 | Rsa2048 | Rsa3072 | Rsa4096
datatype keyed_hash_scheme = SchemeNull | OtherScheme u16
datatype hierarchy = Owner | Endorsement | Platform | NullHierarchy
datatype provision = ProvisionOwner | ProvisionPlatform
datatype session_type = SessionHmac | SessionPolicy | SessionTrial
datatype command_code = CommandDuplicate | OtherCommand u32

datatype tpm_private = Private (private_value: bytes)
datatype sensitive_data = SensitiveData (sensitive_value: bytes)
datatype encrypted_secret = EncryptedSecret (secret_value: bytes)
datatype tpm_data = Data (data_value: bytes)

text \<open>The attribute bits of an object, and the builder that starts with all of them clear.\<close>

record object_attributes =
  oa_fixed_tpm :: bool
  oa_st_clear :: bool
  oa_fixed_parent :: bool
  oa_sensitive_data_origin :: bool
  oa_user_with_auth :: bool
  oa_admin_with_policy :: bool
  oa_no_da :: bool
  oa_encrypted_duplication :: bool
  oa_restricted :: bool
  oa_decrypt :: bool
  oa_sign_encrypt :: bool

definition object_attributes_new :: object_attributes where
  "object_attributes_new =
     \<lparr>oa_fixed_tpm = False, oa_st_clear = False, oa_fixed_parent = False,
      oa_sensitive_data_origin = False, oa_user_with_auth = False,
      oa_admin_with_policy = False, oa_no_da = False, oa_encrypted_duplication = False,
      oa_restricted = False, oa_decrypt = False, oa_sign_encrypt = False\<rparr>"

datatype public_parameters =
    RsaParameters symmetric rsa_key_bits u32
  | KeyedHashParameters keyed_hash_scheme
  | OtherParameters bytes

record public =
  pub_algorithm :: public_algorithm
  pub_name_hashing :: hashing_algorithm
  pub_attributes :: object_attributes
  pub_auth_policy :: digest
  pub_parameters :: public_parameters
  pub_unique :: bytes

text \<open>Session attributes; the builder returns the values and the mask of what was set.\<close>

record session_attributes =
  sa_continue_session :: bool
  sa_decrypt :: bool
  sa_encrypt :: bool

section \<open>The calls\<close>

record 'w tss =
  tcti_from_str :: "string \<Rightarrow> (tcti, tss_error) outcome"
  tss_display :: "tss_error \<Rightarrow> string"
  sha256 :: "bytes \<Rightarrow> bytes"
  hex_encode :: "bytes \<Rightarrow> string"
  object_attributes_build :: "object_attributes \<Rightarrow> (object_attributes, tss_error) outcome"
  rsa_parameters_build :: "public_parameters \<Rightarrow> (public_parameters, tss_error) outcome"
  public_build :: "public \<Rightarrow> (public, tss_error) outcome"
  public_marshall :: "public \<Rightarrow> (bytes, tss_error) outcome"
  public_unmarshall :: "bytes \<Rightarrow> (public, tss_error) outcome"
  private_try_from :: "bytes \<Rightarrow> (tpm_private, tss_error) outcome"
  sensitive_data_try_from :: "bytes \<Rightarrow> (sensitive_data, tss_error) outcome"
  encrypted_secret_try_from :: "bytes \<Rightarrow> (encrypted_secret, tss_error) outcome"
  data_try_from :: "bytes \<Rightarrow> (tpm_data, tss_error) outcome"
  persistent_tpm_handle_new :: "u32 \<Rightarrow> (u32, tss_error) outcome"
  policy_session_try_from :: "auth_session \<Rightarrow> (policy_session, tss_error) outcome"
  context_new :: "tcti \<Rightarrow> ('w, context_id, tss_error) rs"
  nullauth_begin :: "context_id \<Rightarrow> ('w, auth_session, tss_error) rs"
  nullauth_end :: "context_id \<Rightarrow> auth_session \<Rightarrow> ('w, unit, tss_error) rs"
  get_session :: "context_id \<Rightarrow> 'w \<Rightarrow> auth_session option"
  set_session :: "context_id \<Rightarrow> auth_session option \<Rightarrow> 'w \<Rightarrow> 'w"
  start_auth_session :: "context_id \<Rightarrow> session_type \<Rightarrow> symmetric \<Rightarrow> hashing_algorithm \<Rightarrow>
     ('w, auth_session option, tss_error) rs"
  tr_sess_set_attributes :: "context_id \<Rightarrow> auth_session \<Rightarrow> session_attributes \<Rightarrow>
     session_attributes \<Rightarrow> ('w, unit, tss_error) rs"
  policy_command_code :: "context_id \<Rightarrow> policy_session \<Rightarrow> command_code \<Rightarrow> ('w, unit, tss_error) rs"
  policy_get_digest :: "context_id \<Rightarrow> policy_session \<Rightarrow> ('w, digest, tss_error) rs"
  flush_context :: "context_id \<Rightarrow> object_handle \<Rightarrow> ('w, unit, tss_error) rs"
  create_primary :: "context_id \<Rightarrow> hierarchy \<Rightarrow> public \<Rightarrow> ('w, key_handle, tss_error) rs"
  read_public :: "context_id \<Rightarrow> key_handle \<Rightarrow> ('w, public \<times> bytes \<times> bytes, tss_error) rs"
  create :: "context_id \<Rightarrow> key_handle \<Rightarrow> public \<Rightarrow> sensitive_data option \<Rightarrow>
     ('w, tpm_private \<times> public, tss_error) rs"
  load :: "context_id \<Rightarrow> key_handle \<Rightarrow> tpm_private \<Rightarrow> public \<Rightarrow> ('w, key_handle, tss_error) rs"
  unseal_object :: "context_id \<Rightarrow> object_handle \<Rightarrow> ('w, sensitive_data, tss_error) rs"
  load_external_public :: "context_id \<Rightarrow> public \<Rightarrow> hierarchy \<Rightarrow> ('w, key_handle, tss_error) rs"
  duplicate_object :: "context_id \<Rightarrow> object_handle \<Rightarrow> object_handle \<Rightarrow> tpm_data option \<Rightarrow>
     symmetric \<Rightarrow> ('w, tpm_data \<times> tpm_private \<times> encrypted_secret, tss_error) rs"
  import_object :: "context_id \<Rightarrow> object_handle \<Rightarrow> tpm_data option \<Rightarrow> public \<Rightarrow> tpm_private \<Rightarrow>
     encrypted_secret \<Rightarrow> symmetric \<Rightarrow> ('w, tpm_private, tss_error) rs"
  evict_control :: "context_id \<Rightarrow> provision \<Rightarrow> object_handle \<Rightarrow> u32 \<Rightarrow>
     ('w, object_handle, tss_error) rs"
  tr_from_tpm_public :: "context_id \<Rightarrow> u32 \<Rightarrow> ('w, object_handle, tss_error) rs"

section \<open>Running a closure under a session\<close>

text \<open>
  \<open>execute_with_nullauth_session\<close> starts a fresh HMAC session, makes it the
  context's session, runs the closure and removes the session again; an error
  of the session's own set-up or clean-up is converted into the closure's
  error type (\<open>E: From<Error>\<close>). \<open>execute_with_session\<close> and
  \<open>execute_without_session\<close> run the closure with the context's session
  replaced, and restore the previous one.
\<close>

definition execute_with_nullauth_session ::
  "'w tss \<Rightarrow> (tss_error \<Rightarrow> 'e) \<Rightarrow> context_id \<Rightarrow> ('w, 'a, 'e) rs \<Rightarrow> ('w, 'a, 'e) rs" where
  "execute_with_nullauth_session X conv c f =
     bindR (map_err conv (nullauth_begin X c)) (\<lambda>s.
     bindR (attempt f) (\<lambda>r.
     bindR (map_err conv (nullauth_end X c s)) (\<lambda>_.
     lift r)))"

definition execute_with_session ::
  "'w tss \<Rightarrow> context_id \<Rightarrow> auth_session option \<Rightarrow> ('w, 'a, 'e) rs \<Rightarrow> ('w, 'a, 'e) rs" where
  "execute_with_session X c s f = (\<lambda>w.
     let old = get_session X c w in
     case f (set_session X c s w) of
       (Panic p, w') \<Rightarrow> (Panic p, w')
     | (r, w') \<Rightarrow> (r, set_session X c old w'))"

definition execute_without_session ::
  "'w tss \<Rightarrow> context_id \<Rightarrow> ('w, 'a, 'e) rs \<Rightarrow> ('w, 'a, 'e) rs" where
  "execute_without_session X c f = execute_with_session X c None f"

lemma execute_with_nullauth_session_Ok_iff:
  "execute_with_nullauth_session X conv c f w = (Ok y, w') \<longleftrightarrow>
     (\<exists>s w1 w2. nullauth_begin X c w = (Ok s, w1) \<and> f w1 = (Ok y, w2) \<and>
        nullauth_end X c s w2 = (Ok (), w'))"
  by (auto simp: execute_with_nullauth_session_def bindR_Ok_iff attempt_Ok_iff)

lemma execute_with_nullauth_session_run [rs_simps]:
  assumes "nullauth_begin X c w = (Ok s, w1)" and "f w1 = (r, w2)" and "\<not> is_panic r"
    and "nullauth_end X c s w2 = (Ok u, w3)"
  shows "execute_with_nullauth_session X conv c f w = (r, w3)"
  using assms
  by (cases r) (simp_all add: execute_with_nullauth_session_def bindR_apply map_err_apply attempt_def)

lemma execute_with_session_run [rs_simps]:
  assumes "f (set_session X c s w) = (r, w1)" and "\<not> is_panic r"
  shows "execute_with_session X c s f w = (r, set_session X c (get_session X c w) w1)"
  using assms by (cases r) (simp_all add: execute_with_session_def)

end
