(* ===== verification/Tpm.thy ===== *)
theory Tpm
  imports Tss
begin

text \<open>
  \<open>src/src/tpm.rs\<close>: the sealer (\<open>TpmSealer\<close> with its constructors \<open>new\<close> and
  \<open>from_primary\<close>, \<open>seal\<close>, \<open>unseal\<close> and \<open>Drop\<close>), the public templates, the
  derivation of the \<open>key_id\<close>, and the ciphertext envelope codec.
\<close>

section \<open>Constants, errors, state\<close>

definition MAX_SEAL_DATA :: nat where
  "MAX_SEAL_DATA = 128"

definition ENVELOPE_VERSION :: byte where
  "ENVELOPE_VERSION = 1"

datatype TpmError = TpmTss tss_error | PlaintextTooLarge nat | MalformedEnvelope

fun display_TpmError :: "'w tss \<Rightarrow> TpmError \<Rightarrow> string" where
  "display_TpmError X (TpmTss e) = ''TPM error: '' @ tss_display X e"
| "display_TpmError X (PlaintextTooLarge n) =
     ''plaintext too large to seal: '' @ show_nat n @ '' bytes (max '' @ show_nat MAX_SEAL_DATA @ '')''"
| "display_TpmError X MalformedEnvelope = ''malformed ciphertext envelope''"

record TpmSealer =
  sealer_context :: context_id
  sealer_primary :: key_handle
  sealer_key_id :: string
  sealer_child_fixed :: bool
  sealer_owns_transient_primary :: bool

section \<open>Templates and key id\<close>

definition derive_key_id :: "'w tss \<Rightarrow> bytes \<Rightarrow> (string, 'e) outcome" where
  "derive_key_id X name_bytes =
     obind (str_slice_to 16 (hex_encode X (sha256 X name_bytes))) (\<lambda>ident.
     Ok (''sceau-'' @ ident))"

definition srk_public :: "'w tss \<Rightarrow> (public, TpmError) outcome" where
  "srk_public X =
     obind (omap_err TpmTss (object_attributes_build X
       (object_attributes_new\<lparr>oa_fixed_tpm := True, oa_fixed_parent := True,
          oa_sensitive_data_origin := True, oa_user_with_auth := True,
          oa_decrypt := True, oa_restricted := True\<rparr>))) (\<lambda>attributes.
     obind (omap_err TpmTss (rsa_parameters_build X (RsaParameters AES_128_CFB Rsa2048 0))) (\<lambda>params.
     omap_err TpmTss (public_build X
       \<lparr>pub_algorithm = Rsa, pub_name_hashing = Sha256, pub_attributes = attributes,
        pub_auth_policy = [], pub_parameters = params, pub_unique = []\<rparr>)))"

definition sealed_public :: "'w tss \<Rightarrow> bool \<Rightarrow> (public, TpmError) outcome" where
  "sealed_public X fixed =
     obind (omap_err TpmTss (object_attributes_build X
       (object_attributes_new\<lparr>oa_fixed_tpm := fixed, oa_fixed_parent := fixed,
          oa_user_with_auth := True\<rparr>))) (\<lambda>attributes.
     omap_err TpmTss (public_build X
       \<lparr>pub_algorithm = KeyedHash, pub_name_hashing = Sha256, pub_attributes = attributes,
        pub_auth_policy = [], pub_parameters = KeyedHashParameters SchemeNull,
        pub_unique = []\<rparr>))"

section \<open>The ciphertext envelope\<close>

definition envelope_encode :: "'w tss \<Rightarrow> public \<Rightarrow> tpm_private \<Rightarrow> (bytes, 'e) outcome" where
  "envelope_encode X p priv =
     (case public_marshall X p of
        Ok public_bytes \<Rightarrow>
          Ok ([ENVELOPE_VERSION] @ u16_to_be_bytes (as_u16 (length public_bytes)) @
              public_bytes @ private_value priv)
      | Err e \<Rightarrow> Panic ''SRK-descendant public marshals''
      | Panic s \<Rightarrow> Panic s)"

definition envelope_decode :: "'w tss \<Rightarrow> bytes \<Rightarrow> (public \<times> tpm_private, TpmError) outcome" where
  "envelope_decode X ciphertext =
     obind (if length ciphertext < 3 then Ok True
            else obind (index ciphertext 0) (\<lambda>v. Ok (v \<noteq> ENVELOPE_VERSION))) (\<lambda>bad_header.
     if bad_header then Err MalformedEnvelope
     else
       obind (index ciphertext 1) (\<lambda>b1.
       obind (index ciphertext 2) (\<lambda>b2.
       let public_len = unat (u16_from_be_bytes b1 b2) in
       if length ciphertext < 3 + public_len then Err MalformedEnvelope
       else
         obind (slice 3 (3 + public_len) ciphertext) (\<lambda>public_bytes.
         obind (omap_err (\<lambda>_. MalformedEnvelope) (public_unmarshall X public_bytes)) (\<lambda>p.
         obind (slice_from (3 + public_len) ciphertext) (\<lambda>private_bytes.
         obind (omap_err (\<lambda>_. MalformedEnvelope) (private_try_from X private_bytes)) (\<lambda>priv.
         Ok (p, priv))))))))"

text \<open>The fuzz target \<open>src/fuzz/fuzz_targets/envelope_decode.rs\<close> runs the decoder and drops the result.\<close>

definition fuzz_envelope_decode :: "'w tss \<Rightarrow> bytes \<Rightarrow> (unit, TpmError) outcome" where
  "fuzz_envelope_decode X data =
     (case envelope_decode X data of Panic s \<Rightarrow> Panic s | _ \<Rightarrow> Ok ())"

section \<open>The sealer\<close>

definition TpmSealer_new :: "'w tss \<Rightarrow> tcti \<Rightarrow> ('w, TpmSealer, TpmError) rs" where
  "TpmSealer_new X tcti =
     bindR (map_err TpmTss (context_new X tcti)) (\<lambda>context.
     bindR (execute_with_nullauth_session X TpmTss context
       (bindR (lift (srk_public X)) (\<lambda>template.
        bindR (map_err TpmTss (create_primary X context Owner template)) (\<lambda>primary.
        bindR (map_err TpmTss (read_public X context primary)) (\<lambda>(p, name, _).
        bindR (lift (derive_key_id X name)) (\<lambda>key_id.
        ret (primary, key_id, oa_fixed_tpm (pub_attributes p)))))))) (\<lambda>(primary, key_id, child_fixed).
     ret \<lparr>sealer_context = context, sealer_primary = primary, sealer_key_id = key_id,
          sealer_child_fixed = child_fixed, sealer_owns_transient_primary = True\<rparr>))"

definition TpmSealer_from_primary ::
  "'w tss \<Rightarrow> context_id \<Rightarrow> key_handle \<Rightarrow> ('w, TpmSealer, TpmError) rs" where
  "TpmSealer_from_primary X context primary =
     bindR (map_err TpmTss (execute_with_nullauth_session X id context
       (read_public X context primary))) (\<lambda>(p, name, _).
     bindR (lift (derive_key_id X name)) (\<lambda>key_id.
     ret \<lparr>sealer_context = context, sealer_primary = primary, sealer_key_id = key_id,
          sealer_child_fixed = oa_fixed_tpm (pub_attributes p),
          sealer_owns_transient_primary = False\<rparr>))"

definition seal :: "'w tss \<Rightarrow> TpmSealer \<Rightarrow> bytes \<Rightarrow> ('w, bytes, TpmError) rs" where
  "seal X self plaintext =
     (if length plaintext > MAX_SEAL_DATA then lift (Err (PlaintextTooLarge (length plaintext)))
      else
        bindR (lift (omap_err TpmTss (sensitive_data_try_from X plaintext))) (\<lambda>sensitive.
        bindR (execute_with_nullauth_session X TpmTss (sealer_context self)
          (bindR (lift (sealed_public X (sealer_child_fixed self))) (\<lambda>template.
           map_err TpmTss (create X (sealer_context self) (sealer_primary self) template
             (Some sensitive))))) (\<lambda>(out_private, out_public).
        lift (envelope_encode X out_public out_private))))"

definition unseal :: "'w tss \<Rightarrow> TpmSealer \<Rightarrow> bytes \<Rightarrow> ('w, bytes, TpmError) rs" where
  "unseal X self ciphertext =
     bindR (lift (envelope_decode X ciphertext)) (\<lambda>(p, priv).
     bindR (execute_with_nullauth_session X TpmTss (sealer_context self)
       (bindR (map_err TpmTss (load X (sealer_context self) (sealer_primary self) priv p)) (\<lambda>handle.
        bindR (map_err TpmTss (unseal_object X (sealer_context self) (object_of_key handle))) (\<lambda>data.
        bindR (map_err TpmTss (flush_context X (sealer_context self) (object_of_key handle))) (\<lambda>_.
        ret data))))) (\<lambda>data.
     ret (sensitive_value data)))"

definition TpmSealer_drop :: "'w tss \<Rightarrow> TpmSealer \<Rightarrow> 'w \<Rightarrow> 'w" where
  "TpmSealer_drop X self w =
     (if \<not> sealer_owns_transient_primary self then w
      else snd (execute_with_nullauth_session X id (sealer_context self)
        (flush_context X (sealer_context self) (object_of_key (sealer_primary self))) w))"

section \<open>Facts about the codec\<close>

lemma envelope_encode_Ok:
  "public_marshall X p = Ok b \<Longrightarrow> envelope_encode X p priv =
     Ok (ENVELOPE_VERSION # u16_to_be_bytes (as_u16 (length b)) @ b @ private_value priv)"
  by (simp add: envelope_encode_def)

lemma envelope_decode_Cons:
  "envelope_decode X (ENVELOPE_VERSION # b1 # b2 # rest) =
     (let n = unat (u16_from_be_bytes b1 b2) in
      if length rest < n then Err MalformedEnvelope
      else obind (omap_err (\<lambda>_. MalformedEnvelope) (public_unmarshall X (take n rest))) (\<lambda>p.
           obind (omap_err (\<lambda>_. MalformedEnvelope) (private_try_from X (drop n rest))) (\<lambda>priv.
           Ok (p, priv))))"
  by (simp add: envelope_decode_def index_def slice_def slice_from_def Let_def numeral_3_eq_3)

lemma envelope_decode_malformed:
  assumes "\<And>b1 b2 rest. ct \<noteq> ENVELOPE_VERSION # b1 # b2 # rest"
  shows "envelope_decode X ct = Err MalformedEnvelope"
proof (cases "length ct < 3")
  case True
  then show ?thesis by (simp add: envelope_decode_def)
next
  case False
  then obtain v b1 b2 rest where ct: "ct = v # b1 # b2 # rest"
    by (cases ct; cases "tl ct"; cases "tl (tl ct)") auto
  with assms have "v \<noteq> ENVELOPE_VERSION" by auto
  then show ?thesis by (simp add: ct envelope_decode_def index_def)
qed

lemma envelope_decode_encode:
  assumes "public_marshall X p = Ok b" and "length b < 65536" and "public_unmarshall X b = Ok p"
    and "private_try_from X (private_value priv) = Ok priv"
  shows "obind (envelope_encode X p priv) (envelope_decode X) = Ok (p, priv)"
proof -
  obtain b1 b2 where be: "u16_to_be_bytes (as_u16 (length b)) = [b1, b2]"
    by (simp add: u16_to_be_bytes_def)
  have "unat (u16_from_be_bytes b1 b2) = length b"
    using assms(2) by (simp add: u16_be_roundtrip [OF be] unat_as_u16)
  then show ?thesis
    using assms by (simp add: envelope_encode_Ok be envelope_decode_Cons)
qed

end
