(* ===== verification/Fleet.thy ===== *)
theory Fleet
  imports Tpm
begin

text \<open>
  \<open>src/src/fleet.rs\<close>: creation, duplication, import and persistence of the fleet
  key. Every function takes the context it is called with and runs in the world
  of the TPM; the order of the TPM calls, the sessions they run under and the
  early returns are those of the source.
\<close>

section \<open>Constants, errors, data\<close>

definition FLEET_KEY_PERSISTENT_HANDLE :: u32 where
  "FLEET_KEY_PERSISTENT_HANDLE = 0x81020001"

datatype FleetError = FleetTpm TpmError | FleetTss tss_error | NoSessionHandle

fun display_FleetError :: "'w tss \<Rightarrow> FleetError \<Rightarrow> string" where
  "display_FleetError X (FleetTpm e) = ''TPM error: '' @ display_TpmError X e"
| "display_FleetError X (FleetTss e) = ''TPM error: '' @ tss_display X e"
| "display_FleetError X NoSessionHandle =
     ''TPM returned no session handle when starting an auth session''"

record DuplicationBlob =
  fleet_key_public :: public
  duplicate_private :: tpm_private
  blob_encrypted_secret :: encrypted_secret
  blob_encryption_key :: "tpm_data option"

definition duplication_symmetric_alg :: symmetric where
  "duplication_symmetric_alg = AES_128_CFB"

section \<open>Sessions and the duplication policy\<close>

text \<open>The builder sets the three attributes and returns the same bits as the mask.\<close>

definition start_session_attributes :: session_attributes where
  "start_session_attributes =
     \<lparr>sa_continue_session = True, sa_decrypt = True, sa_encrypt = True\<rparr>"

definition start_session ::
  "'w tss \<Rightarrow> context_id \<Rightarrow> session_type \<Rightarrow> ('w, auth_session, FleetError) rs" where
  "start_session X context session_type =
     bindR (map_err FleetTss (start_auth_session X context session_type AES_128_CFB Sha256)) (\<lambda>started.
     bindR (lift (ok_or NoSessionHandle started)) (\<lambda>session.
     bindR (map_err FleetTss (tr_sess_set_attributes X context session
       start_session_attributes start_session_attributes)) (\<lambda>_.
     ret session)))"

definition duplication_auth_policy_digest ::
  "'w tss \<Rightarrow> context_id \<Rightarrow> ('w, digest, FleetError) rs" where
  "duplication_auth_policy_digest X context =
     bindR (start_session X context SessionTrial) (\<lambda>trial_session.
     bindR (lift (omap_err (\<lambda>_. NoSessionHandle)
       (policy_session_try_from X trial_session))) (\<lambda>policy_session.
     bindR (map_err FleetTss (policy_command_code X context policy_session CommandDuplicate)) (\<lambda>_.
     bindR (map_err FleetTss (policy_get_digest X context policy_session)) (\<lambda>digest.
     bindR (map_err FleetTss (flush_context X context (object_of_session trial_session))) (\<lambda>_.
     ret digest)))))"

definition duplication_auth_policy_session ::
  "'w tss \<Rightarrow> context_id \<Rightarrow> ('w, auth_session, FleetError) rs" where
  "duplication_auth_policy_session X context =
     bindR (start_session X context SessionPolicy) (\<lambda>session.
     bindR (lift (omap_err (\<lambda>_. NoSessionHandle) (policy_session_try_from X session))) (\<lambda>policy_session.
     bindR (map_err FleetTss (policy_command_code X context policy_session CommandDuplicate)) (\<lambda>_.
     ret session)))"

definition duplicable_storage_public :: "'w tss \<Rightarrow> context_id \<Rightarrow> ('w, public, FleetError) rs" where
  "duplicable_storage_public X context =
     bindR (duplication_auth_policy_digest X context) (\<lambda>auth_policy.
     lift (
       obind (omap_err FleetTss (object_attributes_build X
         (object_attributes_new\<lparr>oa_sensitive_data_origin := True, oa_user_with_auth := True,
            oa_decrypt := True, oa_restricted := True\<rparr>))) (\<lambda>attributes.
       obind (omap_err FleetTss (rsa_parameters_build X
         (RsaParameters duplication_symmetric_alg Rsa2048 0))) (\<lambda>params.
       omap_err FleetTss (public_build X
         \<lparr>pub_algorithm = Rsa, pub_name_hashing = Sha256, pub_attributes = attributes,
          pub_auth_policy = auth_policy, pub_parameters = params, pub_unique = []\<rparr>)))))"

section \<open>The persistent handle\<close>

definition key_handle_from :: "object_handle \<Rightarrow> (key_handle, FleetError) outcome" where
  "key_handle_from handle = Ok (key_of_object handle)"

definition load_fleet_key :: "'w tss \<Rightarrow> context_id \<Rightarrow> ('w, key_handle, FleetError) rs" where
  "load_fleet_key X context =
     bindR (lift (omap_err FleetTss
       (persistent_tpm_handle_new X FLEET_KEY_PERSISTENT_HANDLE))) (\<lambda>persistent_handle.
     bindR (map_err FleetTss (execute_with_nullauth_session X id context
       (tr_from_tpm_public X context persistent_handle))) (\<lambda>object_handle.
     lift (key_handle_from object_handle)))"

definition persist :: "'w tss \<Rightarrow> context_id \<Rightarrow> key_handle \<Rightarrow> ('w, key_handle, FleetError) rs" where
  "persist X context transient =
     bindR (lift (omap_err FleetTss
       (persistent_tpm_handle_new X FLEET_KEY_PERSISTENT_HANDLE))) (\<lambda>persistent_handle.
     bindR (map_err FleetTss (execute_with_nullauth_session X id context
       (evict_control X context ProvisionOwner (object_of_key transient) persistent_handle))) (\<lambda>handle.
     lift (key_handle_from handle)))"

definition delete_persisted_fleet_key :: "'w tss \<Rightarrow> context_id \<Rightarrow> ('w, unit, FleetError) rs" where
  "delete_persisted_fleet_key X context =
     bindR (attempt (load_fleet_key X context)) (\<lambda>probe.
     case probe of
       Ok existing \<Rightarrow>
         bindR (lift (omap_err FleetTss
           (persistent_tpm_handle_new X FLEET_KEY_PERSISTENT_HANDLE))) (\<lambda>persistent_handle.
         bindR (map_err FleetTss (execute_with_nullauth_session X id context
           (evict_control X context ProvisionOwner (object_of_key existing) persistent_handle))) (\<lambda>_.
         ret ()))
     | _ \<Rightarrow> ret ())"

section \<open>Genesis\<close>

definition create_new_fleet_key :: "'w tss \<Rightarrow> context_id \<Rightarrow> ('w, key_handle, FleetError) rs" where
  "create_new_fleet_key X context =
     bindR (duplicable_storage_public X context) (\<lambda>template.
     bindR (map_err FleetTss (execute_with_nullauth_session X id context
       (create_primary X context Owner template))) (\<lambda>created.
     persist X context created))"

definition create_fleet_key :: "'w tss \<Rightarrow> context_id \<Rightarrow> bool \<Rightarrow> ('w, key_handle, FleetError) rs" where
  "create_fleet_key X context force =
     (if force then
        bindR (delete_persisted_fleet_key X context) (\<lambda>_. create_new_fleet_key X context)
      else
        bindR (attempt (load_fleet_key X context)) (\<lambda>probe.
        case probe of
          Ok existing \<Rightarrow> ret existing
        | _ \<Rightarrow> create_new_fleet_key X context))"

section \<open>Join and enroll\<close>

definition create_transport_key ::
  "'w tss \<Rightarrow> context_id \<Rightarrow> ('w, key_handle \<times> public, FleetError) rs" where
  "create_transport_key X context =
     bindR (duplicable_storage_public X context) (\<lambda>template.
     bindR (map_err FleetTss (execute_with_nullauth_session X id context
       (create_primary X context Owner template))) (\<lambda>created.
     bindR (map_err FleetTss (execute_with_nullauth_session X id context
       (read_public X context created))) (\<lambda>(p, _, _).
     ret (created, p))))"

definition duplicate_for_joiner ::
  "'w tss \<Rightarrow> context_id \<Rightarrow> key_handle \<Rightarrow> public \<Rightarrow> ('w, DuplicationBlob, FleetError) rs" where
  "duplicate_for_joiner X context fleet_key_handle joiner_transport_public =
     bindR (map_err FleetTss (execute_with_nullauth_session X id context
       (read_public X context fleet_key_handle))) (\<lambda>(fleet_public, _, _).
     bindR (map_err FleetTss (execute_without_session X context
       (load_external_public X context joiner_transport_public Owner))) (\<lambda>external.
     bindR (duplication_auth_policy_session X context) (\<lambda>policy_session.
     bindR (attempt (execute_with_session X context (Some policy_session)
       (duplicate_object X context (object_of_key fleet_key_handle) (object_of_key external)
          None duplication_symmetric_alg))) (\<lambda>result.
     bindR (map_err FleetTss (flush_context X context (object_of_session policy_session))) (\<lambda>_.
     bindR (attempt (execute_without_session X context
       (flush_context X context (object_of_key external)))) (\<lambda>_.
     bindR (lift (omap_err FleetTss result)) (\<lambda>(encryption_key, dup_private, encrypted_secret).
     ret \<lparr>fleet_key_public = fleet_public, duplicate_private = dup_private,
          blob_encrypted_secret = encrypted_secret,
          blob_encryption_key = Some encryption_key\<rparr>)))))))"

definition import_and_persist ::
  "'w tss \<Rightarrow> context_id \<Rightarrow> key_handle \<Rightarrow> DuplicationBlob \<Rightarrow> ('w, key_handle, FleetError) rs" where
  "import_and_persist X context transport_key_handle blob =
     bindR (start_session X context SessionHmac) (\<lambda>session.
     bindR (attempt (execute_with_session X context (Some session)
       (bindR (import_object X context (object_of_key transport_key_handle)
          (blob_encryption_key blob) (fleet_key_public blob) (duplicate_private blob)
          (blob_encrypted_secret blob) duplication_symmetric_alg) (\<lambda>imported_private.
        load X context transport_key_handle imported_private (fleet_key_public blob))))) (\<lambda>result.
     bindR (map_err FleetTss (flush_context X context (object_of_session session))) (\<lambda>_.
     bindR (lift (omap_err FleetTss result)) (\<lambda>fleet_key_handle.
     bindR (delete_persisted_fleet_key X context) (\<lambda>_.
     bindR (persist X context fleet_key_handle) (\<lambda>persisted.
     bindR (map_err FleetTss (execute_with_nullauth_session X id context
       (flush_context X context (object_of_key transport_key_handle)))) (\<lambda>_.
     ret persisted)))))))"

end
