(* ===== verification/Tpm_Contract.thy ===== *)
theory Tpm_Contract
  imports Fleet
begin

text \<open>
  What \<open>tpm.rs\<close> and \<open>fleet.rs\<close> rely on of the crates they call, as a locale
  over the call record \<open>tss\<close>. A \<open>tpm_view\<close> is what the documentation of the TPM
  commands speaks about: the open contexts, the table of ESYS resources of each
  context (sessions, keys, sealed objects, external keys), the context's
  current session, the persistent keys of the device and the primary key that
  the owner seed gives for each template. The laws say what a call does to the
  view when its preconditions hold; blobs and handles are not determined, only
  related to the keys by \<open>sealed_under\<close>, \<open>wrapped_for\<close> and \<open>imported_under\<close>.
\<close>

section \<open>The view\<close>

datatype 'k entity =
    Session session_type digest
  | TransientKey 'k
  | PersistentKey u32 'k
  | SealedObject bytes
  | ExternalKey public

record 'k tpm_view =
  v_open :: "context_id \<Rightarrow> bool"
  v_tr :: "context_id \<Rightarrow> object_handle \<Rightarrow> 'k entity option"
  v_cur :: "context_id \<Rightarrow> auth_session option"
  v_nv :: "u32 \<Rightarrow> 'k option"
  v_primary :: "public \<Rightarrow> 'k"

definition put_tr ::
  "context_id \<Rightarrow> object_handle \<Rightarrow> 'k entity option \<Rightarrow> 'k tpm_view \<Rightarrow> 'k tpm_view" where
  "put_tr c h e v = v\<lparr>v_tr := (v_tr v)(c := (v_tr v c)(h := e))\<rparr>"

definition put_cur ::
  "context_id \<Rightarrow> auth_session option \<Rightarrow> 'k tpm_view \<Rightarrow> 'k tpm_view" where
  "put_cur c s v = v\<lparr>v_cur := (v_cur v)(c := s)\<rparr>"

definition put_nv :: "u32 \<Rightarrow> 'k option \<Rightarrow> 'k tpm_view \<Rightarrow> 'k tpm_view" where
  "put_nv h k v = v\<lparr>v_nv := (v_nv v)(h := k)\<rparr>"

definition open_context :: "context_id \<Rightarrow> 'k tpm_view \<Rightarrow> 'k tpm_view" where
  "open_context c v = v\<lparr>v_open := (v_open v)(c := True),
     v_tr := (v_tr v)(c := (\<lambda>_. None)), v_cur := (v_cur v)(c := None)\<rparr>"

text \<open>A persistent key's handle is good as long as the device still holds that key there.\<close>

fun entity_key :: "(u32 \<Rightarrow> 'k option) \<Rightarrow> 'k entity \<Rightarrow> 'k option" where
  "entity_key nv (TransientKey k) = Some k"
| "entity_key nv (PersistentKey h k) = (if nv h = Some k then Some k else None)"
| "entity_key nv (Session t d) = None"
| "entity_key nv (SealedObject d) = None"
| "entity_key nv (ExternalKey p) = None"

definition key_at :: "'k tpm_view \<Rightarrow> context_id \<Rightarrow> key_handle \<Rightarrow> 'k option" where
  "key_at v c h = Option.bind (v_tr v c (object_of_key h)) (entity_key (v_nv v))"

definition user_auth :: "'k tpm_view \<Rightarrow> context_id \<Rightarrow> bool" where
  "user_auth v c = (case v_cur v c of
      None \<Rightarrow> False
    | Some s \<Rightarrow> (\<exists>d. v_tr v c (object_of_session s) = Some (Session SessionHmac d)))"

definition policy_auth :: "'k tpm_view \<Rightarrow> context_id \<Rightarrow> digest \<Rightarrow> bool" where
  "policy_auth v c d = (case v_cur v c of
      None \<Rightarrow> False
    | Some s \<Rightarrow> v_tr v c (object_of_session s) = Some (Session SessionPolicy d))"

fun is_persistent :: "'k entity \<Rightarrow> bool" where
  "is_persistent (PersistentKey h k) = True"
| "is_persistent e = False"

text \<open>A context between two calls of the program: open, no session left current.\<close>

definition idle :: "'k tpm_view \<Rightarrow> context_id \<Rightarrow> bool" where
  "idle v c = (v_open v c \<and> v_cur v c = None)"

text \<open>The session that \<open>execute_with_nullauth_session\<close> brackets a closure with.\<close>

definition open_session :: "context_id \<Rightarrow> auth_session \<Rightarrow> 'k tpm_view \<Rightarrow> 'k tpm_view" where
  "open_session c s v =
     put_cur c (Some s) (put_tr c (object_of_session s) (Some (Session SessionHmac [])) v)"

definition close_session :: "context_id \<Rightarrow> auth_session \<Rightarrow> 'k tpm_view \<Rightarrow> 'k tpm_view" where
  "close_session c s v = put_cur c None (put_tr c (object_of_session s) None v)"

text \<open>Templates the sources build, and the public areas of storage keys. A digest has at most 64 bytes.\<close>

definition storage_template :: "public \<Rightarrow> bool" where
  "storage_template p =
     (pub_algorithm p = Rsa \<and> pub_name_hashing p = Sha256 \<and>
      oa_restricted (pub_attributes p) \<and> oa_decrypt (pub_attributes p) \<and>
      \<not> oa_sign_encrypt (pub_attributes p) \<and>
      oa_fixed_parent (pub_attributes p) = oa_fixed_tpm (pub_attributes p) \<and>
      pub_parameters p = RsaParameters AES_128_CFB Rsa2048 0 \<and> pub_unique p = [] \<and>
      length (pub_auth_policy p) \<le> 64)"

definition sealing_template :: "bool \<Rightarrow> public \<Rightarrow> bool" where
  "sealing_template fixed p =
     (pub_algorithm p = KeyedHash \<and> pub_name_hashing p = Sha256 \<and>
      oa_fixed_tpm (pub_attributes p) = fixed \<and> oa_fixed_parent (pub_attributes p) = fixed \<and>
      oa_user_with_auth (pub_attributes p) \<and> \<not> oa_sensitive_data_origin (pub_attributes p) \<and>
      \<not> oa_sign_encrypt (pub_attributes p) \<and> \<not> oa_decrypt (pub_attributes p) \<and>
      pub_parameters p = KeyedHashParameters SchemeNull \<and>
      length (pub_auth_policy p) \<le> 64)"

section \<open>The laws\<close>

locale tss_codec =
  fixes X :: "'w tss"
  assumes attributes_build:
      "\<not> oa_sign_encrypt a \<Longrightarrow> object_attributes_build X a = Ok a"
    and rsa_build:
      "alg \<noteq> SymmetricNull \<Longrightarrow>
       rsa_parameters_build X (RsaParameters alg bits e) = Ok (RsaParameters alg bits e)"
    and public_build_rsa:
      "pub_algorithm p = Rsa \<Longrightarrow> pub_parameters p = RsaParameters alg bits e \<Longrightarrow>
       public_build X p = Ok p"
    and public_build_keyed_hash:
      "pub_algorithm p = KeyedHash \<Longrightarrow> pub_parameters p = KeyedHashParameters s \<Longrightarrow>
       public_build X p = Ok p"
    and unmarshall_marshall:
      "public_marshall X p = Ok b \<Longrightarrow> public_unmarshall X b = Ok p"
    and marshall_bounded:
      "public_marshall X p = Ok b \<Longrightarrow> length b < 65536"
    and sensitive_data:
      "length d \<le> 128 \<Longrightarrow> sensitive_data_try_from X d = Ok (SensitiveData d)"
    and sha256_length: "length (sha256 X b) = 32"
    and hex_length: "length (hex_encode X b) = 2 * length b"
    and hex_ascii: "c \<in> set (hex_encode X b) \<Longrightarrow> of_char c < (128 :: nat)"
    and persistent_handle:
      "0x81000000 \<le> h \<Longrightarrow> h \<le> 0x81FFFFFF \<Longrightarrow> persistent_tpm_handle_new X h = Ok h"

locale tpm_device = tss_codec X
  for X :: "'w tss" +
  fixes view :: "'w \<Rightarrow> 'k tpm_view"
    and kpub :: "'k \<Rightarrow> public"
    and name_of :: "public \<Rightarrow> bytes"
    and sealed_under :: "'k \<Rightarrow> public \<Rightarrow> tpm_private \<Rightarrow> bytes \<Rightarrow> bool"
    and wrapped_for :: "public \<Rightarrow> 'k \<Rightarrow> tpm_data \<Rightarrow> tpm_private \<Rightarrow> encrypted_secret \<Rightarrow> bool"
    and imported_under :: "'k \<Rightarrow> 'k \<Rightarrow> tpm_private \<Rightarrow> bool"
    and extend_policy :: "digest \<Rightarrow> command_code \<Rightarrow> digest"
    and reachable :: "tcti \<Rightarrow> bool"
  assumes key_marshalls: "\<exists>b. public_marshall X (kpub k) = Ok b"
    and context_new:
      "reachable tc \<Longrightarrow> runs_ok (context_new X tc) w
         (\<lambda>c w'. \<not> v_open (view w) c \<and> view w' = open_context c (view w))"
    and nullauth_begin:
      "idle (view w) c \<Longrightarrow> runs_ok (nullauth_begin X c) w
         (\<lambda>s w'. v_tr (view w) c (object_of_session s) = None \<and>
            view w' = put_cur c (Some s)
              (put_tr c (object_of_session s) (Some (Session SessionHmac [])) (view w)))"
    and nullauth_end:
      "v_open (view w) c \<Longrightarrow> v_cur (view w) c = Some s \<Longrightarrow>
       v_tr (view w) c (object_of_session s) = Some (Session SessionHmac []) \<Longrightarrow>
       runs_ok (nullauth_end X c s) w
         (\<lambda>_ w'. view w' = put_cur c None (put_tr c (object_of_session s) None (view w)))"
    and get_session: "get_session X c w = v_cur (view w) c"
    and set_session: "view (set_session X c cur w) = put_cur c cur (view w)"
    and start_auth_session:
      "v_open (view w) c \<Longrightarrow> runs_ok (start_auth_session X c ty AES_128_CFB Sha256) w
         (\<lambda>r w'. \<exists>s. r = Some s \<and> v_tr (view w) c (object_of_session s) = None \<and>
            view w' = put_tr c (object_of_session s) (Some (Session ty [])) (view w))"
    and tr_sess_set_attributes:
      "v_tr (view w) c (object_of_session s) = Some (Session ty pd) \<Longrightarrow>
       runs_ok (tr_sess_set_attributes X c s attrs msk) w (\<lambda>_ w'. view w' = view w)"
    and policy_session:
      "v_tr (view w) c (ObjectHandle sh) = Some (Session ty pd) \<Longrightarrow> ty \<noteq> SessionHmac \<Longrightarrow>
       policy_session_try_from X (AuthSession sh) = Ok (PolicySession sh)"
    and policy_command_code:
      "v_tr (view w) c (ObjectHandle sh) = Some (Session ty pd) \<Longrightarrow> ty \<noteq> SessionHmac \<Longrightarrow>
       runs_ok (policy_command_code X c (PolicySession sh) cc) w
         (\<lambda>_ w'. view w' = put_tr c (ObjectHandle sh) (Some (Session ty (extend_policy pd cc))) (view w))"
    and extend_policy_length: "length (extend_policy pd cc) = 32"
    and policy_get_digest:
      "v_tr (view w) c (ObjectHandle sh) = Some (Session ty pd) \<Longrightarrow> ty \<noteq> SessionHmac \<Longrightarrow>
       runs_ok (policy_get_digest X c (PolicySession sh)) w (\<lambda>r w'. r = pd \<and> view w' = view w)"
    and flush_context:
      "v_open (view w) c \<Longrightarrow> v_tr (view w) c oh = Some e \<Longrightarrow> \<not> is_persistent e \<Longrightarrow>
       runs_ok (flush_context X c oh) w (\<lambda>_ w'. view w' = put_tr c oh None (view w))"
    and flush_persistent:
      "v_open (view w) c \<Longrightarrow> v_tr (view w) c oh = Some (PersistentKey ph k) \<Longrightarrow>
       runs_err (flush_context X c oh) w (\<lambda>_ w'. view w' = view w)"
    and create_primary:
      "v_open (view w) c \<Longrightarrow> user_auth (view w) c \<Longrightarrow> storage_template t \<Longrightarrow>
       runs_ok (create_primary X c Owner t) w
         (\<lambda>h w'. v_tr (view w) c (object_of_key h) = None \<and>
            view w' = put_tr c (object_of_key h)
              (Some (TransientKey (v_primary (view w) t))) (view w))"
    and primary_public:
      "storage_template t \<Longrightarrow>
         pub_attributes (kpub (v_primary (view w) t)) = pub_attributes t \<and>
         pub_auth_policy (kpub (v_primary (view w) t)) = pub_auth_policy t"
    and read_public:
      "v_open (view w) c \<Longrightarrow> key_at (view w) c kh = Some k \<Longrightarrow>
       runs_ok (read_public X c kh) w
         (\<lambda>(p, n, q) w'. p = kpub k \<and> n = name_of (kpub k) \<and> view w' = view w)"
    and create:
      "v_open (view w) c \<Longrightarrow> user_auth (view w) c \<Longrightarrow> key_at (view w) c kh = Some k \<Longrightarrow>
       sealing_template (oa_fixed_tpm (pub_attributes (kpub k))) t \<Longrightarrow> length d \<le> 128 \<Longrightarrow>
       runs_ok (create X c kh t (Some (SensitiveData d))) w
         (\<lambda>(priv, p) w'. sealed_under k p priv d \<and> (\<exists>b. public_marshall X p = Ok b) \<and>
            private_try_from X (private_value priv) = Ok priv \<and> view w' = view w)"
    and load_sealed:
      "v_open (view w) c \<Longrightarrow> user_auth (view w) c \<Longrightarrow> key_at (view w) c kh = Some k \<Longrightarrow>
       sealed_under k p priv d \<Longrightarrow>
       runs_ok (load X c kh priv p) w
         (\<lambda>h' w'. v_tr (view w) c (object_of_key h') = None \<and>
            view w' = put_tr c (object_of_key h') (Some (SealedObject d)) (view w))"
    and load_imported:
      "v_open (view w) c \<Longrightarrow> user_auth (view w) c \<Longrightarrow> key_at (view w) c kh = Some kt \<Longrightarrow>
       imported_under kt k priv \<Longrightarrow>
       runs_ok (load X c kh priv (kpub k)) w
         (\<lambda>h' w'. v_tr (view w) c (object_of_key h') = None \<and>
            view w' = put_tr c (object_of_key h') (Some (TransientKey k)) (view w))"
    and unseal_object:
      "v_open (view w) c \<Longrightarrow> user_auth (view w) c \<Longrightarrow> v_tr (view w) c oh = Some (SealedObject d) \<Longrightarrow>
       runs_ok (unseal_object X c oh) w (\<lambda>r w'. r = SensitiveData d \<and> view w' = view w)"
    and load_external_public:
      "v_open (view w) c \<Longrightarrow> runs_ok (load_external_public X c (kpub k) Owner) w
         (\<lambda>h w'. v_tr (view w) c (object_of_key h) = None \<and>
            view w' = put_tr c (object_of_key h) (Some (ExternalKey (kpub k))) (view w))"
    and duplicate_object:
      "v_open (view w) c \<Longrightarrow> key_at (view w) c kh = Some k \<Longrightarrow>
       v_tr (view w) c (object_of_key parent) = Some (ExternalKey (kpub kt)) \<Longrightarrow>
       \<not> oa_fixed_tpm (pub_attributes (kpub k)) \<Longrightarrow> \<not> oa_fixed_parent (pub_attributes (kpub k)) \<Longrightarrow>
       policy_auth (view w) c (pub_auth_policy (kpub k)) \<Longrightarrow>
       runs_ok (duplicate_object X c (object_of_key kh) (object_of_key parent) None AES_128_CFB) w
         (\<lambda>(d, priv, sec) w'. wrapped_for (kpub kt) k d priv sec \<and>
            data_try_from X (data_value d) = Ok d \<and>
            private_try_from X (private_value priv) = Ok priv \<and>
            encrypted_secret_try_from X (secret_value sec) = Ok sec \<and> view w' = view w)"
    and duplicate_needs_policy:
      "v_open (view w) c \<Longrightarrow> \<not> policy_auth (view w) c (pub_auth_policy (kpub k)) \<Longrightarrow>
       key_at (view w) c kh = Some k \<Longrightarrow>
       runs_err (duplicate_object X c (object_of_key kh) oh None AES_128_CFB) w
         (\<lambda>_ w'. view w' = view w)"
    and import_object:
      "v_open (view w) c \<Longrightarrow> user_auth (view w) c \<Longrightarrow> key_at (view w) c kh = Some kt \<Longrightarrow>
       wrapped_for (kpub kt) k ek priv sec \<Longrightarrow>
       runs_ok (import_object X c (object_of_key kh) (Some ek) (kpub k) priv sec AES_128_CFB) w
         (\<lambda>priv' w'. imported_under kt k priv' \<and> view w' = view w)"
    and evict_persist:
      "v_open (view w) c \<Longrightarrow> user_auth (view w) c \<Longrightarrow>
       v_tr (view w) c oh = Some (TransientKey k) \<Longrightarrow> v_nv (view w) ph = None \<Longrightarrow>
       runs_ok (evict_control X c ProvisionOwner oh ph) w
         (\<lambda>h' w'. v_tr (view w) c h' = None \<and>
            view w' = put_nv ph (Some k) (put_tr c h' (Some (PersistentKey ph k)) (view w)))"
    and evict_occupied:
      "v_open (view w) c \<Longrightarrow> v_tr (view w) c oh = Some (TransientKey k) \<Longrightarrow>
       v_nv (view w) ph = Some k' \<Longrightarrow>
       runs_err (evict_control X c ProvisionOwner oh ph) w (\<lambda>_ w'. view w' = view w)"
    and evict_delete:
      "v_open (view w) c \<Longrightarrow> user_auth (view w) c \<Longrightarrow>
       v_tr (view w) c oh = Some (PersistentKey ph k) \<Longrightarrow> v_nv (view w) ph = Some k \<Longrightarrow>
       runs_ok (evict_control X c ProvisionOwner oh ph) w
         (\<lambda>_ w'. view w' = put_nv ph None (put_tr c oh None (view w)))"
    and tr_from_tpm_public:
      "v_open (view w) c \<Longrightarrow> v_nv (view w) ph = Some k \<Longrightarrow>
       runs_ok (tr_from_tpm_public X c ph) w
         (\<lambda>h w'. v_tr (view w) c h = None \<and>
            view w' = put_tr c h (Some (PersistentKey ph k)) (view w))"
    and tr_from_tpm_public_absent:
      "v_open (view w) c \<Longrightarrow> v_nv (view w) ph = None \<Longrightarrow>
       runs_err (tr_from_tpm_public X c ph) w (\<lambda>_ w'. view w' = view w)"

section \<open>Calculating with views\<close>

named_theorems view_simps \<open>components of an updated view\<close>

lemma put_tr_view [view_simps]:
  "v_open (put_tr c h e v) = v_open v" "v_cur (put_tr c h e v) = v_cur v"
  "v_nv (put_tr c h e v) = v_nv v" "v_primary (put_tr c h e v) = v_primary v"
  "v_tr (put_tr c h e v) = (v_tr v)(c := (v_tr v c)(h := e))"
  by (simp_all add: put_tr_def)

lemma put_cur_view [view_simps]:
  "v_open (put_cur c s v) = v_open v" "v_cur (put_cur c s v) = (v_cur v)(c := s)"
  "v_nv (put_cur c s v) = v_nv v" "v_primary (put_cur c s v) = v_primary v"
  "v_tr (put_cur c s v) = v_tr v"
  by (simp_all add: put_cur_def)

lemma put_nv_view [view_simps]:
  "v_open (put_nv p k v) = v_open v" "v_cur (put_nv p k v) = v_cur v"
  "v_nv (put_nv p k v) = (v_nv v)(p := k)" "v_primary (put_nv p k v) = v_primary v"
  "v_tr (put_nv p k v) = v_tr v"
  by (simp_all add: put_nv_def)

lemma open_context_view [view_simps]:
  "v_open (open_context c v) = (v_open v)(c := True)"
  "v_cur (open_context c v) = (v_cur v)(c := None)"
  "v_nv (open_context c v) = v_nv v" "v_primary (open_context c v) = v_primary v"
  "v_tr (open_context c v) = (v_tr v)(c := (\<lambda>_. None))"
  by (simp_all add: open_context_def)

lemmas session_view_defs = open_session_def close_session_def

text \<open>What remains of a session that was opened and closed around an update.\<close>

lemma view_eqI:
  assumes "v_open a = v_open b" "v_tr a = v_tr b" "v_cur a = v_cur b" "v_nv a = v_nv b"
    "v_primary a = v_primary b"
  shows "a = (b :: 'k tpm_view)"
  using assms by simp

lemma put_tr_same [simp]: "v_tr v c h = e \<Longrightarrow> put_tr c h e v = v"
  by (rule view_eqI) (auto simp: view_simps)

lemma put_tr_put_tr [simp]: "put_tr c h e (put_tr c h e' v) = put_tr c h e v"
  by (rule view_eqI) (simp_all add: view_simps)

lemma put_cur_put_cur [simp]: "put_cur c s (put_cur c s' v) = put_cur c s v"
  by (rule view_eqI) (simp_all add: view_simps)

lemma put_cur_same [simp]: "v_cur v c = s \<Longrightarrow> put_cur c s v = v"
  by (rule view_eqI) (auto simp: view_simps)

lemma put_cur_put_tr: "put_cur c s (put_tr c' h e v) = put_tr c' h e (put_cur c s v)"
  by (rule view_eqI) (simp_all add: view_simps)

lemma put_cur_put_nv: "put_cur c s (put_nv p k v) = put_nv p k (put_cur c s v)"
  by (rule view_eqI) (simp_all add: view_simps)

lemma put_tr_put_nv: "put_tr c h e (put_nv p k v) = put_nv p k (put_tr c h e v)"
  by (rule view_eqI) (simp_all add: view_simps)

lemma put_tr_commute: "h \<noteq> h' \<Longrightarrow> put_tr c h e (put_tr c h' e' v) = put_tr c h' e' (put_tr c h e v)"
  by (rule view_eqI) (auto simp: view_simps fun_upd_twist)

lemma put_nv_put_nv [simp]: "put_nv p k (put_nv p k' v) = put_nv p k v"
  by (rule view_eqI) (simp_all add: view_simps)

lemma put_nv_same [simp]: "v_nv v p = k \<Longrightarrow> put_nv p k v = v"
  by (rule view_eqI) (auto simp: view_simps)

lemma close_open_session:
  assumes "idle v c" and "v_tr v c (object_of_session s) = None"
  shows "close_session c s (open_session c s v) = v"
  using assms by (simp add: session_view_defs put_cur_put_tr idle_def)

lemma close_put_tr_open:
  assumes "idle v c" and "v_tr v c (object_of_session s) = None" and "h \<noteq> object_of_session s"
  shows "close_session c s (put_tr c h e (open_session c s v)) = put_tr c h e v"
  using assms
  by (simp add: session_view_defs put_cur_put_tr idle_def put_tr_commute [of h] view_simps)

lemma close_put_nv: "close_session c s (put_nv p k v) = put_nv p k (close_session c s v)"
  by (simp add: session_view_defs put_cur_put_nv put_tr_put_nv)

lemma open_session_view:
  assumes "v_tr v c (object_of_session s) = None"
  shows "v_open (open_session c s v) = v_open v"
    and "user_auth (open_session c s v) c"
    and "v_nv (open_session c s v) = v_nv v"
    and "v_primary (open_session c s v) = v_primary v"
    and "v_cur (open_session c s v) c = Some s"
    and "v_tr (open_session c s v) c (object_of_session s) = Some (Session SessionHmac [])"
    and "v_tr (open_session c s v) c h = (if h = object_of_session s
           then Some (Session SessionHmac []) else v_tr v c h)"
    and "key_at (open_session c s v) c kh = key_at v c kh"
  using assms
  by (auto simp: session_view_defs view_simps user_auth_def key_at_def split: option.splits)

subsection \<open>Reading keys through updates\<close>

lemma key_at_put_tr:
  "key_at (put_tr c h e v) c kh =
     (if object_of_key kh = h then Option.bind e (entity_key (v_nv v)) else key_at v c kh)"
  by (simp add: key_at_def view_simps)

lemma idle_put_tr [simp]: "idle (put_tr c' h e v) c = idle v c"
  by (simp add: idle_def view_simps)

lemma idle_put_nv [simp]: "idle (put_nv p k v) c = idle v c"
  by (simp add: idle_def view_simps)

lemma idle_open: "idle v c \<Longrightarrow> v_open v c"
  by (simp add: idle_def)

section \<open>Closures under a null-auth session\<close>

context tpm_device
begin

lemma nullauth_exec:
  assumes "idle (view w) c"
  obtains s w1 where "v_tr (view w) c (object_of_session s) = None"
    and "view w1 = open_session c s (view w)"
    and "\<And>r w2. f w1 = (r, w2) \<Longrightarrow> \<not> is_panic r \<Longrightarrow> v_open (view w2) c \<Longrightarrow>
       v_cur (view w2) c = Some s \<Longrightarrow>
       v_tr (view w2) c (object_of_session s) = Some (Session SessionHmac []) \<Longrightarrow>
       \<exists>w3. execute_with_nullauth_session X conv c f w = (r, w3) \<and>
         view w3 = close_session c s (view w2)"
proof -
  obtain s w1 where b: "nullauth_begin X c w = (Ok s, w1)"
    and fresh: "v_tr (view w) c (object_of_session s) = None"
    and v1: "view w1 = open_session c s (view w)"
    using nullauth_begin [OF assms] by (auto simp: runs_ok_iff open_session_def)
  have "\<exists>w3. execute_with_nullauth_session X conv c f w = (r, w3) \<and>
         view w3 = close_session c s (view w2)"
    if f: "f w1 = (r, w2)" "\<not> is_panic r"
      and o: "v_open (view w2) c" "v_cur (view w2) c = Some s"
        "v_tr (view w2) c (object_of_session s) = Some (Session SessionHmac [])" for r w2
    using nullauth_end [OF o] b f
    by (auto simp: runs_ok_iff close_session_def execute_with_nullauth_session_run)
  with fresh v1 show thesis by (rule that)
qed

lemma nullauth_ok:
  assumes idle: "idle (view w) c"
    and body: "\<And>s w1. v_tr (view w) c (object_of_session s) = None \<Longrightarrow>
       view w1 = open_session c s (view w) \<Longrightarrow>
       runs_ok f w1 (\<lambda>x w2. v_open (view w2) c \<and> v_cur (view w2) c = Some s \<and>
         v_tr (view w2) c (object_of_session s) = Some (Session SessionHmac []) \<and>
         (\<forall>w3. view w3 = close_session c s (view w2) \<longrightarrow> Q x w3))"
  shows "runs_ok (execute_with_nullauth_session X conv c f) w Q"
proof (rule nullauth_exec [OF idle, where f = f and conv = conv])
  fix s w1
  assume fresh: "v_tr (view w) c (object_of_session s) = None"
    and v1: "view w1 = open_session c s (view w)"
    and run: "\<And>r w2. f w1 = (r, w2) \<Longrightarrow> \<not> is_panic r \<Longrightarrow> v_open (view w2) c \<Longrightarrow>
       v_cur (view w2) c = Some s \<Longrightarrow>
       v_tr (view w2) c (object_of_session s) = Some (Session SessionHmac []) \<Longrightarrow>
       \<exists>w3. execute_with_nullauth_session X conv c f w = (r, w3) \<and>
         view w3 = close_session c s (view w2)"
  show ?thesis
    using body [OF fresh v1] run [of "Ok _"] by (fastforce simp: runs_ok_iff)
qed

lemma nullauth_err:
  assumes idle: "idle (view w) c"
    and body: "\<And>s w1. v_tr (view w) c (object_of_session s) = None \<Longrightarrow>
       view w1 = open_session c s (view w) \<Longrightarrow>
       runs_err f w1 (\<lambda>x w2. v_open (view w2) c \<and> v_cur (view w2) c = Some s \<and>
         v_tr (view w2) c (object_of_session s) = Some (Session SessionHmac []) \<and>
         (\<forall>w3. view w3 = close_session c s (view w2) \<longrightarrow> Q x w3))"
  shows "runs_err (execute_with_nullauth_session X conv c f) w Q"
proof (rule nullauth_exec [OF idle, where f = f and conv = conv])
  fix s w1
  assume fresh: "v_tr (view w) c (object_of_session s) = None"
    and v1: "view w1 = open_session c s (view w)"
    and run: "\<And>r w2. f w1 = (r, w2) \<Longrightarrow> \<not> is_panic r \<Longrightarrow> v_open (view w2) c \<Longrightarrow>
       v_cur (view w2) c = Some s \<Longrightarrow>
       v_tr (view w2) c (object_of_session s) = Some (Session SessionHmac []) \<Longrightarrow>
       \<exists>w3. execute_with_nullauth_session X conv c f w = (r, w3) \<and>
         view w3 = close_session c s (view w2)"
  show ?thesis
    using body [OF fresh v1] run [of "Err _"] by (fastforce simp: runs_err_iff)
qed

text \<open>A closure that makes one command: it keeps the view, or enters one resource.\<close>

lemma nullauth_frame:
  assumes "idle (view w) c"
    and "\<And>w1. v_open (view w1) c \<Longrightarrow> user_auth (view w1) c \<Longrightarrow> v_nv (view w1) = v_nv (view w) \<Longrightarrow>
       (\<And>kh. key_at (view w1) c kh = key_at (view w) c kh) \<Longrightarrow>
       runs_ok f w1 (\<lambda>x w2. view w2 = view w1 \<and> Q x)"
  shows "runs_ok (execute_with_nullauth_session X conv c f) w (\<lambda>x w'. view w' = view w \<and> Q x)"
proof (rule nullauth_ok [OF assms(1)])
  fix s w1
  assume fresh: "v_tr (view w) c (object_of_session s) = None"
    and v1: "view w1 = open_session c s (view w)"
  note o = open_session_view [OF fresh]
  have "runs_ok f w1 (\<lambda>x w2. view w2 = view w1 \<and> Q x)"
    using assms(1) by (intro assms(2)) (simp_all add: v1 o idle_def)
  then show "runs_ok f w1 (\<lambda>x w2. v_open (view w2) c \<and> v_cur (view w2) c = Some s \<and>
      v_tr (view w2) c (object_of_session s) = Some (Session SessionHmac []) \<and>
      (\<forall>w3. view w3 = close_session c s (view w2) \<longrightarrow> view w3 = view w \<and> Q x))"
    by (rule runs_ok_mono) (use assms(1) in \<open>auto simp: v1 o idle_def close_open_session fresh\<close>)
qed

lemma nullauth_enter:
  assumes idle: "idle (view w) c"
    and body: "\<And>w1. v_open (view w1) c \<Longrightarrow> user_auth (view w1) c \<Longrightarrow> v_nv (view w1) = v_nv (view w) \<Longrightarrow>
       v_primary (view w1) = v_primary (view w) \<Longrightarrow>
       (\<And>kh. key_at (view w1) c kh = key_at (view w) c kh) \<Longrightarrow>
       runs_ok f w1 (\<lambda>x w2. v_tr (view w1) c (g x) = None \<and>
         view w2 = put_tr c (g x) (Some e) (view w1) \<and> Q x)"
  shows "runs_ok (execute_with_nullauth_session X conv c f) w
    (\<lambda>x w'. v_tr (view w) c (g x) = None \<and> view w' = put_tr c (g x) (Some e) (view w) \<and> Q x)"
proof (rule nullauth_ok [OF idle])
  fix s w1
  assume fresh: "v_tr (view w) c (object_of_session s) = None"
    and v1: "view w1 = open_session c s (view w)"
  note o = open_session_view [OF fresh]
  have "runs_ok f w1 (\<lambda>x w2. v_tr (view w1) c (g x) = None \<and>
      view w2 = put_tr c (g x) (Some e) (view w1) \<and> Q x)"
    using idle by (intro body) (simp_all add: v1 o idle_def)
  then show "runs_ok f w1 (\<lambda>x w2. v_open (view w2) c \<and> v_cur (view w2) c = Some s \<and>
      v_tr (view w2) c (object_of_session s) = Some (Session SessionHmac []) \<and>
      (\<forall>w3. view w3 = close_session c s (view w2) \<longrightarrow>
        v_tr (view w) c (g x) = None \<and> view w3 = put_tr c (g x) (Some e) (view w) \<and> Q x))"
    by (rule runs_ok_mono)
      (use idle fresh in \<open>auto simp: v1 o view_simps idle_def close_put_tr_open split: if_splits\<close>)
qed

end

end
