(* ===== verification/Fleet_Spec.thy ===== *)
theory Fleet_Spec
  imports Tpm_Contract
begin

text \<open>
  What the functions of \<open>fleet.rs\<close> do to a TPM that keeps the contract: the
  effect of each on the view, on success and on the failures the source
  anticipates. The end of a run is stated as the exact view where the function
  must leave nothing behind.
\<close>

section \<open>The template of the fleet key and of the transport keys\<close>


definition fleet_template :: "digest \<Rightarrow> public" where
  "fleet_template d =
     \<lparr>pub_algorithm = Rsa, pub_name_hashing = Sha256,
      pub_attributes = object_attributes_new\<lparr>oa_sensitive_data_origin := True,
        oa_user_with_auth := True, oa_decrypt := True, oa_restricted := True\<rparr>,
      pub_auth_policy = d, pub_parameters = RsaParameters AES_128_CFB Rsa2048 0, pub_unique = []\<rparr>"

lemma storage_template_fleet [simp]: "length d \<le> 64 \<Longrightarrow> storage_template (fleet_template d)"
  by (simp add: storage_template_def fleet_template_def object_attributes_new_def)

section \<open>The functions of the module\<close>

context tpm_device
begin

lemma storage_template_duplicable [simp]:
  "storage_template (fleet_template (extend_policy d cc))"
  by (simp add: extend_policy_length)

lemma fleet_handle:
  "persistent_tpm_handle_new X FLEET_KEY_PERSISTENT_HANDLE = Ok FLEET_KEY_PERSISTENT_HANDLE"
  by (rule persistent_handle) (simp_all add: FLEET_KEY_PERSISTENT_HANDLE_def)

lemma load_fleet_key_present:
  assumes "idle (view w) c" and "v_nv (view w) FLEET_KEY_PERSISTENT_HANDLE = Some k"
  shows "runs_ok (load_fleet_key X c) w
    (\<lambda>h w'. v_tr (view w) c (object_of_key h) = None \<and> view w' =
       put_tr c (object_of_key h) (Some (PersistentKey FLEET_KEY_PERSISTENT_HANDLE k)) (view w))"
proof -
  have "runs_ok (execute_with_nullauth_session X id c
      (tr_from_tpm_public X c FLEET_KEY_PERSISTENT_HANDLE)) w
    (\<lambda>oh w'. v_tr (view w) c (id oh) = None \<and> view w' =
       put_tr c (id oh) (Some (PersistentKey FLEET_KEY_PERSISTENT_HANDLE k)) (view w) \<and> True)"
    by (rule nullauth_enter [OF assms(1)]) (use tr_from_tpm_public assms(2) in simp)
  then show ?thesis
    by (simp add: load_fleet_key_def fleet_handle wp key_handle_from_def)
qed

lemma load_fleet_key_absent:
  assumes "idle (view w) c" and "v_nv (view w) FLEET_KEY_PERSISTENT_HANDLE = None"
  shows "runs_err (load_fleet_key X c) w (\<lambda>_ w'. view w' = view w)"
proof -
  have "runs_err (execute_with_nullauth_session X id c
      (tr_from_tpm_public X c FLEET_KEY_PERSISTENT_HANDLE)) w (\<lambda>_ w'. view w' = view w)"
  proof (rule nullauth_err [OF assms(1)])
    fix s w1
    assume fresh: "v_tr (view w) c (object_of_session s) = None"
      and v1: "view w1 = open_session c s (view w)"
    note o = open_session_view [OF fresh]
    have "runs_err (tr_from_tpm_public X c FLEET_KEY_PERSISTENT_HANDLE) w1 (\<lambda>_ w'. view w' = view w1)"
      using assms by (intro tr_from_tpm_public_absent) (simp_all add: v1 o idle_open)
    then show "runs_err (tr_from_tpm_public X c FLEET_KEY_PERSISTENT_HANDLE) w1
       (\<lambda>x w2. v_open (view w2) c \<and> v_cur (view w2) c = Some s \<and>
         v_tr (view w2) c (object_of_session s) = Some (Session SessionHmac []) \<and>
         (\<forall>w3. view w3 = close_session c s (view w2) \<longrightarrow> view w3 = view w))"
      by (rule runs_err_mono) (use assms fresh in \<open>simp add: v1 o idle_open close_open_session\<close>)
  qed
  then show ?thesis
    by (simp add: load_fleet_key_def fleet_handle runs_err_bindR_fst runs_err_map_err)
qed

lemma evict_delete_nullauth:
  assumes "idle (view w) c" and "v_tr (view w) c oh = Some (PersistentKey ph k)"
    and "v_nv (view w) ph = Some k"
  shows "runs_ok (execute_with_nullauth_session X id c (evict_control X c ProvisionOwner oh ph)) w
    (\<lambda>_ w'. view w' = put_nv ph None (put_tr c oh None (view w)))"
proof (rule nullauth_ok [OF assms(1)])
  fix s w1
  assume fresh: "v_tr (view w) c (object_of_session s) = None"
    and v1: "view w1 = open_session c s (view w)"
  note o = open_session_view [OF fresh]
  have ne: "oh \<noteq> object_of_session s"
    using fresh assms(2) by auto
  have "runs_ok (evict_control X c ProvisionOwner oh ph) w1
     (\<lambda>_ w'. view w' = put_nv ph None (put_tr c oh None (view w1)))"
    using assms ne by (intro evict_delete [where k = k]) (simp_all add: v1 o idle_open)
  then show "runs_ok (evict_control X c ProvisionOwner oh ph) w1
     (\<lambda>x w2. v_open (view w2) c \<and> v_cur (view w2) c = Some s \<and>
       v_tr (view w2) c (object_of_session s) = Some (Session SessionHmac []) \<and>
       (\<forall>w3. view w3 = close_session c s (view w2) \<longrightarrow>
         view w3 = put_nv ph None (put_tr c oh None (view w))))"
    by (rule runs_ok_mono) (use assms fresh ne in
      \<open>auto simp: v1 o view_simps close_put_nv close_put_tr_open idle_open\<close>)
qed

lemma delete_persisted_fleet_key_ok:
  assumes "idle (view w) c"
  shows "runs_ok (delete_persisted_fleet_key X c) w
    (\<lambda>_ w'. view w' = put_nv FLEET_KEY_PERSISTENT_HANDLE None (view w))"
proof (cases "v_nv (view w) FLEET_KEY_PERSISTENT_HANDLE")
  case None
  have "runs_err (load_fleet_key X c) w (\<lambda>_ w'. view w' = view w)"
    by (rule load_fleet_key_absent [OF assms None])
  then show ?thesis
    unfolding delete_persisted_fleet_key_def runs_ok_bindR
    by (intro runs_ok_attempt_err) (auto elim!: runs_err_mono simp: None)
next
  case (Some k)
  have "runs_ok (load_fleet_key X c) w (\<lambda>h. \<lambda>w'. runs_ok (execute_with_nullauth_session X id c
      (evict_control X c ProvisionOwner (object_of_key h) FLEET_KEY_PERSISTENT_HANDLE)) w'
      (\<lambda>_ w'. view w' = put_nv FLEET_KEY_PERSISTENT_HANDLE None (view w)))"
  proof (rule runs_ok_mono [OF load_fleet_key_present [OF assms Some]])
    fix h w'
    assume "v_tr (view w) c (object_of_key h) = None \<and> view w' = put_tr c (object_of_key h)
      (Some (PersistentKey FLEET_KEY_PERSISTENT_HANDLE k)) (view w)"
    then show "runs_ok (execute_with_nullauth_session X id c
      (evict_control X c ProvisionOwner (object_of_key h) FLEET_KEY_PERSISTENT_HANDLE)) w'
      (\<lambda>_ w'. view w' = put_nv FLEET_KEY_PERSISTENT_HANDLE None (view w))"
      using assms Some evict_delete_nullauth [of w' c "object_of_key h" FLEET_KEY_PERSISTENT_HANDLE k]
      by (simp add: view_simps)
  qed
  then show ?thesis
    by (auto simp: delete_persisted_fleet_key_def wp fleet_handle intro!: runs_ok_attempt)
qed

lemma persist_ok:
  assumes "idle (view w) c" and "v_tr (view w) c (object_of_key h) = Some (TransientKey k)"
    and "v_nv (view w) FLEET_KEY_PERSISTENT_HANDLE = None"
  shows "runs_ok (persist X c h) w
    (\<lambda>h' w'. v_tr (view w) c (object_of_key h') = None \<and> view w' =
       put_nv FLEET_KEY_PERSISTENT_HANDLE (Some k) (put_tr c (object_of_key h')
         (Some (PersistentKey FLEET_KEY_PERSISTENT_HANDLE k)) (view w)))"
proof -
  let ?H = FLEET_KEY_PERSISTENT_HANDLE
  have "runs_ok (execute_with_nullauth_session X id c
      (evict_control X c ProvisionOwner (object_of_key h) ?H)) w
    (\<lambda>oh w'. v_tr (view w) c oh = None \<and> view w' =
       put_nv ?H (Some k) (put_tr c oh (Some (PersistentKey ?H k)) (view w)))"
  proof (rule nullauth_ok [OF assms(1)])
    fix s w1
    assume fresh: "v_tr (view w) c (object_of_session s) = None"
      and v1: "view w1 = open_session c s (view w)"
    note o = open_session_view [OF fresh]
    have ne: "object_of_key h \<noteq> object_of_session s"
      using fresh assms(2) by auto
    have "runs_ok (evict_control X c ProvisionOwner (object_of_key h) ?H) w1
       (\<lambda>h' w'. v_tr (view w1) c h' = None \<and> view w' =
          put_nv ?H (Some k) (put_tr c h' (Some (PersistentKey ?H k)) (view w1)))"
      using assms ne by (intro evict_persist) (simp_all add: v1 o idle_open)
    then show "runs_ok (evict_control X c ProvisionOwner (object_of_key h) ?H) w1
       (\<lambda>x w2. v_open (view w2) c \<and> v_cur (view w2) c = Some s \<and>
         v_tr (view w2) c (object_of_session s) = Some (Session SessionHmac []) \<and>
         (\<forall>w3. view w3 = close_session c s (view w2) \<longrightarrow> v_tr (view w) c x = None \<and>
           view w3 = put_nv ?H (Some k) (put_tr c x (Some (PersistentKey ?H k)) (view w))))"
      by (rule runs_ok_mono) (use assms fresh in
        \<open>auto simp: v1 o view_simps close_put_nv close_put_tr_open idle_open split: if_splits\<close>)
  qed
  then show ?thesis
    by (simp add: persist_def fleet_handle wp key_handle_from_def)
qed

lemma persist_occupied:
  assumes "idle (view w) c" and "v_tr (view w) c (object_of_key h) = Some (TransientKey k)"
    and "v_nv (view w) FLEET_KEY_PERSISTENT_HANDLE = Some k'"
  shows "runs_err (persist X c h) w (\<lambda>_ w'. view w' = view w)"
proof -
  let ?H = FLEET_KEY_PERSISTENT_HANDLE
  have "runs_err (execute_with_nullauth_session X id c
      (evict_control X c ProvisionOwner (object_of_key h) ?H)) w (\<lambda>_ w'. view w' = view w)"
  proof (rule nullauth_err [OF assms(1)])
    fix s w1
    assume fresh: "v_tr (view w) c (object_of_session s) = None"
      and v1: "view w1 = open_session c s (view w)"
    note o = open_session_view [OF fresh]
    have "runs_err (evict_control X c ProvisionOwner (object_of_key h) ?H) w1
       (\<lambda>_ w'. view w' = view w1)"
      using assms fresh by (intro evict_occupied) (auto simp: v1 o idle_open)
    then show "runs_err (evict_control X c ProvisionOwner (object_of_key h) ?H) w1
       (\<lambda>x w2. v_open (view w2) c \<and> v_cur (view w2) c = Some s \<and>
         v_tr (view w2) c (object_of_session s) = Some (Session SessionHmac []) \<and>
         (\<forall>w3. view w3 = close_session c s (view w2) \<longrightarrow> view w3 = view w))"
      by (rule runs_err_mono) (use assms fresh in \<open>simp add: v1 o idle_open close_open_session\<close>)
  qed
  then show ?thesis
    by (simp add: persist_def fleet_handle runs_err_bindR_fst runs_err_map_err)
qed

lemma start_session_ok:
  assumes "v_open (view w) c"
  shows "runs_ok (start_session X c ty) w
    (\<lambda>s w'. v_tr (view w) c (object_of_session s) = None \<and>
       view w' = put_tr c (object_of_session s) (Some (Session ty [])) (view w))"
proof -
  obtain s w1 where s: "start_auth_session X c ty AES_128_CFB Sha256 w = (Ok (Some s), w1)"
    "v_tr (view w) c (object_of_session s) = None"
    "view w1 = put_tr c (object_of_session s) (Some (Session ty [])) (view w)"
    using start_auth_session [OF assms, of ty] by (auto simp: runs_ok_iff)
  have "v_tr (view w1) c (object_of_session s) = Some (Session ty [])"
    by (simp add: s view_simps)
  from tr_sess_set_attributes [OF this, of start_session_attributes start_session_attributes]
  show ?thesis
    using s by (auto simp: start_session_def exec_simps)
qed

text \<open>A policy session extended by the command code it is meant for.\<close>

lemma policy_session_ok:
  assumes "v_open (view w) c" and "ty \<noteq> SessionHmac"
  obtains n w1 w2 where "start_session X c ty w = (Ok (AuthSession n), w1)"
    and "policy_session_try_from X (AuthSession n) = Ok (PolicySession n)"
    and "policy_command_code X c (PolicySession n) cc w1 = (Ok (), w2)"
    and "v_tr (view w) c (ObjectHandle n) = None"
    and "view w2 = put_tr c (ObjectHandle n) (Some (Session ty (extend_policy [] cc))) (view w)"
proof -
  obtain s w1 where s: "start_session X c ty w = (Ok s, w1)"
    "v_tr (view w) c (object_of_session s) = None"
    "view w1 = put_tr c (object_of_session s) (Some (Session ty [])) (view w)"
    using start_session_ok [OF assms(1), of ty] by (auto simp: runs_ok_iff)
  obtain n where n: "s = AuthSession n" by (cases s)
  have tr: "v_tr (view w1) c (ObjectHandle n) = Some (Session ty [])"
    by (simp add: s n view_simps)
  obtain w2 where "policy_command_code X c (PolicySession n) cc w1 = (Ok (), w2)"
    "view w2 = put_tr c (ObjectHandle n) (Some (Session ty (extend_policy [] cc))) (view w1)"
    using policy_command_code [OF tr assms(2)] by (auto simp: runs_ok_iff)
  with policy_session [OF tr assms(2)] s show thesis
    by (intro that) (simp_all add: n)
qed

lemma duplication_auth_policy_digest_ok:
  assumes "v_open (view w) c"
  shows "runs_ok (duplication_auth_policy_digest X c) w
    (\<lambda>d w'. d = extend_policy [] CommandDuplicate \<and> view w' = view w)"
proof -
  let ?d = "extend_policy [] CommandDuplicate"
  obtain n w1 w2 where s: "start_session X c SessionTrial w = (Ok (AuthSession n), w1)"
    "policy_session_try_from X (AuthSession n) = Ok (PolicySession n)"
    "policy_command_code X c (PolicySession n) CommandDuplicate w1 = (Ok (), w2)"
    "v_tr (view w) c (ObjectHandle n) = None"
    "view w2 = put_tr c (ObjectHandle n) (Some (Session SessionTrial ?d)) (view w)"
    by (rule policy_session_ok [OF assms, where ty = SessionTrial and cc = CommandDuplicate]) simp_all
  have "v_tr (view w2) c (ObjectHandle n) = Some (Session SessionTrial ?d)"
    by (simp add: s view_simps)
  then obtain w3 where g: "policy_get_digest X c (PolicySession n) w2 = (Ok ?d, w3)"
    "view w3 = view w2"
    using policy_get_digest by (fastforce simp: runs_ok_iff)
  have "runs_ok (flush_context X c (ObjectHandle n)) w3
      (\<lambda>_ w4. view w4 = put_tr c (ObjectHandle n) None (view w3))"
    using assms by (intro flush_context [where e = "Session SessionTrial ?d"]) (simp_all add: g s view_simps)
  with s g show ?thesis
    by (auto simp: duplication_auth_policy_digest_def exec_simps)
qed

lemma duplication_auth_policy_session_ok:
  assumes "v_open (view w) c"
  shows "runs_ok (duplication_auth_policy_session X c) w
    (\<lambda>s w'. v_tr (view w) c (object_of_session s) = None \<and> view w' = put_tr c (object_of_session s)
       (Some (Session SessionPolicy (extend_policy [] CommandDuplicate))) (view w))"
  by (rule policy_session_ok [OF assms, where ty = SessionPolicy and cc = CommandDuplicate])
    (simp_all add: duplication_auth_policy_session_def exec_simps)

lemma duplicable_storage_public_ok:
  assumes "v_open (view w) c"
  shows "runs_ok (duplicable_storage_public X c) w
    (\<lambda>p w'. p = fleet_template (extend_policy [] CommandDuplicate) \<and> view w' = view w)"
  using duplication_auth_policy_digest_ok [OF assms]
  by (auto simp: duplicable_storage_public_def exec_simps attributes_build rsa_build
      public_build_rsa duplication_symmetric_alg_def fleet_template_def object_attributes_new_def)

lemma create_primary_nullauth:
  assumes "idle (view w) c" and "storage_template t"
  shows "runs_ok (execute_with_nullauth_session X id c (create_primary X c Owner t)) w
    (\<lambda>h w'. v_tr (view w) c (object_of_key h) = None \<and>
       view w' = put_tr c (object_of_key h) (Some (TransientKey (v_primary (view w) t))) (view w))"
proof -
  have "runs_ok (execute_with_nullauth_session X id c (create_primary X c Owner t)) w
    (\<lambda>h w'. v_tr (view w) c (object_of_key h) = None \<and>
       view w' = put_tr c (object_of_key h) (Some (TransientKey (v_primary (view w) t))) (view w) \<and> True)"
    by (rule nullauth_enter [OF assms(1)])
      (use create_primary [OF _ _ assms(2)] in \<open>fastforce elim: runs_ok_mono\<close>)
  then show ?thesis by simp
qed

lemma read_public_nullauth:
  assumes "idle (view w) c" and "key_at (view w) c h = Some k"
  shows "runs_ok (execute_with_nullauth_session X id c (read_public X c h)) w
    (\<lambda>(p, n, q) w'. p = kpub k \<and> n = name_of (kpub k) \<and> view w' = view w)"
proof -
  have "runs_ok (execute_with_nullauth_session X id c (read_public X c h)) w
    (\<lambda>r w'. view w' = view w \<and> (case r of (p, n, q) \<Rightarrow> p = kpub k \<and> n = name_of (kpub k)))"
    by (rule nullauth_frame [OF assms(1)])
      (rule runs_ok_mono [OF read_public [where k = k]], use assms(2) in auto)
  then show ?thesis by (rule runs_ok_mono) auto
qed

lemma create_new_fleet_key_ok:
  assumes "idle (view w) c" and "v_nv (view w) FLEET_KEY_PERSISTENT_HANDLE = None"
    and "k = v_primary (view w) (fleet_template (extend_policy [] CommandDuplicate))"
  shows "runs_ok (create_new_fleet_key X c) w
    (\<lambda>h w'. \<exists>t. t \<noteq> object_of_key h \<and> v_tr (view w) c t = None \<and>
       v_tr (view w) c (object_of_key h) = None \<and>
       view w' = put_nv FLEET_KEY_PERSISTENT_HANDLE (Some k) (put_tr c (object_of_key h)
         (Some (PersistentKey FLEET_KEY_PERSISTENT_HANDLE k))
         (put_tr c t (Some (TransientKey k)) (view w))))"
proof -
  let ?t = "fleet_template (extend_policy [] CommandDuplicate)"
  obtain w1 where p: "duplicable_storage_public X c w = (Ok ?t, w1)" "view w1 = view w"
    using duplicable_storage_public_ok [OF idle_open [OF assms(1)]] by (auto simp: runs_ok_iff)
  have "idle (view w1) c" using assms by (simp add: p)
  then obtain h w2 where
    h: "execute_with_nullauth_session X id c (create_primary X c Owner ?t) w1 = (Ok h, w2)"
    "v_tr (view w) c (object_of_key h) = None"
    "view w2 = put_tr c (object_of_key h) (Some (TransientKey k)) (view w)"
    using create_primary_nullauth [of w1 c ?t] assms(3) by (auto simp: runs_ok_iff p)
  have "runs_ok (persist X c h) w2
    (\<lambda>h' w'. v_tr (view w2) c (object_of_key h') = None \<and> view w' =
       put_nv FLEET_KEY_PERSISTENT_HANDLE (Some k) (put_tr c (object_of_key h')
         (Some (PersistentKey FLEET_KEY_PERSISTENT_HANDLE k)) (view w2)))"
    using assms by (intro persist_ok) (simp_all add: h view_simps)
  then obtain h' w3 where "persist X c h w2 = (Ok h', w3)"
    "object_of_key h' \<noteq> object_of_key h" "v_tr (view w) c (object_of_key h') = None"
    "view w3 = put_nv FLEET_KEY_PERSISTENT_HANDLE (Some k) (put_tr c (object_of_key h')
         (Some (PersistentKey FLEET_KEY_PERSISTENT_HANDLE k))
         (put_tr c (object_of_key h) (Some (TransientKey k)) (view w)))"
    by (auto simp: runs_ok_iff h view_simps split: if_splits)
  with p h show ?thesis
    by (auto simp: create_new_fleet_key_def exec_simps intro!: exI [of _ "object_of_key h"])
qed

lemma create_fleet_key_force_ok:
  assumes "idle (view w) c"
    and "k = v_primary (view w) (fleet_template (extend_policy [] CommandDuplicate))"
  shows "runs_ok (create_fleet_key X c True) w
    (\<lambda>h w'. key_at (view w') c h = Some k \<and> idle (view w') c \<and>
       v_nv (view w') = (v_nv (view w))(FLEET_KEY_PERSISTENT_HANDLE := Some k) \<and>
       v_primary (view w') = v_primary (view w))"
proof -
  obtain w1 where w1: "delete_persisted_fleet_key X c w = (Ok (), w1)"
    "view w1 = put_nv FLEET_KEY_PERSISTENT_HANDLE None (view w)"
    using delete_persisted_fleet_key_ok [OF assms(1)] by (auto simp: runs_ok_iff)
  have "idle (view w1) c" "v_nv (view w1) FLEET_KEY_PERSISTENT_HANDLE = None"
    "k = v_primary (view w1) (fleet_template (extend_policy [] CommandDuplicate))"
    using assms by (simp_all add: w1 view_simps)
  from create_new_fleet_key_ok [OF this] show ?thesis
    using assms w1 by (auto simp: create_fleet_key_def exec_simps key_at_def view_simps)
qed

lemma create_fleet_key_fresh_ok:
  assumes "idle (view w) c" and "v_nv (view w) FLEET_KEY_PERSISTENT_HANDLE = None"
    and "k = v_primary (view w) (fleet_template (extend_policy [] CommandDuplicate))"
  shows "runs_ok (create_fleet_key X c False) w
    (\<lambda>h w'. key_at (view w') c h = Some k \<and> idle (view w') c \<and>
       v_nv (view w') = (v_nv (view w))(FLEET_KEY_PERSISTENT_HANDLE := Some k) \<and>
       v_primary (view w') = v_primary (view w))"
proof -
  obtain e w1 where w1: "load_fleet_key X c w = (Err e, w1)" "view w1 = view w"
    using load_fleet_key_absent [OF assms(1,2)] by (auto simp: runs_err_iff)
  have "idle (view w1) c" "v_nv (view w1) FLEET_KEY_PERSISTENT_HANDLE = None"
    "k = v_primary (view w1) (fleet_template (extend_policy [] CommandDuplicate))"
    using assms by (simp_all add: w1)
  from create_new_fleet_key_ok [OF this] show ?thesis
    using assms w1 by (auto simp: create_fleet_key_def exec_simps key_at_def view_simps)
qed

lemma create_fleet_key_existing_ok:
  assumes "idle (view w) c" and "v_nv (view w) FLEET_KEY_PERSISTENT_HANDLE = Some k"
  shows "runs_ok (create_fleet_key X c False) w
    (\<lambda>h w'. key_at (view w') c h = Some k \<and> idle (view w') c \<and>
       v_nv (view w') = v_nv (view w) \<and> v_primary (view w') = v_primary (view w))"
  using load_fleet_key_present [OF assms] assms
  by (auto simp: create_fleet_key_def exec_simps key_at_def view_simps)

lemma create_transport_key_ok:
  assumes "idle (view w) c"
    and "k = v_primary (view w) (fleet_template (extend_policy [] CommandDuplicate))"
  shows "runs_ok (create_transport_key X c) w
    (\<lambda>(h, p) w'. p = kpub k \<and> v_tr (view w) c (object_of_key h) = None \<and>
       view w' = put_tr c (object_of_key h) (Some (TransientKey k)) (view w))"
proof -
  let ?t = "fleet_template (extend_policy [] CommandDuplicate)"
  obtain w1 where p: "duplicable_storage_public X c w = (Ok ?t, w1)" "view w1 = view w"
    using duplicable_storage_public_ok [OF idle_open [OF assms(1)]] by (auto simp: runs_ok_iff)
  have "idle (view w1) c" using assms by (simp add: p)
  then obtain h w2 where
    h: "execute_with_nullauth_session X id c (create_primary X c Owner ?t) w1 = (Ok h, w2)"
    "v_tr (view w) c (object_of_key h) = None"
    "view w2 = put_tr c (object_of_key h) (Some (TransientKey k)) (view w)"
    using create_primary_nullauth [of w1 c ?t] assms(2) by (auto simp: runs_ok_iff p)
  have "idle (view w2) c" "key_at (view w2) c h = Some k"
    using assms by (simp_all add: h key_at_put_tr)
  from read_public_nullauth [OF this] show ?thesis
    using p h by (auto simp: create_transport_key_def exec_simps)
qed

lemma execute_with_session_ok:
  assumes "runs_ok f (set_session X c s w) Q"
  shows "runs_ok (execute_with_session X c s f) w
    (\<lambda>x w'. \<exists>w1. Q x w1 \<and> view w' = put_cur c (v_cur (view w) c) (view w1))"
proof -
  obtain x w1 where "f (set_session X c s w) = (Ok x, w1)" "Q x w1"
    using assms by (auto simp: runs_ok_iff)
  then show ?thesis
    by (auto simp: runs_ok_iff execute_with_session_run get_session set_session)
qed

lemma load_external_ok:
  assumes "idle (view w) c"
  shows "runs_ok (execute_without_session X c (load_external_public X c (kpub kt) Owner)) w
    (\<lambda>h w'. v_tr (view w) c (object_of_key h) = None \<and>
       view w' = put_tr c (object_of_key h) (Some (ExternalKey (kpub kt))) (view w))"
proof -
  have "v_open (view (set_session X c None w)) c"
    using assms by (simp add: set_session view_simps idle_open)
  from execute_with_session_ok [OF load_external_public [OF this, of kt]] show ?thesis
    using assms by (auto simp: execute_without_session_def set_session view_simps idle_def
        put_cur_put_tr elim!: runs_ok_mono)
qed

lemma flush_external_ok:
  assumes "idle (view w) c" and "v_tr (view w) c h = Some (ExternalKey p)"
  shows "runs_ok (execute_without_session X c (flush_context X c h)) w
    (\<lambda>_ w'. view w' = put_tr c h None (view w))"
proof -
  have "runs_ok (flush_context X c h) (set_session X c None w)
      (\<lambda>_ w'. view w' = put_tr c h None (view (set_session X c None w)))"
    using assms by (intro flush_context [where e = "ExternalKey p"])
      (simp_all add: set_session view_simps idle_open)
  from execute_with_session_ok [OF this] show ?thesis
    using assms by (auto simp: execute_without_session_def set_session view_simps idle_def
        put_cur_put_tr elim!: runs_ok_mono)
qed

lemma flush_session_ok:
  assumes "v_open (view w) c" and "v_tr (view w) c (object_of_session s) = Some (Session ty d)"
  shows "runs_ok (flush_context X c (object_of_session s)) w
    (\<lambda>_ w'. view w' = put_tr c (object_of_session s) None (view w))"
  using assms by (intro flush_context [where e = "Session ty d"]) simp_all

text \<open>
  The state in which \<open>duplicate_for_joiner\<close> calls \<open>duplicate\<close>: the joiner's public
  area loaded as an external object, a policy session for the command started.
\<close>

lemma duplicate_prologue:
  assumes idle: "idle (view w) c" and key: "key_at (view w) c h = Some k"
  obtains n q w1 ext w2 s w3 where
    "execute_with_nullauth_session X id c (read_public X c h) w = (Ok (kpub k, n, q), w1)"
    "execute_without_session X c (load_external_public X c (kpub kt) Owner) w1 = (Ok ext, w2)"
    "duplication_auth_policy_session X c w2 = (Ok s, w3)"
    "v_tr (view w) c (object_of_key ext) = None" "v_tr (view w) c (object_of_session s) = None"
    "object_of_key h \<noteq> object_of_key ext" "object_of_key h \<noteq> object_of_session s"
    "object_of_key ext \<noteq> object_of_session s"
    "view w3 = put_tr c (object_of_session s)
       (Some (Session SessionPolicy (extend_policy [] CommandDuplicate)))
       (put_tr c (object_of_key ext) (Some (ExternalKey (kpub kt))) (view w))"
proof -
  obtain n q w1 where r: "execute_with_nullauth_session X id c (read_public X c h) w = (Ok (kpub k, n, q), w1)"
    "view w1 = view w"
    using read_public_nullauth [OF idle key] by (auto simp: runs_ok_iff)
  obtain ext w2 where e: "execute_without_session X c (load_external_public X c (kpub kt) Owner) w1 = (Ok ext, w2)"
    "v_tr (view w) c (object_of_key ext) = None"
    "view w2 = put_tr c (object_of_key ext) (Some (ExternalKey (kpub kt))) (view w)"
    using load_external_ok [of w1 c kt] idle by (auto simp: runs_ok_iff r)
  obtain s w3 where s: "duplication_auth_policy_session X c w2 = (Ok s, w3)"
    "v_tr (view w2) c (object_of_session s) = None"
    "view w3 = put_tr c (object_of_session s)
       (Some (Session SessionPolicy (extend_policy [] CommandDuplicate))) (view w2)"
    using duplication_auth_policy_session_ok [of w2 c] idle by (auto simp: runs_ok_iff e view_simps idle_open)
  show thesis
    by (rule that [OF r(1) e(1) s(1)]) (use key e s in \<open>auto simp: key_at_def view_simps split: if_splits\<close>)
qed

lemma duplicate_epilogue:
  assumes idle: "idle (view w) c"
    and fresh: "v_tr (view w) c (object_of_key ext) = None" "v_tr (view w) c (object_of_session s) = None"
      "object_of_key ext \<noteq> object_of_session s"
    and v: "view w4 = put_tr c (object_of_session s) (Some (Session SessionPolicy d))
       (put_tr c (object_of_key ext) (Some (ExternalKey p)) (view w))"
  obtains w5 w6 where "flush_context X c (object_of_session s) w4 = (Ok (), w5)"
    and "execute_without_session X c (flush_context X c (object_of_key ext)) w5 = (Ok (), w6)"
    and "view w6 = view w"
proof -
  obtain w5 where f: "flush_context X c (object_of_session s) w4 = (Ok (), w5)"
    "view w5 = put_tr c (object_of_key ext) (Some (ExternalKey p)) (view w)"
    using flush_session_ok [of w4 c s SessionPolicy d] idle fresh
    by (auto simp: runs_ok_iff v view_simps idle_open)
  obtain w6 where "execute_without_session X c (flush_context X c (object_of_key ext)) w5 = (Ok (), w6)"
    "view w6 = view w"
    using flush_external_ok [of w5 c "object_of_key ext" p] idle fresh
    by (auto simp: runs_ok_iff f view_simps)
  with f show thesis by (intro that)
qed

lemma duplicate_for_joiner_ok:
  assumes idle: "idle (view w) c" and key: "key_at (view w) c h = Some k"
    and dup: "\<not> oa_fixed_tpm (pub_attributes (kpub k))" "\<not> oa_fixed_parent (pub_attributes (kpub k))"
    and pol: "pub_auth_policy (kpub k) = extend_policy [] CommandDuplicate"
  shows "runs_ok (duplicate_for_joiner X c h (kpub kt)) w
    (\<lambda>blob w'. view w' = view w \<and> fleet_key_public blob = kpub k \<and>
       private_try_from X (private_value (duplicate_private blob)) = Ok (duplicate_private blob) \<and>
       encrypted_secret_try_from X (secret_value (blob_encrypted_secret blob)) =
         Ok (blob_encrypted_secret blob) \<and>
       (\<exists>d. blob_encryption_key blob = Some d \<and> data_try_from X (data_value d) = Ok d \<and>
          wrapped_for (kpub kt) k d (duplicate_private blob) (blob_encrypted_secret blob)))"
proof -
  obtain n q w1 ext w2 s w3 where
    pro: "execute_with_nullauth_session X id c (read_public X c h) w = (Ok (kpub k, n, q), w1)"
      "execute_without_session X c (load_external_public X c (kpub kt) Owner) w1 = (Ok ext, w2)"
      "duplication_auth_policy_session X c w2 = (Ok s, w3)"
    and fresh: "v_tr (view w) c (object_of_key ext) = None" "v_tr (view w) c (object_of_session s) = None"
      "object_of_key h \<noteq> object_of_key ext" "object_of_key h \<noteq> object_of_session s"
      "object_of_key ext \<noteq> object_of_session s"
    and v3: "view w3 = put_tr c (object_of_session s)
       (Some (Session SessionPolicy (extend_policy [] CommandDuplicate)))
       (put_tr c (object_of_key ext) (Some (ExternalKey (kpub kt))) (view w))"
    by (rule duplicate_prologue [OF idle key, of kt]) blast
  have "runs_ok (duplicate_object X c (object_of_key h) (object_of_key ext) None AES_128_CFB)
      (set_session X c (Some s) w3)
      (\<lambda>(d, priv, sec) w'. wrapped_for (kpub kt) k d priv sec \<and>
          data_try_from X (data_value d) = Ok d \<and>
          private_try_from X (private_value priv) = Ok priv \<and>
          encrypted_secret_try_from X (secret_value sec) = Ok sec \<and>
          view w' = view (set_session X c (Some s) w3))"
    using idle key dup fresh
    by (intro duplicate_object)
      (simp_all add: set_session v3 view_simps idle_open key_at_def policy_auth_def pol)
  from execute_with_session_ok [OF this] obtain d priv sec w4 where
    d: "execute_with_session X c (Some s) (duplicate_object X c (object_of_key h) (object_of_key ext)
         None AES_128_CFB) w3 = (Ok (d, priv, sec), w4)"
      "wrapped_for (kpub kt) k d priv sec" "data_try_from X (data_value d) = Ok d"
      "private_try_from X (private_value priv) = Ok priv"
      "encrypted_secret_try_from X (secret_value sec) = Ok sec" "view w4 = view w3"
    using idle by (auto simp: runs_ok_iff set_session view_simps v3 idle_def)
  show ?thesis
    by (rule duplicate_epilogue [OF idle fresh(1,2,5) d(6) [unfolded v3]])
      (use pro d in \<open>simp add: duplicate_for_joiner_def exec_simps duplication_symmetric_alg_def\<close>)
qed

lemma execute_with_session_err:
  assumes "runs_err f (set_session X c s w) Q"
  shows "runs_err (execute_with_session X c s f) w
    (\<lambda>x w'. \<exists>w1. Q x w1 \<and> view w' = put_cur c (v_cur (view w) c) (view w1))"
proof -
  obtain x w1 where "f (set_session X c s w) = (Err x, w1)" "Q x w1"
    using assms by (auto simp: runs_err_iff)
  then show ?thesis
    by (auto simp: runs_err_iff execute_with_session_run get_session set_session)
qed

lemma duplicate_for_joiner_wrong_policy:
  assumes idle: "idle (view w) c" and key: "key_at (view w) c h = Some k"
    and pol: "pub_auth_policy (kpub k) \<noteq> extend_policy [] CommandDuplicate"
  shows "runs_err (duplicate_for_joiner X c h (kpub kt)) w (\<lambda>e w'. (\<exists>t. e = FleetTss t) \<and> view w' = view w)"
proof -
  obtain n q w1 ext w2 s w3 where
    pro: "execute_with_nullauth_session X id c (read_public X c h) w = (Ok (kpub k, n, q), w1)"
      "execute_without_session X c (load_external_public X c (kpub kt) Owner) w1 = (Ok ext, w2)"
      "duplication_auth_policy_session X c w2 = (Ok s, w3)"
    and fresh: "v_tr (view w) c (object_of_key ext) = None" "v_tr (view w) c (object_of_session s) = None"
      "object_of_key h \<noteq> object_of_key ext" "object_of_key h \<noteq> object_of_session s"
      "object_of_key ext \<noteq> object_of_session s"
    and v3: "view w3 = put_tr c (object_of_session s)
       (Some (Session SessionPolicy (extend_policy [] CommandDuplicate)))
       (put_tr c (object_of_key ext) (Some (ExternalKey (kpub kt))) (view w))"
    by (rule duplicate_prologue [OF idle key, of kt]) blast
  have "runs_err (duplicate_object X c (object_of_key h) (object_of_key ext) None AES_128_CFB)
      (set_session X c (Some s) w3) (\<lambda>_ w'. view w' = view (set_session X c (Some s) w3))"
    using idle key fresh pol
    by (intro duplicate_needs_policy [where k = k])
      (auto simp: set_session v3 view_simps idle_open key_at_def policy_auth_def)
  from execute_with_session_err [OF this] obtain e w4 where
    d: "execute_with_session X c (Some s) (duplicate_object X c (object_of_key h) (object_of_key ext)
         None AES_128_CFB) w3 = (Err e, w4)" "view w4 = view w3"
    using idle by (auto simp: runs_err_iff set_session view_simps v3 idle_def)
  show ?thesis
    by (rule duplicate_epilogue [OF idle fresh(1,2,5) d(2) [unfolded v3]])
      (use pro d in \<open>simp add: duplicate_for_joiner_def exec_simps runs_err_iff duplication_symmetric_alg_def\<close>)
qed

lemma flush_nullauth:
  assumes "idle (view w) c" and "v_tr (view w) c oh = Some e" and "\<not> is_persistent e"
  shows "runs_ok (execute_with_nullauth_session X conv c (map_err g (flush_context X c oh))) w
    (\<lambda>_ w'. view w' = put_tr c oh None (view w))"
proof (rule nullauth_ok [OF assms(1)])
  fix s w1
  assume fresh: "v_tr (view w) c (object_of_session s) = None"
    and v1: "view w1 = open_session c s (view w)"
  note o = open_session_view [OF fresh]
  have ne: "oh \<noteq> object_of_session s" using fresh assms(2) by auto
  have "runs_ok (flush_context X c oh) w1 (\<lambda>_ w'. view w' = put_tr c oh None (view w1))"
    using assms ne by (intro flush_context [where e = e]) (simp_all add: v1 o idle_open)
  then show "runs_ok (map_err g (flush_context X c oh)) w1
     (\<lambda>x w2. v_open (view w2) c \<and> v_cur (view w2) c = Some s \<and>
       v_tr (view w2) c (object_of_session s) = Some (Session SessionHmac []) \<and>
       (\<forall>w3. view w3 = close_session c s (view w2) \<longrightarrow> view w3 = put_tr c oh None (view w)))"
    unfolding runs_ok_map_err
    by (rule runs_ok_mono) (use assms fresh ne in
      \<open>auto simp: v1 o view_simps close_put_tr_open idle_open\<close>)
qed

text \<open>The import and load under the transport key, in a session of their own.\<close>

lemma import_prologue:
  assumes idle: "idle (view w) c" and tk: "v_tr (view w) c (object_of_key ht) = Some (TransientKey kt)"
    and wrap: "wrapped_for (kpub kt) k d priv sec"
  obtains s w1 h1 w2 w3 where "start_session X c SessionHmac w = (Ok s, w1)"
    and "execute_with_session X c (Some s)
       (bindR (import_object X c (object_of_key ht) (Some d) (kpub k) priv sec AES_128_CFB)
         (\<lambda>imported. load X c ht imported (kpub k))) w1 = (Ok h1, w2)"
    and "flush_context X c (object_of_session s) w2 = (Ok (), w3)"
    and "v_tr (view w) c (object_of_key h1) = None"
    and "view w3 = put_tr c (object_of_key h1) (Some (TransientKey k)) (view w)"
proof -
  obtain s w1 where s: "start_session X c SessionHmac w = (Ok s, w1)"
    "v_tr (view w) c (object_of_session s) = None"
    "view w1 = put_tr c (object_of_session s) (Some (Session SessionHmac [])) (view w)"
    using start_session_ok [OF idle_open [OF idle], of SessionHmac] by (auto simp: runs_ok_iff)
  let ?w = "set_session X c (Some s) w1"
  have ne: "object_of_key ht \<noteq> object_of_session s" using s tk by auto
  have pre: "v_open (view v) c" "user_auth (view v) c" "key_at (view v) c ht = Some kt"
    if "view v = view ?w" for v
    using that idle tk ne
    by (simp_all add: set_session s view_simps idle_open user_auth_def key_at_def)
  have "runs_ok (bindR (import_object X c (object_of_key ht) (Some d) (kpub k) priv sec AES_128_CFB)
         (\<lambda>imported. load X c ht imported (kpub k))) ?w
      (\<lambda>h' w'. v_tr (view ?w) c (object_of_key h') = None \<and>
          view w' = put_tr c (object_of_key h') (Some (TransientKey k)) (view ?w))"
    unfolding runs_ok_bindR
    by (rule runs_ok_mono [OF import_object [OF pre [OF refl] wrap]])
      (use load_imported [OF pre] in fastforce)
  from execute_with_session_ok [OF this] obtain h1 w2 where
    h1: "execute_with_session X c (Some s)
       (bindR (import_object X c (object_of_key ht) (Some d) (kpub k) priv sec AES_128_CFB)
         (\<lambda>imported. load X c ht imported (kpub k))) w1 = (Ok h1, w2)"
      "object_of_key h1 \<noteq> object_of_session s" "v_tr (view w) c (object_of_key h1) = None"
      "view w2 = put_tr c (object_of_key h1) (Some (TransientKey k)) (view w1)"
    using idle by (auto simp: runs_ok_iff set_session s view_simps idle_def put_cur_put_tr split: if_splits)
  obtain w3 where "flush_context X c (object_of_session s) w2 = (Ok (), w3)"
    "view w3 = put_tr c (object_of_session s) None (view w2)"
    using flush_session_ok [of w2 c s SessionHmac "[]"] idle h1
    by (auto simp: runs_ok_iff s view_simps idle_open)
  with s h1 show thesis
    by (intro that [of s w1 h1 w2 w3])
      (simp_all add: put_tr_commute [of "object_of_key h1"] view_simps)
qed

lemma import_and_persist_ok:
  assumes idle: "idle (view w) c" and tk: "v_tr (view w) c (object_of_key ht) = Some (TransientKey kt)"
    and blob: "fleet_key_public blob = kpub k" "blob_encryption_key blob = Some d"
      "wrapped_for (kpub kt) k d (duplicate_private blob) (blob_encrypted_secret blob)"
  shows "runs_ok (import_and_persist X c ht blob) w
    (\<lambda>h w'. key_at (view w') c h = Some k \<and> idle (view w') c \<and>
       v_tr (view w') c (object_of_key ht) = None \<and>
       v_nv (view w') = (v_nv (view w))(FLEET_KEY_PERSISTENT_HANDLE := Some k) \<and>
       v_primary (view w') = v_primary (view w))"
proof -
  let ?H = FLEET_KEY_PERSISTENT_HANDLE
  obtain s w1 h1 w2 w3 where pro: "start_session X c SessionHmac w = (Ok s, w1)"
    "execute_with_session X c (Some s)
       (bindR (import_object X c (object_of_key ht) (Some d) (kpub k) (duplicate_private blob)
          (blob_encrypted_secret blob) AES_128_CFB)
         (\<lambda>imported. load X c ht imported (kpub k))) w1 = (Ok h1, w2)"
    "flush_context X c (object_of_session s) w2 = (Ok (), w3)"
    and fresh: "v_tr (view w) c (object_of_key h1) = None"
    and v3: "view w3 = put_tr c (object_of_key h1) (Some (TransientKey k)) (view w)"
    by (rule import_prologue [OF idle tk blob(3)]) blast
  obtain w4 where w4: "delete_persisted_fleet_key X c w3 = (Ok (), w4)"
    "view w4 = put_nv ?H None (view w3)"
    using delete_persisted_fleet_key_ok [of w3 c] idle by (auto simp: runs_ok_iff v3)
  obtain h2 w5 where w5: "persist X c h1 w4 = (Ok h2, w5)" "v_tr (view w4) c (object_of_key h2) = None"
    "view w5 = put_nv ?H (Some k) (put_tr c (object_of_key h2) (Some (PersistentKey ?H k)) (view w4))"
    using persist_ok [of w4 c h1 k] idle by (auto simp: runs_ok_iff w4 v3 view_simps)
  have ne: "object_of_key ht \<noteq> object_of_key h1" "object_of_key h2 \<noteq> object_of_key ht"
    using fresh tk w5(2) by (auto simp: w4 v3 view_simps split: if_splits)
  have "runs_ok (execute_with_nullauth_session X id c (map_err id (flush_context X c (object_of_key ht)))) w5
      (\<lambda>_ w'. view w' = put_tr c (object_of_key ht) None (view w5))"
    using idle tk ne by (intro flush_nullauth [where e = "TransientKey kt"])
      (simp_all add: w5 w4 v3 view_simps)
  then obtain w6 where
    "execute_with_nullauth_session X id c (flush_context X c (object_of_key ht)) w5 = (Ok (), w6)"
    "view w6 = put_tr c (object_of_key ht) None (view w5)"
    by (auto simp: runs_ok_iff)
  with pro w4 w5 blob show ?thesis
    using idle ne
    by (simp add: import_and_persist_def exec_simps duplication_symmetric_alg_def key_at_def
        view_simps v3 fun_upd_twist)
qed

end

end
