(* ===== verification/Sealer_Spec.thy ===== *)
theory Sealer_Spec
  imports Fleet_Spec
begin

text \<open>
  What the sealer of \<open>tpm.rs\<close> does over a TPM that keeps the contract: both
  constructors give a sealer that is ready for its key, \<open>seal\<close> gives an envelope
  that is sealed under that key, and \<open>unseal\<close> of such an envelope gives the
  data back, on any device that holds the key, with the view unchanged.
\<close>

section \<open>The sealer over the contract\<close>

definition key_id_of_name :: "'w tss \<Rightarrow> bytes \<Rightarrow> string" where
  "key_id_of_name X name = ''sceau-'' @ take 16 (hex_encode X (sha256 X name))"

definition srk_template :: public where
  "srk_template =
     \<lparr>pub_algorithm = Rsa, pub_name_hashing = Sha256,
      pub_attributes = object_attributes_new\<lparr>oa_fixed_tpm := True, oa_fixed_parent := True,
        oa_sensitive_data_origin := True, oa_user_with_auth := True, oa_decrypt := True,
        oa_restricted := True\<rparr>,
      pub_auth_policy = [], pub_parameters = RsaParameters AES_128_CFB Rsa2048 0, pub_unique = []\<rparr>"

lemma storage_template_srk [simp]: "storage_template srk_template"
  by (simp add: storage_template_def srk_template_def object_attributes_new_def)

context tss_codec
begin

lemma derive_key_id_ok: "derive_key_id X name = Ok (key_id_of_name X name)"
proof -
  let ?s = "hex_encode X (sha256 X name)"
  have len: "length ?s = 64" by (simp add: hex_length sha256_length)
  then have "?s ! 16 \<in> set ?s" by (intro nth_mem) simp
  then have "\<not> is_utf8_continuation (?s ! 16)"
    using hex_ascii by (fastforce simp: is_utf8_continuation_def)
  with len show ?thesis
    by (simp add: derive_key_id_def str_slice_to_def key_id_of_name_def)
qed

lemma srk_public_ok: "srk_public X = Ok srk_template"
  by (simp add: srk_public_def attributes_build rsa_build public_build_rsa
      object_attributes_new_def srk_template_def)

lemma sealed_public_ok: "\<exists>p. sealed_public X fixed = Ok p \<and> sealing_template fixed p"
  by (simp add: sealed_public_def attributes_build public_build_keyed_hash
      object_attributes_new_def sealing_template_def)

end

text \<open>
  A sealer that is ready to use: its context is idle, its primary is the key \<open>k\<close>,
  its \<open>key_id\<close> and \<open>child_fixed\<close> are those of that key.
\<close>

definition sealer_ready ::
  "'w tss \<Rightarrow> ('k \<Rightarrow> public) \<Rightarrow> (public \<Rightarrow> bytes) \<Rightarrow> 'k tpm_view \<Rightarrow> TpmSealer \<Rightarrow> 'k \<Rightarrow> bool" where
  "sealer_ready X kpub name_of v s k =
     (idle v (sealer_context s) \<and> key_at v (sealer_context s) (sealer_primary s) = Some k \<and>
      sealer_key_id s = key_id_of_name X (name_of (kpub k)) \<and>
      sealer_child_fixed s = oa_fixed_tpm (pub_attributes (kpub k)))"

definition sealed_envelope ::
  "'w tss \<Rightarrow> ('k \<Rightarrow> public \<Rightarrow> tpm_private \<Rightarrow> bytes \<Rightarrow> bool) \<Rightarrow> 'k \<Rightarrow> bytes \<Rightarrow> bytes \<Rightarrow> bool" where
  "sealed_envelope X sealed_under k ct d =
     (\<exists>p priv. envelope_decode X ct = Ok (p, priv) \<and> sealed_under k p priv d)"

context tpm_device
begin

lemma TpmSealer_new_ok:
  assumes "reachable tc" and "k = v_primary (view w) srk_template"
  shows "runs_ok (TpmSealer_new X tc) w (\<lambda>s w'.
     \<not> v_open (view w) (sealer_context s) \<and>
     view w' = put_tr (sealer_context s) (object_of_key (sealer_primary s)) (Some (TransientKey k))
       (open_context (sealer_context s) (view w)) \<and>
     sealer_ready X kpub name_of (view w') s k \<and> sealer_owns_transient_primary s)"
proof -
  obtain c w1 where c: "context_new X tc w = (Ok c, w1)" "\<not> v_open (view w) c"
    "view w1 = open_context c (view w)"
    using context_new [OF assms(1), of w] by (auto simp: runs_ok_iff)
  have idle: "idle (view w1) c" by (simp add: c idle_def view_simps)
  let ?body = "bindR (lift (srk_public X)) (\<lambda>template.
        bindR (map_err TpmTss (create_primary X c Owner template)) (\<lambda>primary.
        bindR (map_err TpmTss (read_public X c primary)) (\<lambda>(p, name, _).
        bindR (lift (derive_key_id X name)) (\<lambda>key_id.
        ret (primary, key_id, oa_fixed_tpm (pub_attributes p))))))"
  have "runs_ok (execute_with_nullauth_session X TpmTss c ?body) w1
    (\<lambda>x w'. v_tr (view w1) c (object_of_key (fst x)) = None \<and>
       view w' = put_tr c (object_of_key (fst x)) (Some (TransientKey k)) (view w1) \<and>
       snd x = (key_id_of_name X (name_of (kpub k)), oa_fixed_tpm (pub_attributes (kpub k))))"
  proof (rule nullauth_enter [OF idle])
    fix v
    assume v: "v_open (view v) c" "user_auth (view v) c" "v_primary (view v) = v_primary (view w1)"
    obtain h v1 where h: "create_primary X c Owner srk_template v = (Ok h, v1)"
      "v_tr (view v) c (object_of_key h) = None"
      "view v1 = put_tr c (object_of_key h) (Some (TransientKey k)) (view v)"
      using create_primary [OF v(1,2), of srk_template] assms(2)
      by (auto simp: runs_ok_iff v(3) c view_simps)
    have "v_open (view v1) c" "key_at (view v1) c h = Some k"
      by (simp_all add: h v view_simps key_at_def)
    from read_public [OF this] show "runs_ok ?body v (\<lambda>x w2. v_tr (view v) c (object_of_key (fst x)) = None \<and>
       view w2 = put_tr c (object_of_key (fst x)) (Some (TransientKey k)) (view v) \<and>
       snd x = (key_id_of_name X (name_of (kpub k)), oa_fixed_tpm (pub_attributes (kpub k))))"
      using h by (auto simp: exec_simps srk_public_ok derive_key_id_ok)
  qed
  with c show ?thesis
    by (auto simp: TpmSealer_new_def exec_simps sealer_ready_def view_simps key_at_def idle_def)
qed

lemma TpmSealer_from_primary_ok:
  assumes "idle (view w) c" and "key_at (view w) c h = Some k"
  shows "runs_ok (TpmSealer_from_primary X c h) w (\<lambda>s w'. view w' = view w \<and>
     sealer_context s = c \<and> sealer_primary s = h \<and>
     sealer_ready X kpub name_of (view w') s k \<and> \<not> sealer_owns_transient_primary s)"
  using read_public_nullauth [OF assms] assms
  by (auto simp: TpmSealer_from_primary_def exec_simps derive_key_id_ok sealer_ready_def)

lemma seal_ok:
  assumes "sealer_ready X kpub name_of (view w) s k" and "length d \<le> MAX_SEAL_DATA"
  shows "runs_ok (seal X s d) w
    (\<lambda>ct w'. view w' = view w \<and> sealed_envelope X sealed_under k ct d)"
proof -
  let ?c = "sealer_context s"
  note s = assms(1) [unfolded sealer_ready_def]
  have d: "length d \<le> 128" using assms(2) by (simp add: MAX_SEAL_DATA_def)
  obtain t where t: "sealed_public X (sealer_child_fixed s) = Ok t"
    "sealing_template (sealer_child_fixed s) t"
    using sealed_public_ok by blast
  have "runs_ok (execute_with_nullauth_session X TpmTss ?c
      (bindR (lift (sealed_public X (sealer_child_fixed s))) (\<lambda>template.
         map_err TpmTss (create X ?c (sealer_primary s) template (Some (SensitiveData d)))))) w
    (\<lambda>r w'. view w' = view w \<and> (case r of (priv, p) \<Rightarrow> sealed_under k p priv d \<and>
        (\<exists>b. public_marshall X p = Ok b) \<and> private_try_from X (private_value priv) = Ok priv))"
  proof (rule nullauth_frame)
    show "idle (view w) ?c" using s by simp
    fix w1
    assume w1: "v_open (view w1) ?c" "user_auth (view w1) ?c"
      "\<And>kh. key_at (view w1) ?c kh = key_at (view w) ?c kh"
    have k: "key_at (view w1) ?c (sealer_primary s) = Some k" using s w1(3) by simp
    from create [OF w1(1,2) k _ d, of t]
    show "runs_ok (bindR (lift (sealed_public X (sealer_child_fixed s))) (\<lambda>template.
         map_err TpmTss (create X ?c (sealer_primary s) template (Some (SensitiveData d))))) w1
      (\<lambda>r w2. view w2 = view w1 \<and> (case r of (priv, p) \<Rightarrow> sealed_under k p priv d \<and>
        (\<exists>b. public_marshall X p = Ok b) \<and> private_try_from X (private_value priv) = Ok priv))"
      using s t by (auto simp: wp elim!: runs_ok_mono)
  qed
  then obtain priv p b w' where
    c: "execute_with_nullauth_session X TpmTss ?c
      (bindR (lift (sealed_public X (sealer_child_fixed s))) (\<lambda>template.
         map_err TpmTss (create X ?c (sealer_primary s) template (Some (SensitiveData d))))) w =
      (Ok (priv, p), w')" "view w' = view w" "sealed_under k p priv d"
      "public_marshall X p = Ok b" "private_try_from X (private_value priv) = Ok priv"
    by (auto simp: runs_ok_iff)
  obtain ct where ct: "(envelope_encode X p priv :: (bytes, TpmError) outcome) = Ok ct" "envelope_decode X ct = Ok (p, priv)"
    using envelope_decode_encode [OF c(4) marshall_bounded [OF c(4)] unmarshall_marshall [OF c(4)] c(5)]
    by (auto simp: obind_Ok_iff)
  with c d assms(2) show ?thesis
    by (auto simp: seal_def exec_simps sensitive_data sealed_envelope_def)
qed

lemma unseal_ok:
  assumes "sealer_ready X kpub name_of (view w) s k" and "sealed_envelope X sealed_under k ct d"
  shows "runs_ok (unseal X s ct) w (\<lambda>r w'. r = d \<and> view w' = view w)"
proof -
  let ?c = "sealer_context s"
  note s = assms(1) [unfolded sealer_ready_def]
  obtain p priv where e: "envelope_decode X ct = Ok (p, priv)" "sealed_under k p priv d"
    using assms(2) by (auto simp: sealed_envelope_def)
  let ?body = "bindR (map_err TpmTss (load X ?c (sealer_primary s) priv p)) (\<lambda>handle.
        bindR (map_err TpmTss (unseal_object X ?c (object_of_key handle))) (\<lambda>data.
        bindR (map_err TpmTss (flush_context X ?c (object_of_key handle))) (\<lambda>_.
        ret data)))"
  have "runs_ok (execute_with_nullauth_session X TpmTss ?c ?body) w
    (\<lambda>r w'. view w' = view w \<and> r = SensitiveData d)"
  proof (rule nullauth_frame)
    show "idle (view w) ?c" using s by simp
    fix w1
    assume w1: "v_open (view w1) ?c" "user_auth (view w1) ?c"
      "\<And>kh. key_at (view w1) ?c kh = key_at (view w) ?c kh"
    have k: "key_at (view w1) ?c (sealer_primary s) = Some k" using s w1(3) by simp
    obtain h w2 where h: "load X ?c (sealer_primary s) priv p w1 = (Ok h, w2)"
      "v_tr (view w1) ?c (object_of_key h) = None"
      "view w2 = put_tr ?c (object_of_key h) (Some (SealedObject d)) (view w1)"
      using load_sealed [OF w1(1,2) k e(2)] by (auto simp: runs_ok_iff)
    have "v_open (view w2) ?c" "user_auth (view w2) ?c"
      "v_tr (view w2) ?c (object_of_key h) = Some (SealedObject d)"
      using w1 h by (auto simp: view_simps user_auth_def split: option.splits)
    then obtain w3 where u: "unseal_object X ?c (object_of_key h) w2 = (Ok (SensitiveData d), w3)"
      "view w3 = view w2"
      using unseal_object by (fastforce simp: runs_ok_iff)
    have "runs_ok (flush_context X ?c (object_of_key h)) w3
        (\<lambda>_ w'. view w' = put_tr ?c (object_of_key h) None (view w3))"
      using w1 h u by (intro flush_context [where e = "SealedObject d"]) (simp_all add: view_simps)
    then show "runs_ok ?body w1 (\<lambda>r w2. view w2 = view w1 \<and> r = SensitiveData d)"
      using h u by (auto simp: exec_simps)
  qed
  with e show ?thesis by (auto simp: unseal_def exec_simps)
qed

lemma TpmSealer_drop_ok:
  assumes "sealer_owns_transient_primary s" and "idle (view w) (sealer_context s)"
    and "v_tr (view w) (sealer_context s) (object_of_key (sealer_primary s)) = Some (TransientKey k)"
  shows "view (TpmSealer_drop X s w) =
    put_tr (sealer_context s) (object_of_key (sealer_primary s)) None (view w)"
  using flush_nullauth [OF assms(2,3), where conv = id and g = id] assms(1)
  by (auto simp: TpmSealer_drop_def runs_ok_iff map_err_id)

end

section \<open>Errors of the sealer\<close>

lemma nullauth_Err_cases:
  assumes "execute_with_nullauth_session X conv c f w = (Err e, w')"
  obtains t where "e = conv t" | w1 w2 where "f w1 = (Err e, w2)"
  using assms
  by (auto simp: execute_with_nullauth_session_def bindR_apply map_err_apply attempt_def
      split: prod.splits outcome.splits elim!: omap_err.elims)

lemma envelope_encode_not_Err: "envelope_encode X p priv \<noteq> Err e"
  by (cases "public_marshall X p") (simp_all add: envelope_encode_def)

lemma sealed_public_Err: "sealed_public X fixed = Err e \<Longrightarrow> \<exists>t. e = TpmTss t"
  unfolding sealed_public_def by (elim obind_ErrE omap_err_ErrE) blast+

lemma seal_small_Err:
  assumes "length d \<le> MAX_SEAL_DATA" and "seal X self d w = (Err e, w')"
  shows "\<exists>t. e = TpmTss t"
proof -
  from assms have "bindR (lift (omap_err TpmTss (sensitive_data_try_from X d))) (\<lambda>sensitive.
        bindR (execute_with_nullauth_session X TpmTss (sealer_context self)
          (bindR (lift (sealed_public X (sealer_child_fixed self))) (\<lambda>template.
           map_err TpmTss (create X (sealer_context self) (sealer_primary self) template
             (Some sensitive))))) (\<lambda>(out_private, out_public).
        lift (envelope_encode X out_public out_private))) w = (Err e, w')"
    by (simp add: seal_def)
  then show ?thesis
    by (elim bindR_ErrE nullauth_Err_cases)
      (auto simp: envelope_encode_not_Err elim: omap_err_ErrE map_err_ErrE dest: sealed_public_Err)
qed

end
