(* ===== verification/Kms.thy ===== *)
theory Kms
  imports Tpm
begin

text \<open>
  \<open>src/src/kms.rs\<close>: the Kubernetes KMS v2 service. The state is the service with
  its two mutexes next to the world of the TPM; a panic while a guard is held
  poisons its mutex, and every later \<open>lock\<close> of it fails.
\<close>

section \<open>Messages and state\<close>

record KmsService =
  kms_sealer :: "TpmSealer mutex"
  kms_legacy_sealer :: "TpmSealer mutex option"

record StatusResponse =
  status_version :: string
  status_healthz :: string
  status_key_id :: string

record EncryptRequest =
  enc_plaintext :: bytes
  enc_uid :: string

record EncryptResponse =
  enc_ciphertext :: bytes
  enc_key_id :: string
  enc_annotations :: "(string \<times> bytes) list"

record DecryptRequest =
  dec_ciphertext :: bytes
  dec_uid :: string
  dec_key_id :: string
  dec_annotations :: "(string \<times> bytes) list"

record DecryptResponse =
  dec_plaintext :: bytes

type_synonym 'w kms_world = "KmsService \<times> 'w"

section \<open>Constructors and helpers\<close>

definition KmsService_new :: "TpmSealer \<Rightarrow> KmsService" where
  "KmsService_new sealer = \<lparr>kms_sealer = mutex_new sealer, kms_legacy_sealer = None\<rparr>"

definition with_legacy_fallback :: "TpmSealer \<Rightarrow> TpmSealer \<Rightarrow> KmsService" where
  "with_legacy_fallback sealer legacy_sealer =
     \<lparr>kms_sealer = mutex_new sealer, kms_legacy_sealer = Some (mutex_new legacy_sealer)\<rparr>"

definition poison_message :: string where
  "poison_message = ''poisoned lock: another task failed inside''"

definition kms_internal :: "string \<Rightarrow> status" where
  "kms_internal e = Status Internal (''sceau: '' @ e)"

definition service_key_id :: "KmsService \<Rightarrow> string" where
  "service_key_id self =
     (if mutex_poisoned (kms_sealer self) then []
      else sealer_key_id (mutex_data (kms_sealer self)))"

text \<open>
  \<open>lock().map_err(internal)?\<close> followed by code that holds the guard: the body
  runs on the world, and a panic in it leaves the mutex poisoned.
\<close>

definition with_sealer ::
  "(TpmSealer \<Rightarrow> ('w, 'a, status) rs) \<Rightarrow> ('w kms_world, 'a, status) rs" where
  "with_sealer body = (\<lambda>(self, w).
     if mutex_poisoned (kms_sealer self) then (Err (kms_internal poison_message), (self, w))
     else (case body (mutex_data (kms_sealer self)) w of
        (Panic s, w') \<Rightarrow>
          (Panic s, (self\<lparr>kms_sealer := (kms_sealer self)\<lparr>mutex_poisoned := True\<rparr>\<rparr>, w'))
      | (r, w') \<Rightarrow> (r, (self, w'))))"

definition with_legacy_sealer ::
  "TpmSealer mutex \<Rightarrow> (TpmSealer \<Rightarrow> ('w, 'a, status) rs) \<Rightarrow> ('w kms_world, 'a, status) rs" where
  "with_legacy_sealer legacy body = (\<lambda>(self, w).
     if mutex_poisoned legacy then (Err (kms_internal poison_message), (self, w))
     else (case body (mutex_data legacy) w of
        (Panic s, w') \<Rightarrow>
          (Panic s, (self\<lparr>kms_legacy_sealer := Some (legacy\<lparr>mutex_poisoned := True\<rparr>)\<rparr>, w'))
      | (r, w') \<Rightarrow> (r, (self, w'))))"

section \<open>The handlers\<close>

definition status_rpc :: "('w kms_world, StatusResponse, status) rs" where
  "status_rpc = (\<lambda>(self, w).
     (Ok \<lparr>status_version = ''v2'', status_healthz = ''ok'',
          status_key_id = service_key_id self\<rparr>, (self, w)))"

definition encrypt :: "'w tss \<Rightarrow> EncryptRequest \<Rightarrow> ('w kms_world, EncryptResponse, status) rs" where
  "encrypt X req =
     with_sealer (\<lambda>sealer.
       bindR (map_err (\<lambda>e. kms_internal (display_TpmError X e))
         (seal X sealer (enc_plaintext req))) (\<lambda>ciphertext.
       ret \<lparr>enc_ciphertext = ciphertext, enc_key_id = sealer_key_id sealer,
            enc_annotations = []\<rparr>))"

text \<open>A guarded attempt of \<open>decrypt\<close>: \<open>None\<close> when the \<open>key_id\<close> is not this sealer's.\<close>

definition decrypt_with ::
  "'w tss \<Rightarrow> DecryptRequest \<Rightarrow> TpmSealer \<Rightarrow> ('w, DecryptResponse option, status) rs" where
  "decrypt_with X req sealer =
     (if dec_key_id req = sealer_key_id sealer then
        bindR (map_err (\<lambda>e. kms_internal (display_TpmError X e))
          (unseal X sealer (dec_ciphertext req))) (\<lambda>plaintext.
        ret (Some \<lparr>dec_plaintext = plaintext\<rparr>))
      else ret None)"

definition decrypt :: "'w tss \<Rightarrow> DecryptRequest \<Rightarrow> ('w kms_world, DecryptResponse, status) rs" where
  "decrypt X req =
     bindR (with_sealer (decrypt_with X req)) (\<lambda>preferred.
     case preferred of
       Some response \<Rightarrow> ret response
     | None \<Rightarrow>
         bindR (\<lambda>(self, w).
           case kms_legacy_sealer self of
             Some legacy \<Rightarrow> with_legacy_sealer legacy (decrypt_with X req) (self, w)
           | None \<Rightarrow> (Ok None, (self, w))) (\<lambda>fallback.
         case fallback of
           Some response \<Rightarrow> ret response
         | None \<Rightarrow> lift (Err (Status InvalidArgument (''unknown key_id '' @ dec_key_id req)))))"

end
