(* ===== verification/Kms_Spec.thy ===== *)
theory Kms_Spec
  imports Sealer_Spec Kms
begin

text \<open>
  The KMS service over the contract of a sealer. The contract is the locale
  \<open>sealing\<close>: what \<open>seal\<close> and \<open>unseal\<close> promise about a sealer that is ready for a
  key. The handlers' lemmas are proved in it once; \<open>tpm_device\<close> gives it, so they
  hold for the sealer of \<open>tpm.rs\<close> on any TPM that keeps the contract.
\<close>


section \<open>Locks\<close>

lemma with_sealer_free:
  "\<not> mutex_poisoned (kms_sealer self) \<Longrightarrow> body (mutex_data (kms_sealer self)) w = (r, w') \<Longrightarrow>
   \<not> is_panic r \<Longrightarrow> with_sealer body (self, w) = (r, (self, w'))"
  by (cases r) (simp_all add: with_sealer_def)

lemma with_sealer_poisoned:
  "mutex_poisoned (kms_sealer self) \<Longrightarrow>
   with_sealer body (self, w) = (Err (kms_internal poison_message), (self, w))"
  by (simp add: with_sealer_def)

lemma with_sealer_panic:
  "\<not> mutex_poisoned (kms_sealer self) \<Longrightarrow> body (mutex_data (kms_sealer self)) w = (Panic p, w') \<Longrightarrow>
   with_sealer body (self, w) =
     (Panic p, (self\<lparr>kms_sealer := (kms_sealer self)\<lparr>mutex_poisoned := True\<rparr>\<rparr>, w'))"
  by (simp add: with_sealer_def)

lemma with_legacy_sealer_free:
  "\<not> mutex_poisoned l \<Longrightarrow> body (mutex_data l) w = (r, w') \<Longrightarrow>
   \<not> is_panic r \<Longrightarrow> with_legacy_sealer l body (self, w) = (r, (self, w'))"
  by (cases r) (simp_all add: with_legacy_sealer_def)

lemmas lock_simps = with_sealer_free with_sealer_poisoned with_sealer_panic with_legacy_sealer_free

section \<open>The contract of a sealer, and the service over it\<close>

locale sealing =
  fixes X :: "'w tss"
    and ready :: "'w \<Rightarrow> TpmSealer \<Rightarrow> 'k \<Rightarrow> bool"
    and sealed :: "'k \<Rightarrow> bytes \<Rightarrow> bytes \<Rightarrow> bool"
  assumes seal_law:
      "ready w s k \<Longrightarrow> length d \<le> MAX_SEAL_DATA \<Longrightarrow> runs_ok (seal X s d) w
         (\<lambda>ct w'. sealed k ct d \<and> ready w' = ready w)"
    and unseal_law:
      "ready w s k \<Longrightarrow> sealed k ct d \<Longrightarrow> runs_ok (unseal X s ct) w
         (\<lambda>r w'. r = d \<and> ready w' = ready w)"
    and key_id_law:
      "ready w s k \<Longrightarrow> ready w' s' k \<Longrightarrow> sealer_key_id s = sealer_key_id s'"
begin

lemma encrypt_ok:
  assumes "\<not> mutex_poisoned (kms_sealer self)" and "ready w (mutex_data (kms_sealer self)) k"
    and "length (enc_plaintext req) \<le> MAX_SEAL_DATA"
  obtains ct w' where "encrypt X req (self, w) =
       (Ok \<lparr>enc_ciphertext = ct, enc_key_id = sealer_key_id (mutex_data (kms_sealer self)),
            enc_annotations = []\<rparr>, (self, w'))"
    and "sealed k ct (enc_plaintext req)" and "ready w' = ready w"
proof -
  obtain ct w' where "seal X (mutex_data (kms_sealer self)) (enc_plaintext req) w = (Ok ct, w')"
    and "sealed k ct (enc_plaintext req)" and "ready w' = ready w"
    using seal_law [OF assms(2,3)] by (auto simp: runs_ok_iff)
  with assms(1) show thesis
    by (intro that [of ct w']) (simp_all add: encrypt_def with_sealer_def exec_simps)
qed

lemma decrypt_preferred_ok:
  assumes "\<not> mutex_poisoned (kms_sealer self)" and "ready w (mutex_data (kms_sealer self)) k"
    and "dec_key_id req = sealer_key_id (mutex_data (kms_sealer self))"
    and "sealed k (dec_ciphertext req) d"
  obtains w' where "decrypt X req (self, w) = (Ok \<lparr>dec_plaintext = d\<rparr>, (self, w'))"
    and "ready w' = ready w"
proof -
  obtain w' where "unseal X (mutex_data (kms_sealer self)) (dec_ciphertext req) w = (Ok d, w')"
    and "ready w' = ready w"
    using unseal_law [OF assms(2,4)] by (auto simp: runs_ok_iff)
  with assms show thesis
    by (intro that [of w']) (simp_all add: decrypt_def decrypt_with_def with_sealer_def exec_simps)
qed

lemma decrypt_legacy_ok:
  assumes "\<not> mutex_poisoned (kms_sealer self)"
    and "kms_legacy_sealer self = Some l" and "\<not> mutex_poisoned l" and "ready w (mutex_data l) k"
    and "dec_key_id req = sealer_key_id (mutex_data l)"
    and "dec_key_id req \<noteq> sealer_key_id (mutex_data (kms_sealer self))"
    and "sealed k (dec_ciphertext req) d"
  obtains w' where "decrypt X req (self, w) = (Ok \<lparr>dec_plaintext = d\<rparr>, (self, w'))"
    and "ready w' = ready w"
proof -
  obtain w' where "unseal X (mutex_data l) (dec_ciphertext req) w = (Ok d, w')"
    and "ready w' = ready w"
    using unseal_law [OF assms(4,7)] by (auto simp: runs_ok_iff)
  with assms show thesis
    by (intro that [of w'])
      (simp_all add: decrypt_def decrypt_with_def with_sealer_def with_legacy_sealer_def exec_simps)
qed

text \<open>
  What one service encrypts, any service whose preferred sealer holds the same
  key decrypts, in any world in which that sealer is ready.
\<close>

lemma encrypt_decrypt:
  assumes "\<not> mutex_poisoned (kms_sealer self)" and "ready w (mutex_data (kms_sealer self)) k"
    and "\<not> mutex_poisoned (kms_sealer self')" and "ready v (mutex_data (kms_sealer self')) k"
    and "length (enc_plaintext req) \<le> MAX_SEAL_DATA"
  shows "\<exists>resp w'. encrypt X req (self, w) = (Ok resp, (self, w')) \<and> ready w' = ready w \<and>
    (\<forall>uid ann. \<exists>v'. decrypt X \<lparr>dec_ciphertext = enc_ciphertext resp, dec_uid = uid,
       dec_key_id = enc_key_id resp, dec_annotations = ann\<rparr> (self', v) =
         (Ok \<lparr>dec_plaintext = enc_plaintext req\<rparr>, (self', v')))"
proof -
  obtain ct w' where e: "encrypt X req (self, w) =
       (Ok \<lparr>enc_ciphertext = ct, enc_key_id = sealer_key_id (mutex_data (kms_sealer self)),
            enc_annotations = []\<rparr>, (self, w'))"
    "sealed k ct (enc_plaintext req)" "ready w' = ready w"
    by (rule encrypt_ok [OF assms(1,2,5)])
  have "\<exists>v'. decrypt X \<lparr>dec_ciphertext = ct, dec_uid = uid,
       dec_key_id = sealer_key_id (mutex_data (kms_sealer self)), dec_annotations = ann\<rparr> (self', v) =
         (Ok \<lparr>dec_plaintext = enc_plaintext req\<rparr>, (self', v'))" for uid ann
    by (rule decrypt_preferred_ok [OF assms(3,4)])
      (use e key_id_law [OF assms(2,4)] in auto)
  with e show ?thesis by simp
qed

end

sublocale tpm_device \<subseteq> sealer: sealing X "\<lambda>w. sealer_ready X kpub name_of (view w)"
  "sealed_envelope X sealed_under"
proof unfold_locales
  fix w s k and d :: bytes
  assume "sealer_ready X kpub name_of (view w) s k" and "length d \<le> MAX_SEAL_DATA"
  from seal_ok [OF this] show "runs_ok (seal X s d) w (\<lambda>ct w'. sealed_envelope X sealed_under k ct d \<and>
      sealer_ready X kpub name_of (view w') = sealer_ready X kpub name_of (view w))"
    by (rule runs_ok_mono) simp
next
  fix w s k ct d
  assume "sealer_ready X kpub name_of (view w) s k" and "sealed_envelope X sealed_under k ct d"
  from unseal_ok [OF this] show "runs_ok (unseal X s ct) w (\<lambda>r w'. r = d \<and>
      sealer_ready X kpub name_of (view w') = sealer_ready X kpub name_of (view w))"
    by (rule runs_ok_mono) simp
next
  fix w s k w' s'
  assume "sealer_ready X kpub name_of (view w) s k" and "sealer_ready X kpub name_of (view w') s' k"
  then show "sealer_key_id s = sealer_key_id s'" by (simp add: sealer_ready_def)
qed

end
