(* ===== verification/Soft_Tpm.thy ===== *)
theory Soft_Tpm
  imports Kms_Spec
begin

text \<open>
  A software TPM: an executable implementation of the calls of \<open>tss\<close> that keeps
  the contract \<open>tpm_device\<close>. It shows that the contract can be kept and is the
  device on which the theorems of the development are evaluated. Keys carry the
  attributes and the policy of their template and the seed of the device that
  made them; blobs carry their content behind the identity of the key that
  protects them, in the clear.
\<close>

section \<open>Keys and their encodings\<close>

record skey =
  k_attributes :: object_attributes
  k_policy :: bytes
  k_seed :: bytes

definition soft_public :: "skey \<Rightarrow> public" where
  "soft_public k =
     \<lparr>pub_algorithm = Rsa, pub_name_hashing = Sha256, pub_attributes = k_attributes k,
      pub_auth_policy = take 64 (k_policy k),
      pub_parameters = RsaParameters AES_128_CFB Rsa2048 0, pub_unique = take 32 (k_seed k)\<rparr>"

definition bit_byte :: "bool \<Rightarrow> byte" where
  "bit_byte b = (if b then 1 else 0)"

definition attribute_bytes :: "object_attributes \<Rightarrow> bytes" where
  "attribute_bytes a = map bit_byte
     [oa_fixed_tpm a, oa_st_clear a, oa_fixed_parent a, oa_sensitive_data_origin a,
      oa_user_with_auth a, oa_admin_with_policy a, oa_no_da a, oa_encrypted_duplication a,
      oa_restricted a, oa_decrypt a, oa_sign_encrypt a]"

definition attributes_of_bytes :: "bytes \<Rightarrow> object_attributes" where
  "attributes_of_bytes bs =
     \<lparr>oa_fixed_tpm = (bs ! 0 = 1), oa_st_clear = (bs ! 1 = 1), oa_fixed_parent = (bs ! 2 = 1),
      oa_sensitive_data_origin = (bs ! 3 = 1), oa_user_with_auth = (bs ! 4 = 1),
      oa_admin_with_policy = (bs ! 5 = 1), oa_no_da = (bs ! 6 = 1),
      oa_encrypted_duplication = (bs ! 7 = 1), oa_restricted = (bs ! 8 = 1),
      oa_decrypt = (bs ! 9 = 1), oa_sign_encrypt = (bs ! 10 = 1)\<rparr>"

text \<open>Public areas: an algorithm byte, the length of the policy, the attributes, policy, unique.\<close>

definition soft_encode :: "public \<Rightarrow> bytes" where
  "soft_encode p =
     bit_byte (pub_algorithm p = Rsa) # of_nat (length (pub_auth_policy p)) #
     attribute_bytes (pub_attributes p) @ pub_auth_policy p @ pub_unique p"

fun soft_decode :: "bytes \<Rightarrow> public option" where
  "soft_decode (a # n # rest) = Some
     \<lparr>pub_algorithm = (if a = 1 then Rsa else KeyedHash), pub_name_hashing = Sha256,
      pub_attributes = attributes_of_bytes (take 11 rest),
      pub_auth_policy = take (unat n) (drop 11 rest),
      pub_parameters = (if a = 1 then RsaParameters AES_128_CFB Rsa2048 0
        else KeyedHashParameters SchemeNull),
      pub_unique = drop (11 + unat n) rest\<rparr>"
| "soft_decode bs = None"

text \<open>Private areas of keys: the attributes, the policy behind its length in unary, the seed.\<close>

definition skey_bytes :: "skey \<Rightarrow> bytes" where
  "skey_bytes k = attribute_bytes (k_attributes k) @
     replicate (length (k_policy k)) 1 @ [0] @ k_policy k @ k_seed k"

definition skey_of_bytes :: "bytes \<Rightarrow> skey" where
  "skey_of_bytes bs =
     (let r = drop 11 bs; n = length (takeWhile (\<lambda>b. b = 1) r)
      in \<lparr>k_attributes = attributes_of_bytes (take 11 bs),
          k_policy = take n (drop (n + 1) r), k_seed = drop (n + 1 + n) r\<rparr>)"

definition soft_error :: "string \<Rightarrow> tss_error" where
  "soft_error s = WrapperError s"

definition soft_marshall :: "public \<Rightarrow> (bytes, tss_error) outcome" where
  "soft_marshall p =
     (if soft_decode (soft_encode p) = Some p \<and> length (soft_encode p) < 65536
      then Ok (soft_encode p) else Err (soft_error ''marshall''))"

definition soft_unmarshall :: "bytes \<Rightarrow> (public, tss_error) outcome" where
  "soft_unmarshall b = ok_or (soft_error ''unmarshall'') (soft_decode b)"

definition soft_digest :: "bytes \<Rightarrow> bytes" where
  "soft_digest b = take 32 (b @ replicate 32 0)"

definition hex_digit :: "nat \<Rightarrow> char" where
  "hex_digit n = char_of (if n < 10 then 48 + n else 87 + n)"

definition soft_hex :: "bytes \<Rightarrow> string" where
  "soft_hex b = concat (map (\<lambda>x. [hex_digit (unat x div 16), hex_digit (unat x mod 16)]) b)"

definition soft_extend :: "digest \<Rightarrow> command_code \<Rightarrow> digest" where
  "soft_extend d cc = soft_digest ((case cc of CommandDuplicate \<Rightarrow> 0x4B | OtherCommand n \<Rightarrow> ucast n) # d)"

definition soft_name :: "public \<Rightarrow> bytes" where
  "soft_name p = 0 # 11 # soft_digest (pub_unique p @ pub_auth_policy p)"

section \<open>The device\<close>

record soft =
  sw_seed :: bytes
  sw_open :: "context_id list"
  sw_tr :: "((context_id \<times> object_handle) \<times> skey entity) list"
  sw_cur :: "(context_id \<times> auth_session) list"
  sw_nv :: "(u32 \<times> skey) list"

definition soft_primary :: "soft \<Rightarrow> public \<Rightarrow> skey" where
  "soft_primary w t =
     \<lparr>k_attributes = pub_attributes t, k_policy = pub_auth_policy t, k_seed = sw_seed w\<rparr>"

definition soft_view :: "soft \<Rightarrow> skey tpm_view" where
  "soft_view w =
     \<lparr>v_open = (\<lambda>c. c \<in> set (sw_open w)), v_tr = (\<lambda>c h. map_of (sw_tr w) (c, h)),
      v_cur = map_of (sw_cur w), v_nv = map_of (sw_nv w), v_primary = soft_primary w\<rparr>"

text \<open>A new device with an owner seed: nothing open, nothing loaded, nothing persistent.\<close>

definition soft_new :: "bytes \<Rightarrow> soft" where
  "soft_new s = \<lparr>sw_seed = s, sw_open = [], sw_tr = [], sw_cur = [], sw_nv = []\<rparr>"

definition forget :: "'a \<Rightarrow> ('a \<times> 'b) list \<Rightarrow> ('a \<times> 'b) list" where
  "forget k xs = filter (\<lambda>e. fst e \<noteq> k) xs"

definition set_tr :: "context_id \<Rightarrow> object_handle \<Rightarrow> skey entity \<Rightarrow> soft \<Rightarrow> soft" where
  "set_tr c h e w = w\<lparr>sw_tr := ((c, h), e) # sw_tr w\<rparr>"

definition del_tr :: "context_id \<Rightarrow> object_handle \<Rightarrow> soft \<Rightarrow> soft" where
  "del_tr c h w = w\<lparr>sw_tr := forget (c, h) (sw_tr w)\<rparr>"

fun handle_number :: "object_handle \<Rightarrow> nat" where
  "handle_number (ObjectHandle n) = n"

definition fresh_nat :: "nat list \<Rightarrow> nat" where
  "fresh_nat ns = Suc (foldr max ns 0)"

definition fresh_handle :: "soft \<Rightarrow> nat" where
  "fresh_handle w = fresh_nat (map (handle_number \<circ> snd \<circ> fst) (sw_tr w))"

definition soft_user_auth :: "soft \<Rightarrow> context_id \<Rightarrow> bool" where
  "soft_user_auth w c = (case map_of (sw_cur w) c of
      None \<Rightarrow> False
    | Some s \<Rightarrow> (case map_of (sw_tr w) (c, object_of_session s) of
        Some (Session SessionHmac d) \<Rightarrow> True
      | _ \<Rightarrow> False))"

section \<open>The calls\<close>

definition require :: "bool \<Rightarrow> (soft, 'a, tss_error) rs \<Rightarrow> (soft, 'a, tss_error) rs" where
  "require b m = (\<lambda>w. if b then m w else (Err (soft_error ''refused''), w))"

definition soft_open :: "soft \<Rightarrow> context_id \<Rightarrow> bool" where
  "soft_open w c = (c \<in> set (sw_open w))"

definition soft_reachable :: "tcti \<Rightarrow> bool" where
  "soft_reachable tc = (tc = TctiNameConf ''swtpm'')"

definition soft_context_new :: "tcti \<Rightarrow> (soft, context_id, tss_error) rs" where
  "soft_context_new tc = require (soft_reachable tc) (\<lambda>w.
     let c = fresh_nat (sw_open w)
     in (Ok c, w\<lparr>sw_open := c # sw_open w,
         sw_tr := filter (\<lambda>e. fst (fst e) \<noteq> c) (sw_tr w), sw_cur := forget c (sw_cur w)\<rparr>))"

text \<open>Adds an entity under a fresh handle.\<close>

definition soft_add :: "context_id \<Rightarrow> skey entity \<Rightarrow> (soft, object_handle, tss_error) rs" where
  "soft_add c e = (\<lambda>w. let h = ObjectHandle (fresh_handle w) in
     if soft_open w c then (Ok h, set_tr c h e w) else (Err (soft_error ''context''), w))"

definition soft_set_session :: "context_id \<Rightarrow> auth_session option \<Rightarrow> soft \<Rightarrow> soft" where
  "soft_set_session c cur w = (case cur of
      None \<Rightarrow> w\<lparr>sw_cur := forget c (sw_cur w)\<rparr>
    | Some s \<Rightarrow> w\<lparr>sw_cur := (c, s) # sw_cur w\<rparr>)"

definition soft_start_session :: "context_id \<Rightarrow> session_type \<Rightarrow> (soft, auth_session, tss_error) rs" where
  "soft_start_session c ty =
     bindR (soft_add c (Session ty [])) (\<lambda>h. ret (AuthSession (handle_number h)))"

definition soft_nullauth_begin :: "context_id \<Rightarrow> (soft, auth_session, tss_error) rs" where
  "soft_nullauth_begin c =
     bindR (soft_start_session c SessionHmac) (\<lambda>s w. (Ok s, soft_set_session c (Some s) w))"

definition soft_flush :: "context_id \<Rightarrow> object_handle \<Rightarrow> (soft, unit, tss_error) rs" where
  "soft_flush c h = (\<lambda>w. case map_of (sw_tr w) (c, h) of
      None \<Rightarrow> (Err (soft_error ''handle''), w)
    | Some e \<Rightarrow> if is_persistent e then (Err (soft_error ''persistent''), w)
        else (Ok (), del_tr c h w))"

definition soft_nullauth_end :: "context_id \<Rightarrow> auth_session \<Rightarrow> (soft, unit, tss_error) rs" where
  "soft_nullauth_end c s = (\<lambda>w. soft_flush c (object_of_session s) (soft_set_session c None w))"

definition soft_policy_command_code ::
  "context_id \<Rightarrow> policy_session \<Rightarrow> command_code \<Rightarrow> (soft, unit, tss_error) rs" where
  "soft_policy_command_code c s cc = (\<lambda>w. case s of PolicySession n \<Rightarrow>
     (case map_of (sw_tr w) (c, ObjectHandle n) of
        Some (Session ty d) \<Rightarrow>
          (Ok (), set_tr c (ObjectHandle n) (Session ty (soft_extend d cc)) w)
      | _ \<Rightarrow> (Err (soft_error ''session''), w)))"

definition soft_policy_get_digest ::
  "context_id \<Rightarrow> policy_session \<Rightarrow> (soft, digest, tss_error) rs" where
  "soft_policy_get_digest c s = (\<lambda>w. case s of PolicySession n \<Rightarrow>
     (case map_of (sw_tr w) (c, ObjectHandle n) of
        Some (Session ty d) \<Rightarrow> (Ok d, w)
      | _ \<Rightarrow> (Err (soft_error ''session''), w)))"

definition soft_create_primary ::
  "context_id \<Rightarrow> hierarchy \<Rightarrow> public \<Rightarrow> (soft, key_handle, tss_error) rs" where
  "soft_create_primary c hier t = (\<lambda>w.
     if soft_user_auth w c \<and> storage_template t
     then bindR (soft_add c (TransientKey (soft_primary w t))) (\<lambda>h. ret (key_of_object h)) w
     else (Err (soft_error ''create_primary''), w))"

text \<open>Runs a command on the key behind a handle.\<close>

definition with_key ::
  "context_id \<Rightarrow> object_handle \<Rightarrow> (skey \<Rightarrow> (soft, 'a, tss_error) rs) \<Rightarrow> (soft, 'a, tss_error) rs" where
  "with_key c h f = (\<lambda>w.
     case Option.bind (map_of (sw_tr w) (c, h)) (entity_key (map_of (sw_nv w))) of
       Some k \<Rightarrow> f k w
     | None \<Rightarrow> (Err (soft_error ''handle''), w))"

definition soft_read_public ::
  "context_id \<Rightarrow> key_handle \<Rightarrow> (soft, public \<times> bytes \<times> bytes, tss_error) rs" where
  "soft_read_public c kh = with_key c (object_of_key kh) (\<lambda>k.
     ret (soft_public k, soft_name (soft_public k), soft_name (soft_public k)))"

definition soft_create ::
  "context_id \<Rightarrow> key_handle \<Rightarrow> public \<Rightarrow> sensitive_data option \<Rightarrow>
     (soft, tpm_private \<times> public, tss_error) rs" where
  "soft_create c kh t data = with_key c (object_of_key kh) (\<lambda>k w.
     if soft_user_auth w c \<and> sealing_template (oa_fixed_tpm (k_attributes k)) t
     then (Ok (Private (skey_bytes k @ (case data of None \<Rightarrow> [] | Some d \<Rightarrow> sensitive_value d)),
         t\<lparr>pub_unique := []\<rparr>), w)
     else (Err (soft_error ''create''), w))"

definition soft_load ::
  "context_id \<Rightarrow> key_handle \<Rightarrow> tpm_private \<Rightarrow> public \<Rightarrow> (soft, key_handle, tss_error) rs" where
  "soft_load c kh priv p = with_key c (object_of_key kh) (\<lambda>k w.
     let n = length (skey_bytes k); content = drop n (private_value priv) in
     if \<not> soft_user_auth w c \<or> take n (private_value priv) \<noteq> skey_bytes k
     then (Err (soft_error ''integrity''), w)
     else if pub_algorithm p = KeyedHash
     then bindR (soft_add c (SealedObject content)) (\<lambda>h. ret (key_of_object h)) w
     else if p = soft_public (skey_of_bytes content)
     then bindR (soft_add c (TransientKey (skey_of_bytes content))) (\<lambda>h. ret (key_of_object h)) w
     else (Err (soft_error ''binding''), w))"

definition soft_unseal :: "context_id \<Rightarrow> object_handle \<Rightarrow> (soft, sensitive_data, tss_error) rs" where
  "soft_unseal c h = (\<lambda>w. case map_of (sw_tr w) (c, h) of
      Some (SealedObject d) \<Rightarrow> if soft_user_auth w c then (Ok (SensitiveData d), w)
        else (Err (soft_error ''auth''), w)
    | _ \<Rightarrow> (Err (soft_error ''handle''), w))"

definition soft_load_external ::
  "context_id \<Rightarrow> public \<Rightarrow> hierarchy \<Rightarrow> (soft, key_handle, tss_error) rs" where
  "soft_load_external c p hier =
     bindR (soft_add c (ExternalKey p)) (\<lambda>h. ret (key_of_object h))"

definition soft_duplicate ::
  "context_id \<Rightarrow> object_handle \<Rightarrow> object_handle \<Rightarrow> tpm_data option \<Rightarrow> symmetric \<Rightarrow>
     (soft, tpm_data \<times> tpm_private \<times> encrypted_secret, tss_error) rs" where
  "soft_duplicate c h parent ek alg = with_key c h (\<lambda>k w.
     if policy_auth (soft_view w) c (pub_auth_policy (soft_public k)) \<and>
        \<not> oa_fixed_tpm (k_attributes k) \<and> \<not> oa_fixed_parent (k_attributes k)
     then (case map_of (sw_tr w) (c, parent) of
         Some (ExternalKey p) \<Rightarrow>
           (Ok (Data [], Private (skey_bytes k), EncryptedSecret (pub_unique p)), w)
       | _ \<Rightarrow> (Err (soft_error ''parent''), w))
     else (Err (soft_error ''policy''), w))"

definition soft_import ::
  "context_id \<Rightarrow> object_handle \<Rightarrow> tpm_data option \<Rightarrow> public \<Rightarrow> tpm_private \<Rightarrow>
     encrypted_secret \<Rightarrow> symmetric \<Rightarrow> (soft, tpm_private, tss_error) rs" where
  "soft_import c h ek p priv sec alg = with_key c h (\<lambda>kt w.
     if soft_user_auth w c \<and> secret_value sec = pub_unique (soft_public kt) \<and>
        p = soft_public (skey_of_bytes (private_value priv))
     then (Ok (Private (skey_bytes kt @ private_value priv)), w)
     else (Err (soft_error ''import''), w))"

definition soft_evict ::
  "context_id \<Rightarrow> provision \<Rightarrow> object_handle \<Rightarrow> u32 \<Rightarrow> (soft, object_handle, tss_error) rs" where
  "soft_evict c prov h ph = (\<lambda>w. case map_of (sw_tr w) (c, h) of
      Some (TransientKey k) \<Rightarrow>
        (if soft_user_auth w c \<and> map_of (sw_nv w) ph = None
         then bindR (soft_add c (PersistentKey ph k)) (\<lambda>h' w'.
           (Ok h', w'\<lparr>sw_nv := (ph, k) # sw_nv w'\<rparr>)) w
         else (Err (soft_error ''occupied''), w))
    | Some (PersistentKey ph' k) \<Rightarrow>
        (if soft_user_auth w c \<and> ph' = ph \<and> map_of (sw_nv w) ph = Some k
         then (Ok h, (del_tr c h w)\<lparr>sw_nv := forget ph (sw_nv w)\<rparr>)
         else (Err (soft_error ''evict''), w))
    | _ \<Rightarrow> (Err (soft_error ''handle''), w))"

definition soft_tr_from_public :: "context_id \<Rightarrow> u32 \<Rightarrow> (soft, object_handle, tss_error) rs" where
  "soft_tr_from_public c ph = (\<lambda>w. case map_of (sw_nv w) ph of
      Some k \<Rightarrow> soft_add c (PersistentKey ph k) w
    | None \<Rightarrow> (Err (soft_error ''handle''), w))"

definition soft_tss :: "soft tss" where
  "soft_tss =
     \<lparr>tcti_from_str = (\<lambda>s. if s = [] then Err (soft_error ''tcti'') else Ok (TctiNameConf s)),
      tss_display = (\<lambda>e. case e of WrapperError s \<Rightarrow> s | Tss2Error n \<Rightarrow> show_nat (unat n)),
      sha256 = soft_digest,
      hex_encode = soft_hex,
      object_attributes_build = Ok,
      rsa_parameters_build = Ok,
      public_build = Ok,
      public_marshall = soft_marshall,
      public_unmarshall = soft_unmarshall,
      private_try_from = (\<lambda>b. Ok (Private b)),
      sensitive_data_try_from =
        (\<lambda>b. if length b \<le> 128 then Ok (SensitiveData b) else Err (soft_error ''size'')),
      encrypted_secret_try_from = (\<lambda>b. Ok (EncryptedSecret b)),
      data_try_from = (\<lambda>b. Ok (Data b)),
      persistent_tpm_handle_new =
        (\<lambda>h. if 0x81000000 \<le> h \<and> h \<le> 0x81FFFFFF then Ok h else Err (soft_error ''range'')),
      policy_session_try_from = (\<lambda>s. case s of AuthSession n \<Rightarrow> Ok (PolicySession n)),
      context_new = soft_context_new,
      nullauth_begin = soft_nullauth_begin,
      nullauth_end = soft_nullauth_end,
      get_session = (\<lambda>c w. map_of (sw_cur w) c),
      set_session = soft_set_session,
      start_auth_session = (\<lambda>c ty alg hash. bindR (soft_start_session c ty) (\<lambda>s. ret (Some s))),
      tr_sess_set_attributes = (\<lambda>c s attrs msk. ret ()),
      policy_command_code = soft_policy_command_code,
      policy_get_digest = soft_policy_get_digest,
      flush_context = soft_flush,
      create_primary = soft_create_primary,
      read_public = soft_read_public,
      create = soft_create,
      load = soft_load,
      unseal_object = soft_unseal,
      load_external_public = soft_load_external,
      duplicate_object = soft_duplicate,
      import_object = soft_import,
      evict_control = soft_evict,
      tr_from_tpm_public = soft_tr_from_public\<rparr>"

text \<open>The relations of the contract on this device.\<close>

definition soft_sealed_under :: "skey \<Rightarrow> public \<Rightarrow> tpm_private \<Rightarrow> bytes \<Rightarrow> bool" where
  "soft_sealed_under k p priv d = (pub_algorithm p = KeyedHash \<and> priv = Private (skey_bytes k @ d))"

definition soft_wrapped_for ::
  "public \<Rightarrow> skey \<Rightarrow> tpm_data \<Rightarrow> tpm_private \<Rightarrow> encrypted_secret \<Rightarrow> bool" where
  "soft_wrapped_for p k ek priv sec =
     (priv = Private (skey_bytes k) \<and> sec = EncryptedSecret (pub_unique p))"

definition soft_imported_under :: "skey \<Rightarrow> skey \<Rightarrow> tpm_private \<Rightarrow> bool" where
  "soft_imported_under kt k priv = (priv = Private (skey_bytes kt @ skey_bytes k))"

section \<open>Round trips of the encodings\<close>

lemma attribute_bytes_length [simp]: "length (attribute_bytes a) = 11"
  by (simp add: attribute_bytes_def)

lemma bit_byte_eq_1 [simp]: "bit_byte b = 1 \<longleftrightarrow> b"
  by (simp add: bit_byte_def)

lemma attributes_of_bytes_of [simp]: "attributes_of_bytes (attribute_bytes a) = a"
  by (simp add: attributes_of_bytes_def attribute_bytes_def)

lemma takeWhile_unary: "takeWhile (\<lambda>b. b = 1) (replicate n 1 @ (0 :: byte) # r) = replicate n 1"
  by (induction n) simp_all

lemma skey_of_bytes_of [simp]: "skey_of_bytes (skey_bytes k) = k"
  by (simp add: skey_of_bytes_def skey_bytes_def takeWhile_unary)

lemma soft_decode_encode:
  assumes "length (pub_auth_policy p) \<le> 64" and "pub_name_hashing p = Sha256"
    and "pub_algorithm p = Rsa \<and> pub_parameters p = RsaParameters AES_128_CFB Rsa2048 0 \<or>
      pub_algorithm p = KeyedHash \<and> pub_parameters p = KeyedHashParameters SchemeNull"
  shows "soft_decode (soft_encode p) = Some p"
proof -
  have "unat (of_nat (length (pub_auth_policy p)) :: byte) = length (pub_auth_policy p)"
    using assms(1) by (simp add: unat_of_nat take_bit_eq_mod)
  then show ?thesis using assms(2,3) by (auto simp: soft_encode_def)
qed

lemma soft_marshall_ok:
  assumes "length (pub_auth_policy p) \<le> 64" and "pub_name_hashing p = Sha256"
    and "pub_algorithm p = Rsa \<and> pub_parameters p = RsaParameters AES_128_CFB Rsa2048 0 \<or>
      pub_algorithm p = KeyedHash \<and> pub_parameters p = KeyedHashParameters SchemeNull"
    and "length (pub_unique p) \<le> 32"
  shows "soft_marshall p = Ok (soft_encode p)"
  using assms by (simp add: soft_marshall_def soft_decode_encode [OF assms(1-3)])
    (simp add: soft_encode_def)

lemma soft_unmarshall_marshall: "soft_marshall p = Ok b \<Longrightarrow> soft_unmarshall b = Ok p"
  by (auto simp: soft_marshall_def soft_unmarshall_def split: if_splits)

lemma hex_digit_ascii: "n < 16 \<Longrightarrow> of_char (hex_digit n) < (128 :: nat)"
  by (simp add: hex_digit_def)

lemma soft_hex_length: "length (soft_hex b) = 2 * length b"
  by (induction b) (simp_all add: soft_hex_def)

lemma soft_hex_ascii: "c \<in> set (soft_hex b) \<Longrightarrow> of_char c < (128 :: nat)"
  by (auto simp: soft_hex_def less_mult_imp_div_less intro!: hex_digit_ascii)

section \<open>The view of the device\<close>

lemma map_of_forget [simp]: "map_of (forget k xs) = (map_of xs)(k := None)"
  unfolding forget_def by (induction xs) (auto simp: fun_eq_iff)

lemma map_of_filter_context:
  "map_of (filter (\<lambda>e. fst (fst e) \<noteq> c) xs) (c', h) = (if c' = c then None else map_of xs (c', h))"
  by (induction xs) auto

lemma fresh_nat_gt: "n \<in> set ns \<Longrightarrow> n < fresh_nat ns"
  unfolding fresh_nat_def by (induction ns) auto

lemma fresh_nat_notin [simp]: "fresh_nat ns \<notin> set ns"
  using fresh_nat_gt by blast

lemma fresh_handle_free [simp]: "map_of (sw_tr w) (c, ObjectHandle (fresh_handle w)) = None"
proof -
  have "(c, ObjectHandle (fresh_handle w)) \<notin> fst ` set (sw_tr w)"
    using fresh_nat_notin [of "map (handle_number \<circ> snd \<circ> fst) (sw_tr w)"]
    by (force simp: fresh_handle_def)
  then show ?thesis by (simp add: map_of_eq_None_iff)
qed

lemma soft_primary_more [simp]:
  "soft_primary (w\<lparr>sw_tr := a\<rparr>) = soft_primary w" "soft_primary (w\<lparr>sw_cur := b\<rparr>) = soft_primary w"
  "soft_primary (w\<lparr>sw_nv := d\<rparr>) = soft_primary w" "soft_primary (w\<lparr>sw_open := e\<rparr>) = soft_primary w"
  by (simp_all add: soft_primary_def fun_eq_iff)

lemma soft_view_components [simp]:
  "v_open (soft_view w) c = (c \<in> set (sw_open w))" "v_tr (soft_view w) c h = map_of (sw_tr w) (c, h)"
  "v_cur (soft_view w) = map_of (sw_cur w)" "v_nv (soft_view w) = map_of (sw_nv w)"
  "v_primary (soft_view w) = soft_primary w"
  by (simp_all add: soft_view_def)

lemma soft_view_set_tr [simp]: "soft_view (set_tr c h e w) = put_tr c h (Some e) (soft_view w)"
  by (auto simp: soft_view_def set_tr_def put_tr_def fun_eq_iff)

lemma soft_view_del_tr [simp]: "soft_view (del_tr c h w) = put_tr c h None (soft_view w)"
  by (auto simp: soft_view_def del_tr_def put_tr_def fun_eq_iff)

lemma soft_view_set_session [simp]:
  "soft_view (soft_set_session c cur w) = put_cur c cur (soft_view w)"
  by (auto simp: soft_view_def soft_set_session_def put_cur_def split: option.splits)

lemma soft_set_session_fields [simp]:
  "sw_tr (soft_set_session c cur w) = sw_tr w" "sw_open (soft_set_session c cur w) = sw_open w"
  by (simp_all add: soft_set_session_def split: option.splits)

lemma soft_view_put_nv [simp]:
  "soft_view (w\<lparr>sw_nv := (ph, k) # sw_nv w\<rparr>) = put_nv ph (Some k) (soft_view w)"
  "soft_view (w\<lparr>sw_nv := forget ph (sw_nv w)\<rparr>) = put_nv ph None (soft_view w)"
  by (auto simp: soft_view_def put_nv_def)

lemma soft_view_evict [simp]:
  "soft_view ((del_tr c h w)\<lparr>sw_nv := forget ph (sw_nv w)\<rparr>) =
     put_nv ph None (put_tr c h None (soft_view w))"
  using soft_view_put_nv(2) [of ph "del_tr c h w"] soft_view_del_tr [of c h w]
  unfolding del_tr_def by simp

lemma soft_public_attributes [simp]: "pub_attributes (soft_public k) = k_attributes k"
  by (simp add: soft_public_def)

lemma soft_user_auth_iff [simp]: "soft_user_auth w c = user_auth (soft_view w) c"
  by (auto simp: soft_user_auth_def user_auth_def split: option.splits entity.splits session_type.splits)

lemma soft_add_ok:
  assumes "c \<in> set (sw_open w)"
  shows "soft_add c e w = (Ok (ObjectHandle (fresh_handle w)), set_tr c (ObjectHandle (fresh_handle w)) e w)"
  using assms by (simp add: soft_add_def soft_open_def Let_def)

lemma with_key_at: "key_at (soft_view w) c kh = Some k \<Longrightarrow> with_key c (object_of_key kh) f w = f k w"
  by (simp add: with_key_def key_at_def)

lemma soft_tss_fields [simp]:
  "tcti_from_str soft_tss s = (if s = [] then Err (soft_error ''tcti'') else Ok (TctiNameConf s))"
  "context_new soft_tss = soft_context_new" "nullauth_begin soft_tss = soft_nullauth_begin"
  "nullauth_end soft_tss = soft_nullauth_end" "get_session soft_tss = (\<lambda>c w. map_of (sw_cur w) c)"
  "set_session soft_tss = soft_set_session"
  "public_marshall soft_tss = soft_marshall" "public_unmarshall soft_tss = soft_unmarshall"
  "private_try_from soft_tss b = Ok (Private b)" "data_try_from soft_tss b = Ok (Data b)"
  "encrypted_secret_try_from soft_tss b = Ok (EncryptedSecret b)"
  "policy_session_try_from soft_tss (AuthSession n) = Ok (PolicySession n)"
  "start_auth_session soft_tss c ty alg hash = bindR (soft_start_session c ty) (\<lambda>s. ret (Some s))"
  "tr_sess_set_attributes soft_tss c a attrs msk = ret ()"
  "policy_command_code soft_tss = soft_policy_command_code"
  "policy_get_digest soft_tss = soft_policy_get_digest"
  "flush_context soft_tss = soft_flush" "create_primary soft_tss = soft_create_primary"
  "read_public soft_tss = soft_read_public" "create soft_tss = soft_create"
  "load soft_tss = soft_load" "unseal_object soft_tss = soft_unseal"
  "load_external_public soft_tss = soft_load_external" "duplicate_object soft_tss = soft_duplicate"
  "import_object soft_tss = soft_import" "evict_control soft_tss = soft_evict"
  "tr_from_tpm_public soft_tss = soft_tr_from_public"
  by (simp_all add: soft_tss_def)

interpretation soft_codec: tss_codec soft_tss
proof
  fix p b
  assume "public_marshall soft_tss p = Ok b"
  then show "public_unmarshall soft_tss b = Ok p" "length b < 65536"
    by (auto simp: soft_unmarshall_marshall) (simp add: soft_marshall_def split: if_splits)
qed (auto simp: soft_tss_def soft_digest_def soft_hex_length soft_hex_ascii)


lemma soft_context_new_view:
  assumes "soft_reachable tc"
  shows "runs_ok (soft_context_new tc) w
    (\<lambda>c w'. \<not> v_open (soft_view w) c \<and> soft_view w' = open_context c (soft_view w))"
proof -
  have "soft_view (w\<lparr>sw_open := c # sw_open w, sw_tr := filter (\<lambda>e. fst (fst e) \<noteq> c) (sw_tr w),
      sw_cur := forget c (sw_cur w)\<rparr>) = open_context c (soft_view w)" for c
    by (auto simp: soft_view_def open_context_def map_of_filter_context fun_eq_iff)
  with assms show ?thesis
    by (simp add: soft_context_new_def require_def runs_ok_iff Let_def)
qed

lemma object_of_session_number [simp]: "object_of_session (AuthSession (handle_number h)) = h"
  by (cases h) simp

lemmas soft_run = runs_ok_iff runs_err_def bindR_apply soft_add_ok idle_def

lemma soft_load_ok:
  assumes "c \<in> set (sw_open w)" and "user_auth (soft_view w) c"
    and "key_at (soft_view w) c kh = Some k" and "priv = Private (skey_bytes k @ d)"
  shows "pub_algorithm p = KeyedHash \<Longrightarrow> runs_ok (soft_load c kh priv p) w
      (\<lambda>h w'. v_tr (soft_view w) c (object_of_key h) = None \<and>
         soft_view w' = put_tr c (object_of_key h) (Some (SealedObject d)) (soft_view w))"
    and "p = soft_public (skey_of_bytes d) \<Longrightarrow> runs_ok (soft_load c kh priv p) w
      (\<lambda>h w'. v_tr (soft_view w) c (object_of_key h) = None \<and>
         soft_view w' = put_tr c (object_of_key h) (Some (TransientKey (skey_of_bytes d))) (soft_view w))"
  using assms by (auto simp: soft_load_def with_key_at soft_run Let_def soft_public_def)

interpretation soft_device: tpm_device soft_tss soft_view soft_public soft_name
  soft_sealed_under soft_wrapped_for soft_imported_under soft_extend soft_reachable
proof (unfold_locales, goal_cases)
  case (1 k)
  then show ?case by (auto simp: soft_public_def intro!: exI soft_marshall_ok)
next
  case (2 tc w)
  then show ?case by (simp add: soft_context_new_view del: soft_view_components)
next
  case (3 w c)
  then show ?case by (auto simp: soft_nullauth_begin_def soft_start_session_def soft_run)
next
  case (4 w c s)
  then show ?case
    by (auto simp: soft_nullauth_end_def soft_flush_def soft_run put_cur_put_tr)
next
  case (5 c w)
  then show ?case by simp
next
  case (6 c cur w)
  then show ?case by simp
next
  case (7 w c ty)
  then show ?case by (auto simp: soft_start_session_def soft_run)
next
  case (11 pd cc)
  then show ?case by (simp add: soft_extend_def soft_digest_def)
next
  case (16 t w)
  then show ?case by (simp add: soft_primary_def soft_public_def storage_template_def)
next
  case (18 w c kh k t d)
  then show ?case
    by (auto simp: soft_create_def with_key_at soft_run soft_public_def soft_sealed_under_def
        sealing_template_def intro!: exI soft_marshall_ok)
next
  case (19 w c kh k p priv d)
  then show ?case
    using soft_load_ok(1) [of c w kh k priv d p] by (simp add: soft_sealed_under_def)
next
  case (20 w c kh kt k priv)
  then show ?case
    using soft_load_ok(2) [of c w kh kt priv "skey_bytes k" "soft_public k"]
    by (simp add: soft_imported_under_def)
next
  case (26 w c oh k ph)
  then show ?case by (auto simp: soft_evict_def soft_run)
qed (auto simp: soft_run soft_policy_command_code_def soft_policy_get_digest_def
   soft_flush_def soft_create_primary_def soft_read_public_def with_key_at soft_unseal_def
   soft_load_external_def soft_duplicate_def soft_import_def soft_evict_def soft_tr_from_public_def
   soft_wrapped_for_def soft_imported_under_def split: session_type.splits)

end
