(* ===== verification/Host.thy ===== *)
theory Host
  imports Prelude
begin

text \<open>
  The parts of the Rust standard library through which the program sees its host:
  UTF-8 validity and the file system. A file system maps paths to what is found
  there; reading distinguishes the causes of failure the callers report.
\<close>

section \<open>UTF-8\<close>

definition in_range :: "nat \<Rightarrow> nat \<Rightarrow> byte \<Rightarrow> bool" where
  "in_range lo hi b = (lo \<le> unat b \<and> unat b \<le> hi)"

definition is_cont :: "byte \<Rightarrow> bool" where
  "is_cont b = in_range 0x80 0xBF b"

text \<open>The well-formed byte sequences of the Unicode standard, as \<open>str::from_utf8\<close> accepts them.\<close>

fun valid_utf8 :: "bytes \<Rightarrow> bool" where
  "valid_utf8 [] = True"
| "valid_utf8 (b # r) =
     (if in_range 0 0x7F b then valid_utf8 r
      else if in_range 0xC2 0xDF b then
        (case r of c # r' \<Rightarrow> is_cont c \<and> valid_utf8 r' | _ \<Rightarrow> False)
      else if in_range 0xE0 0xEF b then
        (case r of c # d # r' \<Rightarrow>
            in_range (if b = 0xE0 then 0xA0 else 0x80) (if b = 0xED then 0x9F else 0xBF) c \<and>
            is_cont d \<and> valid_utf8 r'
         | _ \<Rightarrow> False)
      else if in_range 0xF0 0xF4 b then
        (case r of c # d # e # r' \<Rightarrow>
            in_range (if b = 0xF0 then 0x90 else 0x80) (if b = 0xF4 then 0x8F else 0xBF) c \<and>
            is_cont d \<and> is_cont e \<and> valid_utf8 r'
         | _ \<Rightarrow> False)
      else False)"

definition string_of_bytes :: "bytes \<Rightarrow> string" where
  "string_of_bytes b = map (\<lambda>x. char_of (unat x)) b"

definition bytes_of_string :: "string \<Rightarrow> bytes" where
  "bytes_of_string s = map (\<lambda>c. of_nat (of_char c)) s"

lemma length_bytes_of_string [simp]: "length (bytes_of_string s) = length s"
  by (simp add: bytes_of_string_def)

lemma string_of_bytes_of_string [simp]: "string_of_bytes (bytes_of_string s) = s"
  by (induction s)
    (simp_all add: string_of_bytes_def bytes_of_string_def unat_of_nat take_bit_eq_mod)

section \<open>The file system\<close>

datatype io_error =
    NotFound | AccessDenied | InvalidData | IsADirectory | NotADirectory | AlreadyExists
  | AddrInUse | InvalidInput | OtherIo

text \<open>An entry that the process may not read answers every access with its error.\<close>

datatype fs_node = File bytes | Directory | Socket nat | Inaccessible io_error

type_synonym fs = "string \<Rightarrow> fs_node option"

definition fs_read :: "fs \<Rightarrow> string \<Rightarrow> (bytes, io_error) outcome" where
  "fs_read fs path = (case fs path of
      None \<Rightarrow> Err NotFound
    | Some (File b) \<Rightarrow> Ok b
    | Some Directory \<Rightarrow> Err IsADirectory
    | Some (Socket m) \<Rightarrow> Err OtherIo
    | Some (Inaccessible e) \<Rightarrow> Err e)"

definition fs_read_to_string :: "fs \<Rightarrow> string \<Rightarrow> (string, io_error) outcome" where
  "fs_read_to_string fs path = obind (fs_read fs path) (\<lambda>b.
     if valid_utf8 b then Ok (string_of_bytes b) else Err InvalidData)"

text \<open>\<open>metadata(path)?.len()\<close>; the size of a directory is that of one block.\<close>

definition fs_metadata_len :: "fs \<Rightarrow> string \<Rightarrow> (nat, io_error) outcome" where
  "fs_metadata_len fs path = (case fs path of
      None \<Rightarrow> Err NotFound
    | Some (File b) \<Rightarrow> Ok (length b)
    | Some Directory \<Rightarrow> Ok 4096
    | Some (Socket m) \<Rightarrow> Ok 0
    | Some (Inaccessible e) \<Rightarrow> Err e)"

text \<open>
  \<open>Path::parent\<close>, on the reversed path: trailing separators and \<open>.\<close> components do
  not count, and neither the root nor the empty path has a parent.
\<close>

fun trim_back :: "string \<Rightarrow> string" where
  "trim_back (c # d # r) =
     (if c = CHR ''/'' \<or> (c = CHR ''.'' \<and> d = CHR ''/'') then trim_back (d # r) else c # d # r)"
| "trim_back r = r"

definition path_parent :: "string \<Rightarrow> string option" where
  "path_parent path =
     (let r = trim_back (rev path) in
      if r = [] \<or> r = ''/'' then None
      else Some (rev (trim_back (dropWhile (\<lambda>c. c \<noteq> CHR ''/'') r))))"

definition fs_exists :: "fs \<Rightarrow> string \<Rightarrow> bool" where
  "fs_exists fs path = (case fs path of
      None \<Rightarrow> False | Some (Inaccessible e) \<Rightarrow> False | Some _ \<Rightarrow> True)"

definition fs_is_dir :: "fs \<Rightarrow> string \<Rightarrow> bool" where
  "fs_is_dir fs path = (fs path = Some Directory)"

text \<open>
  The directory in which a path is created or removed must be there; the empty path
  is the working directory.
\<close>

definition fs_parent_dir :: "fs \<Rightarrow> string \<Rightarrow> (unit, io_error) outcome" where
  "fs_parent_dir fs path = (case path_parent path of
      None \<Rightarrow> Err AlreadyExists
    | Some d \<Rightarrow>
        if d = [] then Ok ()
        else (case fs d of
            None \<Rightarrow> Err NotFound
          | Some Directory \<Rightarrow> Ok ()
          | Some (Inaccessible e) \<Rightarrow> Err e
          | Some _ \<Rightarrow> Err NotADirectory))"

definition mkdir :: "string \<Rightarrow> (fs, unit, io_error) rs" where
  "mkdir path = (\<lambda>fs. case fs_parent_dir fs path of
      Ok _ \<Rightarrow> if fs path = None then (Ok (), fs(path \<mapsto> Directory)) else (Err AlreadyExists, fs)
    | r \<Rightarrow> (r, fs))"

definition remove_file :: "string \<Rightarrow> (fs, unit, io_error) rs" where
  "remove_file path = (\<lambda>fs. case fs path of
      None \<Rightarrow> (Err NotFound, fs)
    | Some Directory \<Rightarrow> (Err IsADirectory, fs)
    | Some (Inaccessible e) \<Rightarrow> (Err e, fs)
    | Some _ \<Rightarrow> (Ok (), fs(path := None)))"

text \<open>The mode is part of the state for sockets only.\<close>

definition set_permissions :: "string \<Rightarrow> nat \<Rightarrow> (fs, unit, io_error) rs" where
  "set_permissions path mode = (\<lambda>fs. case fs path of
      None \<Rightarrow> (Err NotFound, fs)
    | Some (Inaccessible e) \<Rightarrow> (Err e, fs)
    | Some (Socket m) \<Rightarrow> (Ok (), fs(path \<mapsto> Socket mode))
    | Some _ \<Rightarrow> (Ok (), fs))"

text \<open>
  \<open>UnixListener::bind\<close> creates the socket, with the mode that the process's umask
  leaves; a path of 108 bytes or more does not fit a socket address.
\<close>

definition unix_listener_bind :: "nat \<Rightarrow> string \<Rightarrow> (fs, unit, io_error) rs" where
  "unix_listener_bind umask_mode path = (\<lambda>fs.
     if 108 \<le> length path then (Err InvalidInput, fs)
     else (case fs_parent_dir fs path of
         Ok _ \<Rightarrow>
           if fs path = None then (Ok (), fs(path \<mapsto> Socket umask_mode)) else (Err AddrInUse, fs)
       | Err e \<Rightarrow> (Err (if e = AlreadyExists then AddrInUse else e), fs)
       | Panic s \<Rightarrow> (Panic s, fs)))"

lemma trim_back_length: "length (trim_back r) \<le> length r"
  by (induction r rule: trim_back.induct) auto

lemma trim_back_root: "trim_back r = CHR ''/'' # r' \<Longrightarrow> r' = []"
  by (induction r rule: trim_back.induct) (auto split: if_splits)

lemma path_parent_shorter:
  assumes "path_parent path = Some d"
  shows "length d < length path"
proof -
  obtain c r where r: "trim_back (rev path) = c # r" "c \<noteq> CHR ''/''"
    and d: "d = rev (trim_back (dropWhile (\<lambda>c. c \<noteq> CHR ''/'') r))"
    using assms trim_back_root
    by (cases "trim_back (rev path)") (auto simp: path_parent_def Let_def split: if_splits)
  have "length d \<le> length r"
    using trim_back_length [of "dropWhile (\<lambda>c. c \<noteq> CHR ''/'') r"]
      length_dropWhile_le [of "\<lambda>c. c \<noteq> CHR ''/''" r] by (simp add: d)
  also have "\<dots> < length path" using trim_back_length [of "rev path"] r(1) by simp
  finally show ?thesis .
qed

text \<open>
  \<open>std::fs::create_dir_all\<close>: a missing ancestor is created first; a directory that
  is already there is a success.
\<close>

function create_dir_all :: "string \<Rightarrow> (fs, unit, io_error) rs" where
  "create_dir_all path = (\<lambda>fs.
     if path = [] then (Ok (), fs)
     else (case mkdir path fs of
         (Err NotFound, _) \<Rightarrow>
           (case path_parent path of
              None \<Rightarrow> (Err OtherIo, fs)
            | Some d \<Rightarrow>
                (case create_dir_all d fs of
                   (Ok _, fs1) \<Rightarrow>
                     (case mkdir path fs1 of
                        (Err e, fs2) \<Rightarrow> if fs_is_dir fs2 path then (Ok (), fs2) else (Err e, fs2)
                      | r \<Rightarrow> r)
                 | r \<Rightarrow> r))
       | (Err e, _) \<Rightarrow> if fs_is_dir fs path then (Ok (), fs) else (Err e, fs)
       | r \<Rightarrow> r))"
  by pat_completeness auto
termination by (relation "measure length") (simp_all add: path_parent_shorter)

declare create_dir_all.simps [simp del]

text \<open>What the calls leave alone.\<close>

lemma fs_parent_dir_update:
  "length path \<le> length q \<Longrightarrow> fs_parent_dir (fs(q := x)) path = fs_parent_dir fs path"
  by (auto simp: fs_parent_dir_def dest!: path_parent_shorter split: option.split)

lemma mkdir_update:
  assumes "length path < length q"
  shows "mkdir path (fs(q := x)) = (fst (mkdir path fs), (snd (mkdir path fs))(q := x))"
  using assms fs_parent_dir_update [of path q fs x]
  by (auto simp: mkdir_def fun_upd_twist split: outcome.split)

lemma mkdir_frame: "length path < length q \<Longrightarrow> snd (mkdir path fs) q = fs q"
  by (auto simp: mkdir_def split: outcome.split)

lemma create_dir_all_update:
  assumes "length path < length q"
  shows "create_dir_all path (fs(q := x)) =
    (fst (create_dir_all path fs), (snd (create_dir_all path fs))(q := x))"
  using assms
proof (induction "length path" arbitrary: path fs rule: less_induct)
  case less
  have q: "fs_is_dir (fs(q := x)) path = fs_is_dir fs path" for fs
    using less.prems by (auto simp: fs_is_dir_def)
  obtain r1 fs1 where m: "mkdir path fs = (r1, fs1)" by fastforce
  note m' = mkdir_update [OF less.prems, of _ x]
  show ?case
  proof (cases "path_parent path")
    case None
    then show ?thesis
      by (subst (1 2 3) create_dir_all.simps) (simp add: m m' q split: outcome.split io_error.split)
  next
    case (Some d)
    then have "length d < length path" by (rule path_parent_shorter)
    then have ih: "create_dir_all d (fs(q := x)) =
        (fst (create_dir_all d fs), (snd (create_dir_all d fs))(q := x))"
      using less.prems by (intro less.hyps) simp_all
    obtain r2 fs2 where c: "create_dir_all d fs = (r2, fs2)" by fastforce
    obtain r3 fs3 where n: "mkdir path fs2 = (r3, fs3)" by fastforce
    show ?thesis using Some
      by (subst (1 2 3) create_dir_all.simps)
        (simp add: m m' q ih c n split: outcome.split io_error.split)
  qed
qed

lemma create_dir_all_frame:
  assumes "length path < length q"
  shows "snd (create_dir_all path fs) q = fs q"
  using create_dir_all_update [OF assms, of fs "fs q"] by (metis fun_upd_same fun_upd_triv snd_conv)

lemma mkdir_adds: "snd (mkdir path fs) q = fs q \<or> (fs q = None \<and> snd (mkdir path fs) q = Some Directory)"
  by (auto simp: mkdir_def split: outcome.split)

lemma create_dir_all_adds:
  "snd (create_dir_all path fs) q = fs q \<or> (fs q = None \<and> snd (create_dir_all path fs) q = Some Directory)"
proof (induction "length path" arbitrary: path fs rule: less_induct)
  case less
  obtain r1 fs1 where m: "mkdir path fs = (r1, fs1)" by fastforce
  note m1 = mkdir_adds [of path fs q, unfolded m]
  show ?case
  proof (cases "path_parent path")
    case None
    then show ?thesis using m1
      by (subst (1 2) create_dir_all.simps) (auto simp: m split: outcome.split io_error.split)
  next
    case (Some d)
    obtain r2 fs2 where c: "create_dir_all d fs = (r2, fs2)" by fastforce
    obtain r3 fs3 where n: "mkdir path fs2 = (r3, fs3)" by fastforce
    have "fs2 q = fs q \<or> (fs q = None \<and> fs2 q = Some Directory)"
      using less [OF path_parent_shorter [OF Some], of fs] by (simp add: c)
    then show ?thesis using Some m1 mkdir_adds [of path fs2 q]
      by (subst (1 2) create_dir_all.simps) (auto simp: m c n split: outcome.split io_error.split)
  qed
qed

lemma fs_read_to_string_Ok:
  "fs_read_to_string fs path = Ok s \<longleftrightarrow>
     (\<exists>b. fs path = Some (File b) \<and> valid_utf8 b \<and> s = string_of_bytes b)"
  by (auto simp: fs_read_to_string_def fs_read_def split: option.splits fs_node.splits if_splits)

lemma fs_read_no_panic: "\<not> is_panic (fs_read fs path)" "\<not> is_panic (fs_read_to_string fs path)"
  by (auto simp: fs_read_to_string_def fs_read_def split: option.splits fs_node.splits)

end
