(* ===== verification/Authz.thy ===== *)
theory Authz
  imports Prelude
begin

text \<open>
  \<open>src/src/authz.rs\<close>: the node identity behind a certificate's common name and the
  check that such a \<open>Node\<close> object exists. The Kubernetes API client is not part of
  the repository: \<open>kube\<close> holds the one call the code makes.
\<close>

datatype kube_client = KubeClient nat

datatype kube_error = KubeError string

record 'w kube =
  kube_get_node :: "kube_client \<Rightarrow> string \<Rightarrow> ('w, unit, kube_error) rs"

definition NODE_IDENTITY_PREFIX :: string where
  "NODE_IDENTITY_PREFIX = ''system:node:''"

datatype AuthzError = NotNodeIdentity string | UnknownNode string

definition node_name_from_cn :: "string \<Rightarrow> (string, AuthzError) outcome" where
  "node_name_from_cn cn = (case strip_prefix NODE_IDENTITY_PREFIX cn of
      None \<Rightarrow> Err (NotNodeIdentity cn)
    | Some name \<Rightarrow> if name = [] then Err (NotNodeIdentity cn) else Ok name)"

definition authorize_node :: "'w kube \<Rightarrow> kube_client \<Rightarrow> string \<Rightarrow> ('w, unit, AuthzError) rs" where
  "authorize_node K client node_name =
     bindR (map_err (\<lambda>_. UnknownNode node_name) (kube_get_node K client node_name)) (\<lambda>_. ret ())"

lemma node_name_from_cn_Ok_iff:
  "node_name_from_cn cn = Ok name \<longleftrightarrow> cn = NODE_IDENTITY_PREFIX @ name \<and> name \<noteq> []"
  by (auto simp: node_name_from_cn_def strip_prefix_iff strip_prefix_None_iff split: option.splits)

lemma node_name_from_cn_total:
  "node_name_from_cn cn = Err (NotNodeIdentity cn) \<or> (\<exists>name. node_name_from_cn cn = Ok name)"
  by (simp add: node_name_from_cn_def split: option.split)

lemma authorize_node_Ok_iff:
  "authorize_node K client node w = (Ok u, w') \<longleftrightarrow> kube_get_node K client node w = (Ok u, w')"
  by (auto simp: authorize_node_def bindR_Ok_iff)

end
