(* ===== verification/Certs.thy ===== *)
theory Certs
  imports Host Authz
begin

text \<open>
  \<open>src/src/certs.rs\<close>: the node's own identity, the server leaf that \<open>enroll\<close>
  presents, and the common name of a peer. The crates behind it (\<open>x509-parser\<close>,
  \<open>rcgen\<close>, \<open>rsa\<close>, \<open>time\<close>) are the fields of \<open>pki\<close>. A parsed certificate is
  what the code looks at: the list of the common name attributes of its subject,
  \<open>None\<close> for one that is not a string.
\<close>

section \<open>Third-party crates\<close>

datatype x509_certificate = X509 (common_names: "string option list")
datatype pem_block = Pem bytes
datatype key_pair = KeyPair bytes
datatype cert_issuer = Issuer bytes
datatype rsa_private_key = RsaPrivateKey bytes
datatype rcgen_error = RcgenError string
datatype pkcs_error = PkcsError string

datatype dn_type = CommonName | OtherDn string
datatype key_usage = DigitalSignature | OtherKeyUsage nat
datatype extended_key_usage = ServerAuth | ClientAuth | OtherExtendedKeyUsage nat

type_synonym distinguished_name = "(dn_type \<times> string) list"

text \<open>Times are nanoseconds since the Unix epoch.\<close>

record CertificateParams =
  cp_subject_alt_names :: "string list"
  cp_distinguished_name :: distinguished_name
  cp_use_authority_key_identifier_extension :: bool
  cp_key_usages :: "key_usage list"
  cp_extended_key_usages :: "extended_key_usage list"
  cp_not_before :: int
  cp_not_after :: int

record 'w pki =
  parse_x509_certificate :: "bytes \<Rightarrow> (x509_certificate, string) outcome"
  parse_x509_pem :: "bytes \<Rightarrow> (pem_block, string) outcome"
  pem_parse_x509 :: "pem_block \<Rightarrow> (x509_certificate, string) outcome"
  from_pkcs1_pem :: "string \<Rightarrow> (rsa_private_key, pkcs_error) outcome"
  to_pkcs8_pem :: "rsa_private_key \<Rightarrow> (string, pkcs_error) outcome"
  key_pair_from_pem :: "string \<Rightarrow> (key_pair, rcgen_error) outcome"
  issuer_from_ca_cert_pem :: "string \<Rightarrow> key_pair \<Rightarrow> (cert_issuer, rcgen_error) outcome"
  certificate_params_new :: "string list \<Rightarrow> (CertificateParams, rcgen_error) outcome"
  dn_push :: "distinguished_name \<Rightarrow> dn_type \<Rightarrow> string \<Rightarrow> distinguished_name"
  now_utc :: "'w \<Rightarrow> int"
  time_checked_sub :: "int \<Rightarrow> int \<Rightarrow> int option"
  time_checked_add :: "int \<Rightarrow> int \<Rightarrow> int option"
  key_pair_generate :: "('w, key_pair, rcgen_error) rs"
  signed_by :: "CertificateParams \<Rightarrow> key_pair \<Rightarrow> cert_issuer \<Rightarrow> (string, rcgen_error) outcome"
  serialize_pem :: "key_pair \<Rightarrow> string"

section \<open>Constants and errors\<close>

definition LEAF_CERT_VALIDITY_DAYS :: int where
  "LEAF_CERT_VALIDITY_DAYS = 1"

definition K0S_DEFAULT_DATA_DIR :: string where
  "K0S_DEFAULT_DATA_DIR = ''/var/lib/k0s''"

datatype CertError =
    CertRead string io_error
  | CertParse string string
  | NoCommonName string
  | CertAuthz AuthzError
  | CertRcgen rcgen_error
  | InvalidValidityWindow
  | CertPkcs1 pkcs_error
  | CertPkcs8 pkcs_error

definition duration_days :: "int \<Rightarrow> int" where
  "duration_days n = n * 86400 * 1000000000"

section \<open>Common names\<close>

text \<open>The first attribute decides: a later one is not tried when it is not a string.\<close>

definition common_name_from_x509 :: "x509_certificate \<Rightarrow> string \<Rightarrow> (string, CertError) outcome" where
  "common_name_from_x509 cert label =
     ok_or (NoCommonName label)
       (case common_names cert of [] \<Rightarrow> None | attr # _ \<Rightarrow> attr)"

definition common_name_from_pem :: "'w pki \<Rightarrow> bytes \<Rightarrow> string \<Rightarrow> (string, CertError) outcome" where
  "common_name_from_pem P pem_bytes path =
     obind (omap_err (CertParse path) (parse_x509_pem P pem_bytes)) (\<lambda>pem.
     obind (omap_err (CertParse path) (pem_parse_x509 P pem)) (\<lambda>cert.
     common_name_from_x509 cert path))"

definition peer_cert_common_name :: "'w pki \<Rightarrow> bytes \<Rightarrow> (string, CertError) outcome" where
  "peer_cert_common_name P der =
     obind (omap_err (CertParse ''peer certificate'') (parse_x509_certificate P der)) (\<lambda>cert.
     common_name_from_x509 cert ''peer certificate'')"

definition own_node_name :: "'w pki \<Rightarrow> fs \<Rightarrow> string \<Rightarrow> (string, CertError) outcome" where
  "own_node_name P fs data_dir =
     (let path = path_join data_dir ''kubelet/pki/kubelet-client-current.pem'' in
      obind (omap_err (CertRead path) (fs_read fs path)) (\<lambda>pem_bytes.
      obind (common_name_from_pem P pem_bytes path) (\<lambda>cn.
      omap_err CertAuthz (node_name_from_cn cn))))"

section \<open>The server leaf of \<open>enroll\<close>\<close>

definition ca_key_to_pkcs8_pem :: "'w pki \<Rightarrow> string \<Rightarrow> (string, CertError) outcome" where
  "ca_key_to_pkcs8_pem P pem =
     (if contains ''BEGIN PRIVATE KEY'' pem then Ok pem
      else
        obind (omap_err CertPkcs1 (from_pkcs1_pem P pem)) (\<lambda>key.
        omap_err CertPkcs8 (to_pkcs8_pem P key)))"

text \<open>The parameters of the leaf, from the defaults for its name and the time of the call.\<close>

definition leaf_params ::
  "'w pki \<Rightarrow> string \<Rightarrow> int \<Rightarrow> CertificateParams \<Rightarrow> (CertificateParams, CertError) outcome" where
  "leaf_params P node_name now params0 =
     (let params = params0\<lparr>
        cp_distinguished_name := dn_push P (cp_distinguished_name params0) CommonName node_name,
        cp_use_authority_key_identifier_extension := True,
        cp_key_usages := cp_key_usages params0 @ [DigitalSignature],
        cp_extended_key_usages := cp_extended_key_usages params0 @ [ServerAuth]\<rparr>;
      validity = duration_days LEAF_CERT_VALIDITY_DAYS in
      obind (ok_or InvalidValidityWindow (time_checked_sub P now validity)) (\<lambda>not_before.
      obind (ok_or InvalidValidityWindow (time_checked_add P now validity)) (\<lambda>not_after.
      Ok (params\<lparr>cp_not_before := not_before, cp_not_after := not_after\<rparr>))))"

definition mint_enroll_server_identity ::
  "'w pki \<Rightarrow> fs \<Rightarrow> string \<Rightarrow> string \<Rightarrow> ('w, string \<times> string, CertError) rs" where
  "mint_enroll_server_identity P fs node_name data_dir =
     (let ca_cert_path = path_join data_dir ''pki/ca.crt'';
          ca_key_path = path_join data_dir ''pki/ca.key'' in
      bindR (lift (omap_err (CertRead ca_cert_path) (fs_read_to_string fs ca_cert_path))) (\<lambda>ca_cert_pem.
      bindR (lift (omap_err (CertRead ca_key_path) (fs_read_to_string fs ca_key_path))) (\<lambda>ca_key_pem0.
      bindR (lift (ca_key_to_pkcs8_pem P ca_key_pem0)) (\<lambda>ca_key_pem.
      bindR (lift (omap_err CertRcgen (key_pair_from_pem P ca_key_pem))) (\<lambda>ca_key.
      bindR (lift (omap_err CertRcgen (issuer_from_ca_cert_pem P ca_cert_pem ca_key))) (\<lambda>issuer.
      bindR (lift (omap_err CertRcgen (certificate_params_new P [node_name]))) (\<lambda>params0.
      bindR (\<lambda>w. (leaf_params P node_name (now_utc P w) params0, w)) (\<lambda>params.
      bindR (map_err CertRcgen (key_pair_generate P)) (\<lambda>leaf_key.
      bindR (lift (omap_err CertRcgen (signed_by P params leaf_key issuer))) (\<lambda>leaf_cert.
      ret (leaf_cert, serialize_pem P leaf_key)))))))))))"

section \<open>Lemmas\<close>

lemma common_name_from_x509_Ok_iff:
  "common_name_from_x509 cert label = Ok cn \<longleftrightarrow> (\<exists>rest. common_names cert = Some cn # rest)"
  by (auto simp: common_name_from_x509_def split: list.splits)

lemma peer_cert_common_name_Ok_iff:
  "peer_cert_common_name P der = Ok cn \<longleftrightarrow>
     (\<exists>cert rest. parse_x509_certificate P der = Ok cert \<and> common_names cert = Some cn # rest)"
  by (cases "parse_x509_certificate P der")
    (auto simp: peer_cert_common_name_def common_name_from_x509_Ok_iff)

lemma leaf_params_Ok:
  assumes "leaf_params P node now params0 = Ok params"
  shows "cp_subject_alt_names params = cp_subject_alt_names params0"
    and "cp_distinguished_name params = dn_push P (cp_distinguished_name params0) CommonName node"
    and "time_checked_sub P now (86400 * 1000000000) = Some (cp_not_before params)"
    and "time_checked_add P now (86400 * 1000000000) = Some (cp_not_after params)"
    and "cp_key_usages params = cp_key_usages params0 @ [DigitalSignature]"
    and "cp_extended_key_usages params = cp_extended_key_usages params0 @ [ServerAuth]"
  using assms
  by (auto simp: leaf_params_def Let_def duration_days_def LEAF_CERT_VALIDITY_DAYS_def
      obind_Ok_iff)

end
