(* ===== verification/Enroll.thy ===== *)
theory Enroll
  imports Fleet Certs
begin

text \<open>
  \<open>src/src/enroll.rs\<close>: the seed side of enrollment. \<open>handle_duplicate\<close> and
  \<open>duplicate\<close> are the request handler, run by one request alone; \<open>run_enroll\<close> is
  the set-up of the listener. Requests run concurrently and share only the
  counter of permits, the lock of the TPM context and the notification:
  the steps of a request on the counter and the notification are the relation
  \<open>permit_step\<close>, from the same definitions as the handler.
\<close>

section \<open>Messages, errors, state\<close>

record DuplicateRequest =
  joiner_transport_public :: bytes

record DuplicateResponse =
  resp_fleet_key_public :: bytes
  resp_duplicate_private :: bytes
  resp_encrypted_secret :: bytes
  resp_has_encryption_key :: bool
  resp_encryption_key :: bytes

text \<open>A request with the certificate chain of its TLS session, when there is one.\<close>

record tonic_request =
  peer_certs :: "bytes list option"
  get_ref :: DuplicateRequest

text \<open>
  The status codes \<open>denied\<close> and \<open>internal\<close> give, each with the value whose text
  is the message.
\<close>

datatype denied_reason =
    NoClientCertificate
  | EmptyCertificateChain
  | BadCertificate CertError
  | NotAuthorized AuthzError
  | MaxAlreadyReached

datatype internal_reason =
    UnmarshallingJoinerPublic tss_error
  | ContextPoisoned
  | FleetFailed FleetError
  | MarshallFailed tss_error

datatype enroll_status = PermissionDeniedStatus denied_reason | InternalStatus internal_reason

definition denied :: "denied_reason \<Rightarrow> enroll_status" where
  "denied e = PermissionDeniedStatus e"

definition internal :: "internal_reason \<Rightarrow> enroll_status" where
  "internal e = InternalStatus e"

datatype addr_parse_error = AddrParseError string
datatype kubeconfig_error = KubeconfigError string
datatype transport_error = TransportError string

datatype EnrollError =
    EnrollFleet FleetError
  | EnrollTss tss_error
  | EnrollCert CertError
  | EnrollRead string io_error
  | InvalidListenAddress string addr_parse_error
  | EnrollInvalidTcti string string
  | EnrollTransport transport_error
  | EnrollKube kube_error
  | EnrollKubeconfig string kubeconfig_error

text \<open>\<open>es_done\<close> is the permit that \<open>Notify::notify_one\<close> stores for the listener.\<close>

record EnrollService =
  es_context :: "context_id mutex"
  es_fleet_key_handle :: key_handle
  es_kube_client :: kube_client
  es_remaining :: usize
  es_done :: bool

type_synonym 'w enroll_world = "EnrollService \<times> 'w"

section \<open>The request handler\<close>

definition marshall :: "'w tss \<Rightarrow> public \<Rightarrow> (bytes, enroll_status) outcome" where
  "marshall X value = omap_err (\<lambda>e. internal (MarshallFailed e)) (public_marshall X value)"

text \<open>Code on the world alone, with the service untouched.\<close>

definition on_world :: "('w, 'a, 'e) rs \<Rightarrow> ('s \<times> 'w, 'a, 'e) rs" where
  "on_world m = (\<lambda>(s, w). case m w of (r, w') \<Rightarrow> (r, (s, w')))"

definition with_context ::
  "(context_id \<Rightarrow> ('w, 'a, enroll_status) rs) \<Rightarrow> ('w enroll_world, 'a, enroll_status) rs" where
  "with_context body = (\<lambda>(self, w).
     if mutex_poisoned (es_context self) then (Err (internal ContextPoisoned), (self, w))
     else (case body (mutex_data (es_context self)) w of
        (Panic s, w') \<Rightarrow>
          (Panic s, (self\<lparr>es_context := (es_context self)\<lparr>mutex_poisoned := True\<rparr>\<rparr>, w'))
      | (r, w') \<Rightarrow> (r, (self, w'))))"

definition response_of_blob ::
  "'w tss \<Rightarrow> DuplicationBlob \<Rightarrow> (DuplicateResponse, enroll_status) outcome" where
  "response_of_blob X blob =
     obind (marshall X (fleet_key_public blob)) (\<lambda>public_bytes.
     Ok \<lparr>resp_fleet_key_public = public_bytes,
         resp_duplicate_private = private_value (duplicate_private blob),
         resp_encrypted_secret = secret_value (blob_encrypted_secret blob),
         resp_has_encryption_key = (blob_encryption_key blob \<noteq> None),
         resp_encryption_key =
           (case blob_encryption_key blob of Some data \<Rightarrow> data_value data | None \<Rightarrow> [])\<rparr>)"

definition peer_node_name ::
  "'w pki \<Rightarrow> tonic_request \<Rightarrow> (string, enroll_status) outcome" where
  "peer_node_name P request =
     obind (ok_or (denied NoClientCertificate) (peer_certs request)) (\<lambda>certs.
     obind (ok_or (denied EmptyCertificateChain)
       (case certs of [] \<Rightarrow> None | leaf # _ \<Rightarrow> Some leaf)) (\<lambda>leaf.
     obind (omap_err (\<lambda>e. denied (BadCertificate e)) (peer_cert_common_name P leaf)) (\<lambda>cn.
     omap_err (\<lambda>e. denied (NotAuthorized e)) (node_name_from_cn cn))))"

definition handle_duplicate ::
  "'w tss \<Rightarrow> 'w pki \<Rightarrow> 'w kube \<Rightarrow> tonic_request \<Rightarrow>
     ('w enroll_world, DuplicateResponse, enroll_status) rs" where
  "handle_duplicate X P K request =
     bindR (lift (peer_node_name P request)) (\<lambda>node_name.
     bindR (\<lambda>(self, w). on_world (map_err (\<lambda>e. denied (NotAuthorized e))
       (authorize_node K (es_kube_client self) node_name)) (self, w)) (\<lambda>_.
     bindR (lift (omap_err (\<lambda>e. internal (UnmarshallingJoinerPublic e))
       (public_unmarshall X (joiner_transport_public (get_ref request))))) (\<lambda>joiner_public.
     bindR (\<lambda>(self, w). with_context (\<lambda>context. map_err (\<lambda>e. internal (FleetFailed e))
       (duplicate_for_joiner X context (es_fleet_key_handle self) joiner_public)) (self, w)) (\<lambda>blob.
     lift (response_of_blob X blob)))))"

section \<open>Permits\<close>

text \<open>
  A request by what it still has to do: before its \<open>fetch_sub\<close>, between finding
  no permit and its \<open>fetch_add\<close>, or holding a permit, with \<open>was_last_permit\<close>.
  \<open>Abandoned\<close> is a request whose future was dropped at an await point.
\<close>

datatype task = Arrived | Rejecting | Serving bool | Served | Failed | Rejected | Abandoned

definition take_permit :: "usize \<Rightarrow> usize \<times> task" where
  "take_permit remaining =
     (remaining - 1, if remaining = 0 then Rejecting else Serving (remaining = 1))"

definition restore_permit :: "usize \<Rightarrow> usize" where
  "restore_permit remaining = remaining + 1"

definition duplicate ::
  "'w tss \<Rightarrow> 'w pki \<Rightarrow> 'w kube \<Rightarrow> tonic_request \<Rightarrow>
     ('w enroll_world, DuplicateResponse, enroll_status) rs" where
  "duplicate X P K request = (\<lambda>(self, w).
     case take_permit (es_remaining self) of (r, task) \<Rightarrow>
     let self1 = self\<lparr>es_remaining := r\<rparr> in
     case task of
       Serving was_last_permit \<Rightarrow>
         (case handle_duplicate X P K request (self1, w) of
            (Ok response, (self2, w2)) \<Rightarrow>
              (Ok response, (if was_last_permit then self2\<lparr>es_done := True\<rparr> else self2, w2))
          | (Err status, (self2, w2)) \<Rightarrow>
              (Err status, (self2\<lparr>es_remaining := restore_permit (es_remaining self2)\<rparr>, w2))
          | (Panic s, sw) \<Rightarrow> (Panic s, sw))
     | _ \<Rightarrow>
         (Err (denied MaxAlreadyReached), (self1\<lparr>es_remaining := restore_permit r\<rparr>, w)))"

text \<open>All requests of one run of the listener, and the counter they share.\<close>

record permit_state =
  ps_remaining :: usize
  ps_done :: bool
  ps_tasks :: "task list"

inductive permit_step :: "permit_state \<Rightarrow> permit_state \<Rightarrow> bool" where
  arrive: "permit_step s (s\<lparr>ps_tasks := ps_tasks s @ [Arrived]\<rparr>)"
| fetch_sub: "i < length (ps_tasks s) \<Longrightarrow> ps_tasks s ! i = Arrived \<Longrightarrow>
     take_permit (ps_remaining s) = (r, t) \<Longrightarrow>
     permit_step s (s\<lparr>ps_remaining := r, ps_tasks := (ps_tasks s)[i := t]\<rparr>)"
| reject: "i < length (ps_tasks s) \<Longrightarrow> ps_tasks s ! i = Rejecting \<Longrightarrow>
     permit_step s (s\<lparr>ps_remaining := restore_permit (ps_remaining s),
       ps_tasks := (ps_tasks s)[i := Rejected]\<rparr>)"
| serve: "i < length (ps_tasks s) \<Longrightarrow> ps_tasks s ! i = Serving was_last_permit \<Longrightarrow>
     permit_step s (s\<lparr>ps_done := (ps_done s \<or> was_last_permit),
       ps_tasks := (ps_tasks s)[i := Served]\<rparr>)"
| fail: "i < length (ps_tasks s) \<Longrightarrow> ps_tasks s ! i = Serving was_last_permit \<Longrightarrow>
     permit_step s (s\<lparr>ps_remaining := restore_permit (ps_remaining s),
       ps_tasks := (ps_tasks s)[i := Failed]\<rparr>)"
| abandon: "i < length (ps_tasks s) \<Longrightarrow> ps_tasks s ! i = Serving was_last_permit \<Longrightarrow>
     permit_step s (s\<lparr>ps_tasks := (ps_tasks s)[i := Abandoned]\<rparr>)"

definition permit_init :: "u32 \<Rightarrow> permit_state" where
  "permit_init max_requests = \<lparr>ps_remaining = ucast max_requests, ps_done = False, ps_tasks = []\<rparr>"

definition count_tasks :: "(task \<Rightarrow> bool) \<Rightarrow> permit_state \<Rightarrow> nat" where
  "count_tasks p s = length (filter p (ps_tasks s))"

fun holds_permit :: "task \<Rightarrow> bool" where
  "holds_permit (Serving b) = True"
| "holds_permit Served = True"
| "holds_permit Abandoned = True"
| "holds_permit t = False"

text \<open>
  The listener while it runs: \<open>serve_with_shutdown\<close> takes requests until its shutdown
  future is ready, then lets those in flight finish and returns; the future selects
  between the stored notification and the timeout, counted in seconds since the start.
\<close>

record listener_state =
  ls_permits :: permit_state
  ls_elapsed :: nat
  ls_open :: bool

inductive listener_step :: "u64 \<Rightarrow> listener_state \<Rightarrow> listener_state \<Rightarrow> bool" for timeout where
  accept: "ls_open s \<Longrightarrow> listener_step timeout s
     (s\<lparr>ls_permits := (ls_permits s)\<lparr>ps_tasks := ps_tasks (ls_permits s) @ [Arrived]\<rparr>\<rparr>)"
| advance: "permit_step (ls_permits s) p \<Longrightarrow> length (ps_tasks p) = length (ps_tasks (ls_permits s)) \<Longrightarrow>
     listener_step timeout s (s\<lparr>ls_permits := p\<rparr>)"
| tick: "ls_open s \<Longrightarrow> ls_elapsed s < unat timeout \<Longrightarrow>
     listener_step timeout s (s\<lparr>ls_elapsed := Suc (ls_elapsed s)\<rparr>)"
| notified: "ls_open s \<Longrightarrow> ps_done (ls_permits s) \<Longrightarrow> listener_step timeout s (s\<lparr>ls_open := False\<rparr>)"
| timed_out: "ls_open s \<Longrightarrow> ls_elapsed s = unat timeout \<Longrightarrow> listener_step timeout s (s\<lparr>ls_open := False\<rparr>)"

definition listener_init :: "u32 \<Rightarrow> listener_state" where
  "listener_init max_requests = \<lparr>ls_permits = permit_init max_requests, ls_elapsed = 0, ls_open = True\<rparr>"

section \<open>Starting the listener\<close>

text \<open>
  The calls of \<open>run_enroll\<close> into \<open>kube\<close> and \<open>tonic\<close>, and the parser of socket
  addresses. \<open>listener_run\<close> is the server: it takes requests to the service until
  the notification or the timeout, then returns.
\<close>

datatype socket_addr = SocketAddr string
datatype kubeconfig = Kubeconfig string
datatype kube_config = KubeConfig string

record server_tls_config =
  tls_identity :: "string \<times> string"
  tls_client_ca_root :: string

record 'w listener =
  socket_addr_from_str :: "string \<Rightarrow> (socket_addr, addr_parse_error) outcome"
  kubeconfig_read_from :: "string \<Rightarrow> ('w, kubeconfig, kubeconfig_error) rs"
  config_from_custom_kubeconfig :: "kubeconfig \<Rightarrow> ('w, kube_config, kubeconfig_error) rs"
  client_try_from :: "kube_config \<Rightarrow> (kube_client, kube_error) outcome"
  server_tls :: "server_tls_config \<Rightarrow> (unit, transport_error) outcome"
  listener_run :: "socket_addr \<Rightarrow> server_tls_config \<Rightarrow> u64 \<Rightarrow> EnrollService \<Rightarrow>
     ('w, unit, transport_error) rs"

definition enroll_service :: "context_id \<Rightarrow> key_handle \<Rightarrow> kube_client \<Rightarrow> u32 \<Rightarrow> EnrollService" where
  "enroll_service context fleet_key_handle client max_requests =
     \<lparr>es_context = mutex_new context, es_fleet_key_handle = fleet_key_handle,
      es_kube_client = client, es_remaining = ucast max_requests, es_done = False\<rparr>"

definition enroll_kube_client ::
  "'w listener \<Rightarrow> string \<Rightarrow> ('w, kube_client, EnrollError) rs" where
  "enroll_kube_client L k0s_data_dir =
     (let admin_kubeconfig_path = path_join k0s_data_dir ''pki/admin.conf'' in
      bindR (map_err (EnrollKubeconfig admin_kubeconfig_path)
        (kubeconfig_read_from L admin_kubeconfig_path)) (\<lambda>kubeconfig.
      bindR (map_err (EnrollKubeconfig admin_kubeconfig_path)
        (config_from_custom_kubeconfig L kubeconfig)) (\<lambda>kube_config.
      lift (omap_err EnrollKube (client_try_from L kube_config)))))"

definition enroll_tls ::
  "'w pki \<Rightarrow> fs \<Rightarrow> string \<Rightarrow> ('w, server_tls_config, EnrollError) rs" where
  "enroll_tls P fs k0s_data_dir =
     bindR (lift (omap_err EnrollCert (own_node_name P fs k0s_data_dir))) (\<lambda>node_name.
     bindR (map_err EnrollCert
       (mint_enroll_server_identity P fs node_name k0s_data_dir)) (\<lambda>leaf.
     let ca_cert_path = path_join k0s_data_dir ''pki/ca.crt'' in
     bindR (lift (omap_err (EnrollRead ca_cert_path) (fs_read_to_string fs ca_cert_path))) (\<lambda>ca_cert_pem.
     ret \<lparr>tls_identity = leaf, tls_client_ca_root = ca_cert_pem\<rparr>)))"

definition run_enroll ::
  "'w tss \<Rightarrow> 'w pki \<Rightarrow> 'w listener \<Rightarrow> fs \<Rightarrow> string \<Rightarrow> u32 \<Rightarrow> u64 \<Rightarrow> string \<Rightarrow> string \<Rightarrow>
     ('w, unit, EnrollError) rs" where
  "run_enroll X P L fs listen max_requests timeout tcti k0s_data_dir =
     bindR (lift (omap_err (InvalidListenAddress listen) (socket_addr_from_str L listen))) (\<lambda>addr.
     bindR (lift (omap_err (\<lambda>e. EnrollInvalidTcti tcti (tss_display X e)) (tcti_from_str X tcti))) (\<lambda>tcti_conf.
     bindR (map_err EnrollTss (context_new X tcti_conf)) (\<lambda>context.
     bindR (map_err EnrollFleet (load_fleet_key X context)) (\<lambda>fleet_key_handle.
     bindR (enroll_tls P fs k0s_data_dir) (\<lambda>tls.
     bindR (enroll_kube_client L k0s_data_dir) (\<lambda>client.
     bindR (lift (omap_err EnrollTransport (server_tls L tls))) (\<lambda>_.
     bindR (map_err EnrollTransport (listener_run L addr tls timeout
       (enroll_service context fleet_key_handle client max_requests))) (\<lambda>_.
     ret ()))))))))"

end
