(* ===== verification/Join.thy ===== *)
theory Join
  imports Enroll
begin

text \<open>
  \<open>src/src/join.rs\<close>: the joiner side of enrollment. The calls into \<open>tonic\<close> that
  build the channel and send the request are the fields of \<open>dialer\<close>.
\<close>

datatype invalid_uri = InvalidUri string
datatype endpoint = Endpoint string
datatype channel = Channel string

text \<open>What the call reports: the status of the seed's handler, or one of the transport.\<close>

datatype rpc_status = SeedStatus enroll_status | TransportStatus string

datatype JoinError =
    JoinFleet FleetError
  | JoinTss tss_error
  | JoinCert CertError
  | JoinRead string io_error
  | JoinInvalidTcti string string
  | InvalidSeedUri string invalid_uri
  | JoinConnect string transport_error
  | JoinRejected rpc_status
  | JoinUnmarshall tss_error

record client_tls_config =
  ctls_ca_certificate :: string
  ctls_identity :: "string \<times> string"

record 'w dialer =
  channel_from_shared :: "string \<Rightarrow> (endpoint, invalid_uri) outcome"
  endpoint_tls_config :: "endpoint \<Rightarrow> client_tls_config \<Rightarrow> (endpoint, transport_error) outcome"
  endpoint_connect :: "endpoint \<Rightarrow> ('w, channel, transport_error) rs"
  client_duplicate :: "channel \<Rightarrow> DuplicateRequest \<Rightarrow> ('w, DuplicateResponse, rpc_status) rs"

definition join_marshall :: "'w tss \<Rightarrow> public \<Rightarrow> (bytes, JoinError) outcome" where
  "join_marshall X value = omap_err JoinTss (public_marshall X value)"

definition blob_of_response ::
  "'w tss \<Rightarrow> DuplicateResponse \<Rightarrow> (DuplicationBlob, JoinError) outcome" where
  "blob_of_response X response =
     obind (omap_err JoinUnmarshall (public_unmarshall X (resp_fleet_key_public response))) (\<lambda>p.
     obind (omap_err JoinUnmarshall (private_try_from X (resp_duplicate_private response))) (\<lambda>priv.
     obind (omap_err JoinUnmarshall (encrypted_secret_try_from X (resp_encrypted_secret response))) (\<lambda>sec.
     obind (if resp_has_encryption_key response
            then obind (omap_err JoinUnmarshall (data_try_from X (resp_encryption_key response)))
              (\<lambda>d. Ok (Some d))
            else Ok None) (\<lambda>key.
     Ok \<lparr>fleet_key_public = p, duplicate_private = priv, blob_encrypted_secret = sec,
         blob_encryption_key = key\<rparr>))))"

definition join_channel ::
  "'w dialer \<Rightarrow> fs \<Rightarrow> string \<Rightarrow> string \<Rightarrow> ('w, channel, JoinError) rs" where
  "join_channel D fs seed k0s_data_dir =
     (let client_cert_path = path_join k0s_data_dir ''kubelet/pki/kubelet-client-current.pem'';
          ca_cert_path = path_join k0s_data_dir ''pki/ca.crt'' in
      bindR (lift (omap_err (JoinRead client_cert_path) (fs_read_to_string fs client_cert_path))) (\<lambda>client_pem.
      bindR (lift (omap_err (JoinRead ca_cert_path) (fs_read_to_string fs ca_cert_path))) (\<lambda>ca_cert_pem.
      let uri = ''https://'' @ seed in
      bindR (lift (omap_err (InvalidSeedUri uri) (channel_from_shared D uri))) (\<lambda>endpoint0.
      bindR (lift (omap_err (JoinConnect uri) (endpoint_tls_config D endpoint0
        \<lparr>ctls_ca_certificate = ca_cert_pem, ctls_identity = (client_pem, client_pem)\<rparr>))) (\<lambda>endpoint.
      map_err (JoinConnect uri) (endpoint_connect D endpoint))))))"

definition run_join ::
  "'w tss \<Rightarrow> 'w dialer \<Rightarrow> fs \<Rightarrow> string \<Rightarrow> string \<Rightarrow> string \<Rightarrow> ('w, unit, JoinError) rs" where
  "run_join X D fs seed tcti k0s_data_dir =
     bindR (lift (omap_err (\<lambda>e. JoinInvalidTcti tcti (tss_display X e)) (tcti_from_str X tcti))) (\<lambda>tcti_conf.
     bindR (map_err JoinTss (context_new X tcti_conf)) (\<lambda>context.
     bindR (map_err JoinFleet (create_transport_key X context)) (\<lambda>(transport_handle, transport_public).
     bindR (join_channel D fs seed k0s_data_dir) (\<lambda>channel.
     bindR (lift (join_marshall X transport_public)) (\<lambda>public_bytes.
     bindR (map_err JoinRejected (client_duplicate D channel
       \<lparr>joiner_transport_public = public_bytes\<rparr>)) (\<lambda>response.
     bindR (lift (blob_of_response X response)) (\<lambda>blob.
     bindR (map_err JoinFleet (import_and_persist X context transport_handle blob)) (\<lambda>_.
     ret ()))))))))"

end
