(* ===== verification/App.thy ===== *)
theory App
  imports Join Kms
begin

text \<open>
  \<open>src/src/main.rs\<close> and \<open>src/src/cli.rs\<close>: the command line, the subcommands and
  their dispatch. An \<open>anyhow\<close> error is its list of contexts, outermost first, and
  the error it wraps. The argument parser of \<open>clap\<close> is a third-party crate; the
  defaults and the range that the attributes declare are \<open>Command_from_matches\<close>,
  on the values the parser found. Log lines are not part of the model.
\<close>

section \<open>Command line\<close>

definition DEFAULT_ENROLL_MAX :: u32 where
  "DEFAULT_ENROLL_MAX = 1"

definition DEFAULT_ENROLL_TIMEOUT_SECS :: u64 where
  "DEFAULT_ENROLL_TIMEOUT_SECS = 300"

datatype Command =
    Serve (serve_socket: string) (serve_force_legacy: bool)
  | Genesis (genesis_force: bool)
  | Enroll (enroll_listen: string) (enroll_max: u32) (enroll_timeout_secs: u64)
      (enroll_k0s_data_dir: string)
  | Join (join_seed: string) (join_k0s_data_dir: string)
  | StatusCmd

record Cli =
  cli_tcti :: string
  cli_command :: Command

text \<open>The values given on the command line, \<open>None\<close> for an option that was not given.\<close>

datatype command_matches =
    ServeMatches "string option" bool
  | GenesisMatches bool
  | EnrollMatches "string option" "u32 option" "u64 option" "string option"
  | JoinMatches "string option" "string option"
  | StatusMatches

datatype ClapError = MissingRequiredArgument string | ValueOutOfRange string

definition or_default :: "'a \<Rightarrow> 'a option \<Rightarrow> 'a" where
  "or_default d x = (case x of None \<Rightarrow> d | Some v \<Rightarrow> v)"

fun Command_from_matches :: "command_matches \<Rightarrow> (Command, ClapError) outcome" where
  "Command_from_matches (ServeMatches socket force_legacy) =
     Ok (Serve (or_default ''/run/sceau/sceau.sock'' socket) force_legacy)"
| "Command_from_matches (GenesisMatches force) = Ok (Genesis force)"
| "Command_from_matches (EnrollMatches listen max_joiners timeout_secs k0s_data_dir) =
     obind (ok_or (MissingRequiredArgument ''listen'') listen) (\<lambda>listen.
     let joiners = or_default DEFAULT_ENROLL_MAX max_joiners in
     if joiners < 1 then Err (ValueOutOfRange ''max'')
     else Ok (Enroll listen joiners (or_default DEFAULT_ENROLL_TIMEOUT_SECS timeout_secs)
       (or_default K0S_DEFAULT_DATA_DIR k0s_data_dir)))"
| "Command_from_matches (JoinMatches seed k0s_data_dir) =
     obind (ok_or (MissingRequiredArgument ''seed'') seed) (\<lambda>seed.
     Ok (Join seed (or_default K0S_DEFAULT_DATA_DIR k0s_data_dir)))"
| "Command_from_matches StatusMatches = Ok StatusCmd"

definition Cli_from_matches :: "string option \<Rightarrow> command_matches \<Rightarrow> (Cli, ClapError) outcome" where
  "Cli_from_matches tcti command =
     obind (Command_from_matches command) (\<lambda>command.
     Ok \<lparr>cli_tcti = or_default ''device:/dev/tpmrm0'' tcti, cli_command = command\<rparr>)"

section \<open>Errors\<close>

datatype RootError =
    RootTss tss_error
  | RootTpm TpmError
  | RootFleet FleetError
  | RootIo io_error
  | RootTransport transport_error
  | RootEnroll EnrollError
  | RootJoin JoinError

datatype AnyError = AnyError (any_contexts: "string list") (any_root: RootError)

definition from_tss :: "tss_error \<Rightarrow> AnyError" where
  "from_tss e = AnyError [] (RootTss e)"

definition from_tpm :: "TpmError \<Rightarrow> AnyError" where
  "from_tpm e = AnyError [] (RootTpm e)"

definition from_fleet :: "FleetError \<Rightarrow> AnyError" where
  "from_fleet e = AnyError [] (RootFleet e)"

definition from_io :: "io_error \<Rightarrow> AnyError" where
  "from_io e = AnyError [] (RootIo e)"

definition from_transport :: "transport_error \<Rightarrow> AnyError" where
  "from_transport e = AnyError [] (RootTransport e)"

definition from_enroll :: "EnrollError \<Rightarrow> AnyError" where
  "from_enroll e = AnyError [] (RootEnroll e)"

definition from_join :: "JoinError \<Rightarrow> AnyError" where
  "from_join e = AnyError [] (RootJoin e)"

fun any_context :: "string \<Rightarrow> AnyError \<Rightarrow> AnyError" where
  "any_context c (AnyError cs r) = AnyError (c # cs) r"

definition show_bool :: "bool \<Rightarrow> string" where
  "show_bool b = (if b then ''true'' else ''false'')"

section \<open>Choosing the sealer\<close>

definition build_sealer ::
  "'w tss \<Rightarrow> tcti \<Rightarrow> ('w, TpmSealer \<times> TpmSealer option, AnyError) rs" where
  "build_sealer X tcti_conf =
     bindR (map_err (\<lambda>e. any_context ''connecting to TPM'' (from_tss e))
       (context_new X tcti_conf)) (\<lambda>probe.
     bindR (attempt (load_fleet_key X probe)) (\<lambda>found.
     case found of
       Ok fleet_key \<Rightarrow>
         bindR (map_err from_tpm (TpmSealer_from_primary X probe fleet_key)) (\<lambda>primary.
         bindR (map_err (\<lambda>e. any_context ''building legacy per-node SRK fallback for Decrypt'' (from_tpm e))
           (TpmSealer_new X tcti_conf)) (\<lambda>legacy.
         ret (primary, Some legacy)))
     | _ \<Rightarrow>
         bindR (map_err from_tpm (TpmSealer_new X tcti_conf)) (\<lambda>sealer.
         ret (sealer, None))))"

definition serve_sealers ::
  "'w tss \<Rightarrow> tcti \<Rightarrow> bool \<Rightarrow> ('w, TpmSealer \<times> TpmSealer option, AnyError) rs" where
  "serve_sealers X tcti_conf force_legacy =
     (if force_legacy then
        bindR (map_err (\<lambda>e. any_context ''initializing TPM sealer'' (from_tpm e))
          (TpmSealer_new X tcti_conf)) (\<lambda>sealer.
        ret (sealer, None))
      else map_err (any_context ''initializing TPM sealer'') (build_sealer X tcti_conf))"

definition serve_service :: "TpmSealer \<times> TpmSealer option \<Rightarrow> KmsService" where
  "serve_service sealers = (case sealers of
      (sealer, Some legacy) \<Rightarrow> with_legacy_fallback sealer legacy
    | (sealer, None) \<Rightarrow> KmsService_new sealer)"

section \<open>One-shot subcommands\<close>

definition run_genesis :: "'w tss \<Rightarrow> string \<Rightarrow> bool \<Rightarrow> ('w, unit, AnyError) rs" where
  "run_genesis X tcti force =
     bindR (lift (omap_err (\<lambda>e. any_context ''invalid TCTI configuration'' (from_tss e))
       (tcti_from_str X tcti))) (\<lambda>tcti_conf.
     bindR (map_err (\<lambda>e. any_context ''connecting to TPM'' (from_tss e))
       (context_new X tcti_conf)) (\<lambda>context.
     bindR (map_err (\<lambda>e. any_context ''creating fleet sealing key'' (from_fleet e))
       (create_fleet_key X context force)) (\<lambda>_.
     ret ())))"

text \<open>The printed line is the value returned; the sealer is dropped after printing.\<close>

definition status_line :: "bool \<Rightarrow> string \<Rightarrow> string" where
  "status_line fleet_key key_id =
     ''fleet_key='' @ show_bool fleet_key @ '' key_id='' @ key_id"

definition dropping :: "'w tss \<Rightarrow> TpmSealer \<Rightarrow> ('w, unit, 'e) rs" where
  "dropping X sealer = (\<lambda>w. (Ok (), TpmSealer_drop X sealer w))"

definition run_status :: "'w tss \<Rightarrow> string \<Rightarrow> ('w, string, AnyError) rs" where
  "run_status X tcti =
     bindR (lift (omap_err (\<lambda>e. any_context ''invalid TCTI configuration'' (from_tss e))
       (tcti_from_str X tcti))) (\<lambda>tcti_conf.
     bindR (map_err (\<lambda>e. any_context ''connecting to TPM'' (from_tss e))
       (context_new X tcti_conf)) (\<lambda>probe.
     bindR (attempt (load_fleet_key X probe)) (\<lambda>found.
     case found of
       Ok fleet_key \<Rightarrow>
         bindR (map_err (\<lambda>e. any_context ''reading fleet key's public area'' (from_tpm e))
           (TpmSealer_from_primary X probe fleet_key)) (\<lambda>sealer.
         bindR (dropping X sealer) (\<lambda>_.
         ret (status_line True (sealer_key_id sealer))))
     | _ \<Rightarrow>
         bindR (map_err (\<lambda>e. any_context ''initializing per-node SRK'' (from_tpm e))
           (TpmSealer_new X tcti_conf)) (\<lambda>sealer.
         bindR (dropping X sealer) (\<lambda>_.
         ret (status_line False (sealer_key_id sealer)))))))"

section \<open>The steady state: \<open>serve\<close>\<close>

text \<open>
  The host a process runs on: the file system and the rest of the world. The gRPC
  server is a parameter: it answers requests with the handlers of the service on
  the listening socket until the shutdown signal, and may find the file system
  changed by others when it returns.
\<close>

type_synonym 'w host = "fs \<times> 'w"

record 'w kms_server =
  serve_with_incoming_shutdown :: "KmsService \<Rightarrow> ('w host, unit, transport_error) rs"

definition on_fs :: "(fs, 'a, 'e) rs \<Rightarrow> ('w host, 'a, 'e) rs" where
  "on_fs m = (\<lambda>(fs, w). case m fs of (r, fs') \<Rightarrow> (r, (fs', w)))"

definition prepare_socket :: "string \<Rightarrow> (fs, unit, AnyError) rs" where
  "prepare_socket socket =
     bindR (case path_parent socket of
         Some parent \<Rightarrow> map_err (\<lambda>e. any_context (''creating '' @ parent) (from_io e)) (create_dir_all parent)
       | None \<Rightarrow> ret ()) (\<lambda>_ fs.
     if fs_exists fs socket then
       map_err (\<lambda>e. any_context (''removing stale socket '' @ socket) (from_io e)) (remove_file socket) fs
     else (Ok (), fs))"

definition SOCKET_MODE :: nat where
  "SOCKET_MODE = 6 * 8 * 8"

definition open_socket :: "nat \<Rightarrow> string \<Rightarrow> (fs, unit, AnyError) rs" where
  "open_socket umask_mode socket =
     bindR (map_err (\<lambda>e. any_context (''binding '' @ socket) (from_io e))
       (unix_listener_bind umask_mode socket)) (\<lambda>_.
     map_err from_io (set_permissions socket SOCKET_MODE))"

text \<open>
  The sealers are dropped on every way out of \<open>run_serve\<close>: by an early return in
  reverse order of their declaration, and as fields of the service by the server.
\<close>

definition drop_opt :: "'w tss \<Rightarrow> TpmSealer option \<Rightarrow> 'w \<Rightarrow> 'w" where
  "drop_opt X sealer w = (case sealer of None \<Rightarrow> w | Some s \<Rightarrow> TpmSealer_drop X s w)"

definition or_drop ::
  "'w tss \<Rightarrow> TpmSealer \<times> TpmSealer option \<Rightarrow> ('w host, 'a, 'e) rs \<Rightarrow> ('w host, 'a, 'e) rs" where
  "or_drop X sealers m = (\<lambda>h. case m h of
      (Ok x, h') \<Rightarrow> (Ok x, h')
    | (r, (fs, w)) \<Rightarrow> (r, (fs, TpmSealer_drop X (fst sealers) (drop_opt X (snd sealers) w))))"

definition serve_until_shutdown ::
  "'w tss \<Rightarrow> 'w kms_server \<Rightarrow> TpmSealer \<times> TpmSealer option \<Rightarrow> ('w host, unit, AnyError) rs" where
  "serve_until_shutdown X V sealers = (\<lambda>h.
     case map_err from_transport (serve_with_incoming_shutdown V (serve_service sealers)) h of
       (r, (fs, w)) \<Rightarrow> (r, (fs, drop_opt X (snd sealers) (TpmSealer_drop X (fst sealers) w))))"

definition run_serve ::
  "'w tss \<Rightarrow> 'w kms_server \<Rightarrow> nat \<Rightarrow> string \<Rightarrow> string \<Rightarrow> bool \<Rightarrow> ('w host, unit, AnyError) rs" where
  "run_serve X V umask_mode tcti socket force_legacy =
     bindR (on_fs (prepare_socket socket)) (\<lambda>_.
     bindR (lift (omap_err (\<lambda>e. any_context ''invalid TCTI configuration'' (from_tss e))
       (tcti_from_str X tcti))) (\<lambda>tcti_conf.
     bindR (on_world (serve_sealers X tcti_conf force_legacy)) (\<lambda>sealers.
     bindR (or_drop X sealers (on_fs (open_socket umask_mode socket))) (\<lambda>_.
     bindR (serve_until_shutdown X V sealers) (\<lambda>_.
     bindR (on_fs (attempt (remove_file socket))) (\<lambda>_.
     ret ()))))))"

section \<open>Dispatch\<close>

text \<open>The value is what was printed to standard output, line by line.\<close>

definition sceau_main ::
  "'w tss \<Rightarrow> 'w pki \<Rightarrow> 'w listener \<Rightarrow> 'w dialer \<Rightarrow> 'w kms_server \<Rightarrow> nat \<Rightarrow> Cli \<Rightarrow>
     ('w host, string list, AnyError) rs" where
  "sceau_main X P L D V umask_mode cli = (\<lambda>(fs, w).
     (case cli_command cli of
        Genesis force \<Rightarrow>
          bindR (on_world (run_genesis X (cli_tcti cli) force)) (\<lambda>_. ret [])
      | Enroll listen max_joiners timeout_secs k0s_data_dir \<Rightarrow>
          bindR (on_world (map_err (\<lambda>e. any_context ''enroll failed'' (from_enroll e))
            (run_enroll X P L fs listen max_joiners timeout_secs (cli_tcti cli) k0s_data_dir))) (\<lambda>_. ret [])
      | Join seed k0s_data_dir \<Rightarrow>
          bindR (on_world (map_err (\<lambda>e. any_context ''join failed'' (from_join e))
            (run_join X D fs seed (cli_tcti cli) k0s_data_dir))) (\<lambda>_. ret [])
      | Serve socket force_legacy \<Rightarrow>
          bindR (run_serve X V umask_mode (cli_tcti cli) socket force_legacy) (\<lambda>_. ret [])
      | StatusCmd \<Rightarrow>
          bindR (on_world (run_status X (cli_tcti cli))) (\<lambda>line. ret [line])) (fs, w))"

end
