(* ===== verification/Enroll_Spec.thy ===== *)
theory Enroll_Spec
  imports Kms_Spec Join App
begin

text \<open>
  Enrollment over the contract of the TPM: the seed's handler turns an authorised
  request into a response that delivers the fleet key to the requester's transport
  key, and the joiner turns such a response into its persistent fleet key.
\<close>

section \<open>The wire format\<close>

lemma blob_of_response_of_blob:
  assumes "response_of_blob X blob = Ok resp"
    and "\<And>b. public_marshall X (fleet_key_public blob) = Ok b \<Longrightarrow>
       public_unmarshall X b = Ok (fleet_key_public blob)"
    and "private_try_from X (private_value (duplicate_private blob)) = Ok (duplicate_private blob)"
    and "encrypted_secret_try_from X (secret_value (blob_encrypted_secret blob)) =
       Ok (blob_encrypted_secret blob)"
    and "\<And>d. blob_encryption_key blob = Some d \<Longrightarrow> data_try_from X (data_value d) = Ok d"
  shows "blob_of_response X resp = Ok blob"
  using assms
  by (auto simp: response_of_blob_def marshall_def obind_Ok_iff blob_of_response_def
      split: option.splits)

definition fleet_key :: "('k \<Rightarrow> public) \<Rightarrow> (digest \<Rightarrow> command_code \<Rightarrow> digest) \<Rightarrow> 'k \<Rightarrow> bool" where
  "fleet_key kpub extend_policy k =
     (\<not> oa_fixed_tpm (pub_attributes (kpub k)) \<and> \<not> oa_fixed_parent (pub_attributes (kpub k)) \<and>
      pub_auth_policy (kpub k) = extend_policy [] CommandDuplicate)"

definition delivers ::
  "'w tss \<Rightarrow> ('k \<Rightarrow> public) \<Rightarrow> (public \<Rightarrow> 'k \<Rightarrow> tpm_data \<Rightarrow> tpm_private \<Rightarrow> encrypted_secret \<Rightarrow> bool) \<Rightarrow>
     public \<Rightarrow> 'k \<Rightarrow> DuplicateResponse \<Rightarrow> bool" where
  "delivers X kpub wrapped_for pt k resp =
     (\<exists>blob d. blob_of_response X resp = Ok blob \<and> fleet_key_public blob = kpub k \<and>
        blob_encryption_key blob = Some d \<and>
        wrapped_for pt k d (duplicate_private blob) (blob_encrypted_secret blob))"

text \<open>A listener that can serve: its context is idle and unpoisoned and holds the fleet key.\<close>

definition listener_ready ::
  "('k \<Rightarrow> public) \<Rightarrow> (digest \<Rightarrow> command_code \<Rightarrow> digest) \<Rightarrow> 'k tpm_view \<Rightarrow> EnrollService \<Rightarrow> 'k \<Rightarrow> bool" where
  "listener_ready kpub extend_policy v self k =
     (\<not> mutex_poisoned (es_context self) \<and> idle v (mutex_data (es_context self)) \<and>
      key_at v (mutex_data (es_context self)) (es_fleet_key_handle self) = Some k \<and>
      fleet_key kpub extend_policy k)"

lemma peer_node_name_Ok_iff:
  "peer_node_name P request = Ok node \<longleftrightarrow>
     (\<exists>leaf chain cert rest. peer_certs request = Some (leaf # chain) \<and>
        parse_x509_certificate P leaf = Ok cert \<and>
        common_names cert = Some (NODE_IDENTITY_PREFIX @ node) # rest \<and> node \<noteq> [])"
  by (cases "peer_certs request"; cases "the (peer_certs request)")
    (auto simp: peer_node_name_def obind_Ok_iff peer_cert_common_name_Ok_iff node_name_from_cn_Ok_iff)

context tpm_device
begin

lemma fleet_template_key:
  "fleet_key kpub extend_policy (v_primary (view w) (fleet_template (extend_policy [] CommandDuplicate)))"
  using primary_public [of "fleet_template (extend_policy [] CommandDuplicate)" w]
  by (simp add: fleet_key_def) (simp add: fleet_template_def object_attributes_new_def)

lemma handle_duplicate_ok:
  assumes ready: "listener_ready kpub extend_policy (view w) self k"
    and peer: "peer_node_name P request = Ok node"
    and node: "kube_get_node K (es_kube_client self) node w = (Ok (), w0)" "view w0 = view w"
    and pt: "public_unmarshall X (joiner_transport_public (get_ref request)) = Ok (kpub kt)"
  shows "\<exists>resp w'. handle_duplicate X P K request (self, w) = (Ok resp, (self, w')) \<and>
    view w' = view w \<and> delivers X kpub wrapped_for (kpub kt) k resp"
proof -
  note r = ready [unfolded listener_ready_def fleet_key_def]
  obtain blob d w' where blob:
    "duplicate_for_joiner X (mutex_data (es_context self)) (es_fleet_key_handle self) (kpub kt) w0 = (Ok blob, w')"
    "view w' = view w" "fleet_key_public blob = kpub k"
    "private_try_from X (private_value (duplicate_private blob)) = Ok (duplicate_private blob)"
    "encrypted_secret_try_from X (secret_value (blob_encrypted_secret blob)) = Ok (blob_encrypted_secret blob)"
    "blob_encryption_key blob = Some d" "data_try_from X (data_value d) = Ok d"
    "wrapped_for (kpub kt) k d (duplicate_private blob) (blob_encrypted_secret blob)"
    using duplicate_for_joiner_ok [of w0 "mutex_data (es_context self)" "es_fleet_key_handle self" k kt]
      r node(2) by (auto simp: runs_ok_iff)
  obtain b where b: "public_marshall X (kpub k) = Ok b" using key_marshalls by blast
  then obtain resp where resp: "response_of_blob X blob = Ok resp"
    by (simp add: response_of_blob_def marshall_def blob(3))
  have "blob_of_response X resp = Ok blob"
    by (rule blob_of_response_of_blob [OF resp]) (use blob in \<open>auto simp: unmarshall_marshall\<close>)
  then have "delivers X kpub wrapped_for (kpub kt) k resp"
    using blob by (auto simp: delivers_def)
  moreover have "authorize_node K (es_kube_client self) node w = (Ok (), w0)"
    using node(1) by (simp add: authorize_node_Ok_iff)
  ultimately show ?thesis
    using peer pt blob(1,2) resp r
    by (simp add: handle_duplicate_def bindR_apply map_err_apply on_world_def with_context_def)
qed

lemma duplicate_ok:
  assumes ready: "listener_ready kpub extend_policy (view w) self k"
    and permit: "es_remaining self \<noteq> 0"
    and peer: "peer_node_name P request = Ok node"
    and node: "kube_get_node K (es_kube_client self) node w = (Ok (), w0)" "view w0 = view w"
    and pt: "public_unmarshall X (joiner_transport_public (get_ref request)) = Ok (kpub kt)"
  shows "\<exists>resp w'. duplicate X P K request (self, w) =
      (Ok resp, (self\<lparr>es_remaining := es_remaining self - 1,
         es_done := (es_done self \<or> es_remaining self = 1)\<rparr>, w')) \<and>
    view w' = view w \<and> delivers X kpub wrapped_for (kpub kt) k resp"
proof -
  let ?self = "self\<lparr>es_remaining := es_remaining self - 1\<rparr>"
  have "listener_ready kpub extend_policy (view w) ?self k"
    using ready by (simp add: listener_ready_def)
  then obtain resp w' where "handle_duplicate X P K request (?self, w) = (Ok resp, (?self, w'))"
    "view w' = view w" "delivers X kpub wrapped_for (kpub kt) k resp"
    using handle_duplicate_ok [OF _ peer _ node(2) pt] node(1) by fastforce
  with permit show ?thesis
    by (auto simp: duplicate_def take_permit_def Let_def)
qed

lemma run_join_ok:
  assumes tc: "tcti_from_str X tcti = Ok tc" "reachable tc"
    and chan: "\<And>w. join_channel D fs seed dir w = (Ok ch, w)"
    and kt: "kt = v_primary (view w) (fleet_template (extend_policy [] CommandDuplicate))"
    and reply: "\<And>b w. public_marshall X (kpub kt) = Ok b \<Longrightarrow>
       client_duplicate D ch \<lparr>joiner_transport_public = b\<rparr> w = (Ok resp, w)"
    and del: "delivers X kpub wrapped_for (kpub kt) k resp"
  shows "runs_ok (run_join X D fs seed tcti dir) w (\<lambda>_ w'.
    v_nv (view w') = (v_nv (view w))(FLEET_KEY_PERSISTENT_HANDLE := Some k) \<and>
    v_primary (view w') = v_primary (view w))"
proof -
  obtain c w1 where c: "context_new X tc w = (Ok c, w1)" "view w1 = open_context c (view w)"
    using context_new [OF tc(2), of w] by (auto simp: runs_ok_iff)
  have idle: "idle (view w1) c" by (simp add: c idle_def view_simps)
  have kt': "kt = v_primary (view w1) (fleet_template (extend_policy [] CommandDuplicate))"
    using kt by (simp add: c view_simps)
  obtain h w2 where h: "create_transport_key X c w1 = (Ok (h, kpub kt), w2)"
    "view w2 = put_tr c (object_of_key h) (Some (TransientKey kt)) (view w1)"
    using create_transport_key_ok [OF idle kt'] by (auto simp: runs_ok_iff)
  obtain b where b: "public_marshall X (kpub kt) = Ok b" using key_marshalls by blast
  obtain blob d where blob: "blob_of_response X resp = Ok blob" "fleet_key_public blob = kpub k"
    "blob_encryption_key blob = Some d"
    "wrapped_for (kpub kt) k d (duplicate_private blob) (blob_encrypted_secret blob)"
    using del by (auto simp: delivers_def)
  have "idle (view w2) c" "v_tr (view w2) c (object_of_key h) = Some (TransientKey kt)"
    using idle by (simp_all add: h view_simps)
  from import_and_persist_ok [OF this blob(2-4)] show ?thesis
    using tc c h b chan reply [OF b] blob(1)
    by (auto simp: run_join_def exec_simps join_marshall_def view_simps)
qed

end

section \<open>The handler, branch by branch\<close>

lemma handle_duplicate_unauthenticated:
  "peer_node_name P request = Err e \<Longrightarrow> handle_duplicate X P K request (self, w) = (Err e, (self, w))"
  by (simp add: handle_duplicate_def bindR_apply)

lemma handle_duplicate_unauthorised:
  "peer_node_name P request = Ok node \<Longrightarrow> kube_get_node K (es_kube_client self) node w = (Err e, w1) \<Longrightarrow>
   handle_duplicate X P K request (self, w) = (Err (denied (NotAuthorized (UnknownNode node))), (self, w1))"
  by (simp add: handle_duplicate_def bindR_apply on_world_def map_err_apply authorize_node_def)

lemma handle_duplicate_authorised:
  "peer_node_name P request = Ok node \<Longrightarrow> kube_get_node K (es_kube_client self) node w = (Ok u, w1) \<Longrightarrow>
   handle_duplicate X P K request (self, w) =
     bindR (lift (omap_err (\<lambda>e. internal (UnmarshallingJoinerPublic e))
       (public_unmarshall X (joiner_transport_public (get_ref request))))) (\<lambda>joiner_public.
     bindR (\<lambda>(self, w). with_context (\<lambda>context. map_err (\<lambda>e. internal (FleetFailed e))
       (duplicate_for_joiner X context (es_fleet_key_handle self) joiner_public)) (self, w)) (\<lambda>blob.
     lift (response_of_blob X blob))) (self, w1)"
  by (simp add: handle_duplicate_def bindR_apply on_world_def map_err_apply authorize_node_def)

lemma handle_duplicate_Ok:
  assumes "handle_duplicate X P K request (self, w) = (Ok resp, sw)"
  obtains node w1 where "peer_node_name P request = Ok node"
    and "kube_get_node K (es_kube_client self) node w = (Ok (), w1)"
proof (cases "peer_node_name P request")
  case (Ok node)
  obtain r w1 where k: "kube_get_node K (es_kube_client self) node w = (r, w1)" by fastforce
  show thesis
    using assms that [OF Ok] k Ok
    by (cases r) (auto simp: handle_duplicate_def bindR_apply on_world_def map_err_apply authorize_node_def)
qed (use assms in \<open>auto simp: handle_duplicate_def bindR_apply\<close>)

lemma with_context_service:
  "with_context body (self, w) = (r, (self', w')) \<Longrightarrow> \<not> is_panic r \<Longrightarrow> self' = self"
  by (auto simp: with_context_def split: if_splits prod.splits outcome.splits)

lemma with_context_Err:
  assumes "with_context (\<lambda>c. map_err g (body c)) (self, w) = (Err e, sw)"
  obtains "e = internal ContextPoisoned" | t where "e = g t"
  using assms
  by (auto simp: with_context_def split: if_splits prod.splits outcome.splits elim!: map_err_ErrE)

lemma response_of_blob_Err:
  assumes "response_of_blob X blob = Err e"
  obtains t where "e = internal (MarshallFailed t)"
  using assms by (auto simp: response_of_blob_def marshall_def elim!: obind_ErrE omap_err_ErrE)

lemma authorised_not_denied:
  assumes "peer_node_name P request = Ok node" and "kube_get_node K (es_kube_client self) node w = (Ok u, w1)"
    and "handle_duplicate X P K request (self, w) = (Err e, sw)"
  obtains reason where "e = internal reason"
  using assms(3) unfolding handle_duplicate_authorised [OF assms(1,2)]
  by (elim bindR_ErrE)
    (auto elim!: omap_err_ErrE with_context_Err response_of_blob_Err intro: that)

lemma handle_duplicate_service:
  assumes "handle_duplicate X P K request (self, w) = (r, (self', w'))" and "\<not> is_panic r"
  shows "self' = self"
  using assms
  by (auto simp: handle_duplicate_def bindR_apply on_world_def split: prod.splits outcome.splits
      dest: with_context_service)


section \<open>The handler with its permit\<close>

lemma duplicate_exhausted:
  "es_remaining self = 0 \<Longrightarrow> duplicate X P K request (self, w) = (Err (denied MaxAlreadyReached), (self, w))"
  by (simp add: duplicate_def take_permit_def restore_permit_def)

lemma duplicate_served:
  assumes "es_remaining self \<noteq> 0"
    and "handle_duplicate X P K request (self\<lparr>es_remaining := es_remaining self - 1\<rparr>, w) = (Ok resp, (s2, w2))"
  shows "duplicate X P K request (self, w) =
    (Ok resp, (self\<lparr>es_remaining := es_remaining self - 1,
       es_done := (es_done self \<or> es_remaining self = 1)\<rparr>, w2))"
  using assms handle_duplicate_service [OF assms(2)]
  by (auto simp: duplicate_def take_permit_def Let_def)

lemma duplicate_failed:
  assumes "es_remaining self \<noteq> 0"
    and "handle_duplicate X P K request (self\<lparr>es_remaining := es_remaining self - 1\<rparr>, w) = (Err e, (s2, w2))"
  shows "duplicate X P K request (self, w) = (Err e, (self, w2))"
  using assms handle_duplicate_service [OF assms(2)]
  by (simp add: duplicate_def take_permit_def restore_permit_def Let_def)

lemma duplicate_panicked:
  assumes "es_remaining self \<noteq> 0"
    and "handle_duplicate X P K request (self\<lparr>es_remaining := es_remaining self - 1\<rparr>, w) = (Panic e, sw)"
  shows "duplicate X P K request (self, w) = (Panic e, sw)"
  using assms by (simp add: duplicate_def take_permit_def Let_def)

lemma duplicate_OkE:
  assumes "duplicate X P K request (self, w) = (Ok resp, sw)"
  obtains s2 w2 where "es_remaining self \<noteq> 0"
    and "sw = (self\<lparr>es_remaining := es_remaining self - 1,
       es_done := (es_done self \<or> es_remaining self = 1)\<rparr>, w2)"
    and "handle_duplicate X P K request (self\<lparr>es_remaining := es_remaining self - 1\<rparr>, w) = (Ok resp, (s2, w2))"
proof (cases "es_remaining self = 0")
  case True
  with assms show thesis by (simp add: duplicate_exhausted)
next
  case False
  obtain r s2 w2 where "handle_duplicate X P K request (self\<lparr>es_remaining := es_remaining self - 1\<rparr>, w) = (r, (s2, w2))"
    by (metis prod.collapse)
  with assms False show thesis
    by (cases r) (auto simp: duplicate_served duplicate_failed duplicate_panicked intro: that)
qed

lemma duplicate_ErrE:
  assumes "duplicate X P K request (self, w) = (Err e, sw)"
  obtains "es_remaining self = 0" and "e = denied MaxAlreadyReached" and "sw = (self, w)"
  | s2 w2 where "es_remaining self \<noteq> 0" and "sw = (self, w2)"
      and "handle_duplicate X P K request (self\<lparr>es_remaining := es_remaining self - 1\<rparr>, w) = (Err e, (s2, w2))"
proof (cases "es_remaining self = 0")
  case True
  with assms show thesis by (simp add: duplicate_exhausted that(1))
next
  case False
  obtain r s2 w2 where "handle_duplicate X P K request (self\<lparr>es_remaining := es_remaining self - 1\<rparr>, w) = (r, (s2, w2))"
    by (metis prod.collapse)
  with assms False show thesis
    by (cases r) (auto simp: duplicate_served duplicate_failed duplicate_panicked intro: that(2))
qed

end
