(* ===== verification/App_Spec.thy ===== *)
theory App_Spec
  imports Enroll_Spec
begin

text \<open>
  The subcommands over the contract of the TPM: \<open>genesis\<close> persists the fleet key,
  the service that \<open>enroll\<close> builds is ready for requests, \<open>serve\<close> prefers the
  fleet key and keeps the per-node key for old ciphertexts, and two nodes with the
  same fleet key decrypt each other's ciphertexts.
\<close>

text \<open>
  Two nodes interoperate when both serve from their present state and what the
  service of the first encrypts, the service of the second decrypts.
\<close>

definition interoperates :: "'w tss \<Rightarrow> tcti \<Rightarrow> 'w \<Rightarrow> 'w \<Rightarrow> bool" where
  "interoperates X tc w v =
     (\<exists>ss w1 sv v1. serve_sealers X tc False w = (Ok ss, w1) \<and>
        serve_sealers X tc False v = (Ok sv, v1) \<and>
        (\<forall>req. length (enc_plaintext req) \<le> MAX_SEAL_DATA \<longrightarrow>
          (\<exists>resp w2. encrypt X req (serve_service ss, w1) = (Ok resp, (serve_service ss, w2)) \<and>
            (\<forall>uid ann. \<exists>v2. decrypt X \<lparr>dec_ciphertext = enc_ciphertext resp, dec_uid = uid,
               dec_key_id = enc_key_id resp, dec_annotations = ann\<rparr> (serve_service sv, v1) =
                 (Ok \<lparr>dec_plaintext = enc_plaintext req\<rparr>, (serve_service sv, v2))))))"

text \<open>A dialer whose requests are answered by the handler of a seed in a given state.\<close>

definition answered_by ::
  "'w tss \<Rightarrow> 'w pki \<Rightarrow> 'w kube \<Rightarrow> bytes list option \<Rightarrow> 'w enroll_world \<Rightarrow> 'w dialer \<Rightarrow> 'w dialer" where
  "answered_by X P K certs seed D = D\<lparr>client_duplicate := (\<lambda>ch req w. (omap_err SeedStatus
     (fst (duplicate X P K \<lparr>peer_certs = certs, get_ref = req\<rparr> seed)), w))\<rparr>"

text \<open>The key of \<open>serve\<close> on a device: the fleet key if there is one, else the per-node key.\<close>

definition serving_key :: "'k tpm_view \<Rightarrow> 'k" where
  "serving_key v = (case v_nv v FLEET_KEY_PERSISTENT_HANDLE of Some k \<Rightarrow> k | None \<Rightarrow> v_primary v srk_template)"

text \<open>What a restart or a reboot keeps of a device: its persistent keys and its owner seed.\<close>

definition same_device :: "'k tpm_view \<Rightarrow> 'k tpm_view \<Rightarrow> bool" where
  "same_device v v' = (v_nv v' = v_nv v \<and> v_primary v' = v_primary v)"

text \<open>The subcommand that sets up files.\<close>

fun is_serve :: "Command \<Rightarrow> bool" where
  "is_serve (Serve socket force_legacy) = True"
| "is_serve command = False"

lemma answered_by_fields:
  "join_channel (answered_by X P K certs seed D) fs addr dir = join_channel D fs addr dir"
  "client_duplicate (answered_by X P K certs seed D) ch req w = (omap_err SeedStatus
     (fst (duplicate X P K \<lparr>peer_certs = certs, get_ref = req\<rparr> seed)), w)"
  by (simp_all add: join_channel_def answered_by_def)

text \<open>The key that the owner seed of a device gives for the fleet template.\<close>

abbreviation fleet_primary ::
  "(digest \<Rightarrow> command_code \<Rightarrow> digest) \<Rightarrow> 'k tpm_view \<Rightarrow> 'k" where
  "fleet_primary extend_policy v \<equiv> v_primary v (fleet_template (extend_policy [] CommandDuplicate))"

lemma sealer_ready_other_context:
  assumes "sealer_ready X kpub name_of v s k" and "c \<noteq> sealer_context s"
  shows "sealer_ready X kpub name_of (put_tr c h e (open_context c v)) s k"
  using assms by (simp add: sealer_ready_def idle_def key_at_def view_simps)

lemma TpmSealer_drop_persistent: "\<not> sealer_owns_transient_primary s \<Longrightarrow> TpmSealer_drop X s w = w"
  by (simp add: TpmSealer_drop_def)

context tpm_device
begin

lemma context_new_idle:
  assumes "reachable tc"
  obtains c w1 where "context_new X tc w = (Ok c, w1)" and "\<not> v_open (view w) c"
    and "view w1 = open_context c (view w)" and "idle (view w1) c"
    and "v_nv (view w1) = v_nv (view w)" and "v_primary (view w1) = v_primary (view w)"
proof -
  obtain c w1 where "context_new X tc w = (Ok c, w1)" "\<not> v_open (view w) c"
    "view w1 = open_context c (view w)"
    using context_new [OF assms, of w] by (auto simp: runs_ok_iff)
  then show thesis by (intro that [of c w1]) (simp_all add: idle_def view_simps)
qed

lemma run_genesis_new_ok:
  assumes "tcti_from_str X tcti = Ok tc" and "reachable tc"
    and "force \<or> v_nv (view w) FLEET_KEY_PERSISTENT_HANDLE = None"
  shows "runs_ok (run_genesis X tcti force) w (\<lambda>_ w'.
    v_nv (view w') = (v_nv (view w))(FLEET_KEY_PERSISTENT_HANDLE := Some (fleet_primary extend_policy (view w))) \<and>
    v_primary (view w') = v_primary (view w))"
proof -
  obtain c w1 where c: "context_new X tc w = (Ok c, w1)" "idle (view w1) c"
    "v_nv (view w1) = v_nv (view w)" "v_primary (view w1) = v_primary (view w)"
    using context_new_idle [OF assms(2)] by metis
  have "runs_ok (create_fleet_key X c force) w1 (\<lambda>h w'.
      v_nv (view w') = (v_nv (view w1))(FLEET_KEY_PERSISTENT_HANDLE := Some (fleet_primary extend_policy (view w1))) \<and>
      v_primary (view w') = v_primary (view w1))"
  proof (cases force)
    case True
    then show ?thesis by (auto intro: runs_ok_mono [OF create_fleet_key_force_ok [OF c(2) refl]])
  next
    case False
    with assms(3) c(3) show ?thesis
      by (auto intro: runs_ok_mono [OF create_fleet_key_fresh_ok [OF c(2) _ refl]])
  qed
  with assms(1) c show ?thesis by (auto simp: run_genesis_def exec_simps)
qed

lemma run_genesis_existing_ok:
  assumes "tcti_from_str X tcti = Ok tc" and "reachable tc"
    and "v_nv (view w) FLEET_KEY_PERSISTENT_HANDLE = Some k"
  shows "runs_ok (run_genesis X tcti False) w (\<lambda>_ w'. v_nv (view w') = v_nv (view w) \<and>
    v_primary (view w') = v_primary (view w))"
proof -
  obtain c w1 where c: "context_new X tc w = (Ok c, w1)" "idle (view w1) c"
    "v_nv (view w1) = v_nv (view w)" "v_primary (view w1) = v_primary (view w)"
    using context_new_idle [OF assms(2)] by metis
  then have "v_nv (view w1) FLEET_KEY_PERSISTENT_HANDLE = Some k" using assms(3) by simp
  from create_fleet_key_existing_ok [OF c(2) this] assms(1) c show ?thesis
    by (auto simp: run_genesis_def exec_simps)
qed

text \<open>The service that \<open>run_enroll\<close> builds on a device with a fleet key is ready.\<close>

lemma enroll_service_ready:
  assumes "reachable tc" and "v_nv (view w) FLEET_KEY_PERSISTENT_HANDLE = Some k"
    and "fleet_key kpub extend_policy k"
  obtains c h w1 w2 where "context_new X tc w = (Ok c, w1)" and "load_fleet_key X c w1 = (Ok h, w2)"
    and "\<And>client n. listener_ready kpub extend_policy (view w2) (enroll_service c h client n) k"
    and "v_nv (view w2) = v_nv (view w)" and "v_primary (view w2) = v_primary (view w)"
proof -
  obtain c w1 where c: "context_new X tc w = (Ok c, w1)" "idle (view w1) c"
    "v_nv (view w1) = v_nv (view w)" "v_primary (view w1) = v_primary (view w)"
    using context_new_idle [OF assms(1)] by metis
  then obtain h w2 where h: "load_fleet_key X c w1 = (Ok h, w2)"
    "view w2 = put_tr c (object_of_key h) (Some (PersistentKey FLEET_KEY_PERSISTENT_HANDLE k)) (view w1)"
    using load_fleet_key_present [of w1 c k] assms(2) by (auto simp: runs_ok_iff)
  show thesis
    by (rule that [OF c(1) h(1)])
      (use c assms in \<open>simp_all add: h(2) listener_ready_def enroll_service_def mutex_new_def
         key_at_put_tr view_simps\<close>)
qed

lemma build_sealer_fleet_ok:
  assumes "reachable tc" and "v_nv (view w) FLEET_KEY_PERSISTENT_HANDLE = Some k"
  shows "runs_ok (build_sealer X tc) w (\<lambda>(s, l) w'. \<exists>legacy. l = Some legacy \<and>
    sealer_ready X kpub name_of (view w') s k \<and> \<not> sealer_owns_transient_primary s \<and>
    sealer_ready X kpub name_of (view w') legacy (v_primary (view w) srk_template) \<and>
    sealer_owns_transient_primary legacy \<and> v_nv (view w') = v_nv (view w) \<and>
    v_primary (view w') = v_primary (view w))"
proof -
  obtain c w1 where c: "context_new X tc w = (Ok c, w1)" "idle (view w1) c"
    "v_nv (view w1) = v_nv (view w)" "v_primary (view w1) = v_primary (view w)"
    using context_new_idle [OF assms(1)] by metis
  then obtain h w2 where h: "load_fleet_key X c w1 = (Ok h, w2)"
    "view w2 = put_tr c (object_of_key h) (Some (PersistentKey FLEET_KEY_PERSISTENT_HANDLE k)) (view w1)"
    using load_fleet_key_present [of w1 c k] assms(2) by (auto simp: runs_ok_iff)
  have "idle (view w2) c" "key_at (view w2) c h = Some k"
    using c assms(2) by (simp_all add: h(2) key_at_put_tr)
  then obtain s w3 where s: "TpmSealer_from_primary X c h w2 = (Ok s, w3)" "view w3 = view w2"
    "sealer_context s = c" "sealer_ready X kpub name_of (view w3) s k"
    "\<not> sealer_owns_transient_primary s"
    using TpmSealer_from_primary_ok [of w2 c h k] by (auto simp: runs_ok_iff)
  obtain l w4 where l: "TpmSealer_new X tc w3 = (Ok l, w4)" "\<not> v_open (view w3) (sealer_context l)"
    "view w4 = put_tr (sealer_context l) (object_of_key (sealer_primary l))
       (Some (TransientKey (v_primary (view w3) srk_template))) (open_context (sealer_context l) (view w3))"
    "sealer_ready X kpub name_of (view w4) l (v_primary (view w3) srk_template)"
    "sealer_owns_transient_primary l"
    using TpmSealer_new_ok [OF assms(1) refl, of w3] by (auto simp: runs_ok_iff)
  have "sealer_context l \<noteq> sealer_context s"
    using l(2) s(4) by (auto simp: sealer_ready_def idle_def)
  then have "sealer_ready X kpub name_of (view w4) s k"
    unfolding l(3) by (rule sealer_ready_other_context [OF s(4)])
  moreover have "v_primary (view w3) = v_primary (view w)" "v_nv (view w4) = v_nv (view w)"
    "v_primary (view w4) = v_primary (view w)"
    using c by (simp_all add: l(3) s(2) h(2) view_simps)
  ultimately show ?thesis
    using c(1) h(1) s l by (simp add: build_sealer_def exec_simps)
qed

lemma build_sealer_srk_ok:
  assumes "reachable tc" and "v_nv (view w) FLEET_KEY_PERSISTENT_HANDLE = None"
  shows "runs_ok (build_sealer X tc) w (\<lambda>(s, l) w'. l = None \<and>
    sealer_ready X kpub name_of (view w') s (v_primary (view w) srk_template) \<and>
    sealer_owns_transient_primary s \<and> v_nv (view w') = v_nv (view w) \<and>
    v_primary (view w') = v_primary (view w))"
proof -
  obtain c w1 where c: "context_new X tc w = (Ok c, w1)" "idle (view w1) c"
    "v_nv (view w1) = v_nv (view w)" "v_primary (view w1) = v_primary (view w)"
    using context_new_idle [OF assms(1)] by metis
  then obtain e w2 where e: "load_fleet_key X c w1 = (Err e, w2)" "view w2 = view w1"
    using load_fleet_key_absent [of w1 c] assms(2) by (auto simp: runs_err_iff)
  obtain l w4 where l: "TpmSealer_new X tc w2 = (Ok l, w4)"
    "view w4 = put_tr (sealer_context l) (object_of_key (sealer_primary l))
       (Some (TransientKey (v_primary (view w2) srk_template))) (open_context (sealer_context l) (view w2))"
    "sealer_ready X kpub name_of (view w4) l (v_primary (view w2) srk_template)"
    "sealer_owns_transient_primary l"
    using TpmSealer_new_ok [OF assms(1) refl, of w2] by (auto simp: runs_ok_iff)
  have "v_nv (view w4) = v_nv (view w)" "v_primary (view w4) = v_primary (view w)"
    using c e by (simp_all add: l(2) view_simps)
  then show ?thesis using c e l by (simp add: build_sealer_def exec_simps)
qed

lemma serve_service_fleet:
  assumes "reachable tc" and "v_nv (view w) FLEET_KEY_PERSISTENT_HANDLE = Some k"
  obtains s legacy w' where "serve_sealers X tc False w = (Ok (s, Some legacy), w')"
    and "serve_service (s, Some legacy) = with_legacy_fallback s legacy"
    and "sealer_ready X kpub name_of (view w') s k"
    and "sealer_ready X kpub name_of (view w') legacy (v_primary (view w) srk_template)"
  using build_sealer_fleet_ok [OF assms]
  by (auto simp: serve_sealers_def serve_service_def map_err_apply runs_ok_iff)

text \<open>
  Two devices that hold the same key at the fleet handle: what the service of one
  encrypts, the service of the other decrypts.
\<close>

lemma same_fleet_key_interoperates:
  assumes "reachable tc" and "v_nv (view w) FLEET_KEY_PERSISTENT_HANDLE = Some k"
    and "v_nv (view v) FLEET_KEY_PERSISTENT_HANDLE = Some k"
  shows "interoperates X tc w v"
proof -
  obtain s l w1 where s: "serve_sealers X tc False w = (Ok (s, Some l), w1)"
    "sealer_ready X kpub name_of (view w1) s k"
    by (rule serve_service_fleet [OF assms(1,2)])
  obtain s' l' v1 where s': "serve_sealers X tc False v = (Ok (s', Some l'), v1)"
    "sealer_ready X kpub name_of (view v1) s' k"
    by (rule serve_service_fleet [OF assms(1,3)])
  have "\<exists>resp w2. encrypt X req (with_legacy_fallback s l, w1) = (Ok resp, (with_legacy_fallback s l, w2)) \<and>
      (\<forall>uid ann. \<exists>v2. decrypt X \<lparr>dec_ciphertext = enc_ciphertext resp, dec_uid = uid,
         dec_key_id = enc_key_id resp, dec_annotations = ann\<rparr> (with_legacy_fallback s' l', v1) =
           (Ok \<lparr>dec_plaintext = enc_plaintext req\<rparr>, (with_legacy_fallback s' l', v2)))"
    if "length (enc_plaintext req) \<le> MAX_SEAL_DATA" for req
    using sealer.encrypt_decrypt [of "with_legacy_fallback s l" w1 k "with_legacy_fallback s' l'" v1 req]
      s(2) s'(2) that by (auto simp: with_legacy_fallback_def mutex_new_def)
  with s(1) s'(1) show ?thesis unfolding interoperates_def by (force simp: serve_service_def)
qed

lemma join_from_listener_ok:
  assumes tcti: "tcti_from_str X tcti = Ok tc" "reachable tc"
    and seed: "listener_ready kpub extend_policy (view ws) self k" "es_remaining self \<noteq> 0"
    and member: "\<And>w. kube_get_node K (es_kube_client self) node w = (Ok (), w)"
    and peer: "\<And>req. peer_node_name P \<lparr>peer_certs = certs, get_ref = req\<rparr> = Ok node"
    and chan: "\<And>w. join_channel D fs addr dir w = (Ok ch, w)"
    and reply: "\<And>req w. client_duplicate D ch req w = (omap_err SeedStatus
       (fst (duplicate X P K \<lparr>peer_certs = certs, get_ref = req\<rparr> (self, ws))), w)"
  shows "runs_ok (run_join X D fs addr tcti dir) wj (\<lambda>_ w'.
    v_nv (view w') = (v_nv (view wj))(FLEET_KEY_PERSISTENT_HANDLE := Some k) \<and>
    v_primary (view w') = v_primary (view wj))"
proof -
  let ?kt = "fleet_primary extend_policy (view wj)"
  obtain b where b: "public_marshall X (kpub ?kt) = Ok b" using key_marshalls by blast
  then have "public_unmarshall X b = Ok (kpub ?kt)" by (rule unmarshall_marshall)
  then obtain resp where resp: "delivers X kpub wrapped_for (kpub ?kt) k resp"
    "fst (duplicate X P K \<lparr>peer_certs = certs, get_ref = \<lparr>joiner_transport_public = b\<rparr>\<rparr> (self, ws)) = Ok resp"
    using duplicate_ok [OF seed peer member refl, of "\<lparr>joiner_transport_public = b\<rparr>" ?kt] by auto
  show ?thesis
    by (rule run_join_ok [OF tcti chan refl _ resp(1)]) (use b resp(2) in \<open>simp add: reply\<close>)
qed

lemma genesis_enroll_join_keys:
  assumes tcti: "tcti_from_str X tcti = Ok tc" "reachable tc"
    and genesis: "force \<or> v_nv (view ws) FLEET_KEY_PERSISTENT_HANDLE = None"
    and permits: "n \<noteq> 0"
    and member: "\<And>w. kube_get_node K client node w = (Ok (), w)"
    and peer: "\<And>req. peer_node_name P \<lparr>peer_certs = certs, get_ref = req\<rparr> = Ok node"
    and chan: "\<And>w. join_channel D fs addr dir w = (Ok ch, w)"
  shows "\<exists>ws1 c ws2 h ws3 wj1. run_genesis X tcti force ws = (Ok (), ws1) \<and>
    context_new X tc ws1 = (Ok c, ws2) \<and> load_fleet_key X c ws2 = (Ok h, ws3) \<and>
    run_join X (answered_by X P K certs (enroll_service c h client n, ws3) D) fs addr tcti dir wj =
      (Ok (), wj1) \<and>
    v_nv (view ws3) FLEET_KEY_PERSISTENT_HANDLE = Some (fleet_primary extend_policy (view ws)) \<and>
    v_nv (view wj1) FLEET_KEY_PERSISTENT_HANDLE = Some (fleet_primary extend_policy (view ws))"
proof -
  let ?k = "fleet_primary extend_policy (view ws)"
  obtain ws1 where g: "run_genesis X tcti force ws = (Ok (), ws1)"
    "v_nv (view ws1) FLEET_KEY_PERSISTENT_HANDLE = Some ?k"
    using run_genesis_new_ok [OF tcti genesis] by (auto simp: runs_ok_iff)
  obtain c h ws2 ws3 where e: "context_new X tc ws1 = (Ok c, ws2)" "load_fleet_key X c ws2 = (Ok h, ws3)"
    and ready: "\<And>client n. listener_ready kpub extend_policy (view ws3) (enroll_service c h client n) ?k"
    and nv: "v_nv (view ws3) = v_nv (view ws1)"
    by (rule enroll_service_ready [OF tcti(2) g(2) fleet_template_key]) blast
  let ?self = "enroll_service c h client n"
  have es: "es_remaining ?self \<noteq> 0" "es_kube_client ?self = client"
    using permits by (simp_all add: enroll_service_def)
  obtain wj1 where "run_join X (answered_by X P K certs (?self, ws3) D) fs addr tcti dir wj = (Ok (), wj1)"
    "v_nv (view wj1) FLEET_KEY_PERSISTENT_HANDLE = Some ?k"
    using join_from_listener_ok [OF tcti ready es(1) _ peer, of K "answered_by X P K certs (?self, ws3) D"
        fs addr dir ch wj] chan member es(2)
    by (auto simp: runs_ok_iff answered_by_fields)
  with g e nv show ?thesis by auto
qed

lemma genesis_enroll_join_ok:
  assumes tcti: "tcti_from_str X tcti = Ok tc" "reachable tc"
    and genesis: "force \<or> v_nv (view ws) FLEET_KEY_PERSISTENT_HANDLE = None"
    and permits: "n \<noteq> 0"
    and member: "\<And>w. kube_get_node K client node w = (Ok (), w)"
    and peer: "\<And>req. peer_node_name P \<lparr>peer_certs = certs, get_ref = req\<rparr> = Ok node"
    and chan: "\<And>w. join_channel D fs addr dir w = (Ok ch, w)"
  shows "\<exists>ws1 c ws2 h ws3 wj1. run_genesis X tcti force ws = (Ok (), ws1) \<and>
    context_new X tc ws1 = (Ok c, ws2) \<and> load_fleet_key X c ws2 = (Ok h, ws3) \<and>
    run_join X (answered_by X P K certs (enroll_service c h client n, ws3) D) fs addr tcti dir wj =
      (Ok (), wj1) \<and>
    interoperates X tc ws3 wj1 \<and> interoperates X tc wj1 ws3"
  using genesis_enroll_join_keys [OF assms, of wj] same_fleet_key_interoperates [OF tcti(2)] by metis

text \<open>What \<open>serve\<close> picks and what it can still read.\<close>

lemma serve_service_srk:
  assumes "reachable tc" and "v_nv (view w) FLEET_KEY_PERSISTENT_HANDLE = None"
  obtains s w' where "serve_sealers X tc False w = (Ok (s, None), w')"
    and "sealer_ready X kpub name_of (view w') s (v_primary (view w) srk_template)"
  using build_sealer_srk_ok [OF assms]
  by (auto simp: serve_sealers_def map_err_apply runs_ok_iff)

lemma legacy_ciphertext_readable:
  assumes "reachable tc" and k: "k = v_primary (view v) srk_template"
    and ids: "\<And>kf. v_nv (view v) FLEET_KEY_PERSISTENT_HANDLE = Some kf \<Longrightarrow>
       key_id_of_name X (name_of (kpub kf)) \<noteq> key_id_of_name X (name_of (kpub k))"
    and ct: "sealed_envelope X sealed_under k (dec_ciphertext req) d"
    and id: "dec_key_id req = key_id_of_name X (name_of (kpub k))"
  shows "\<exists>sv v1 v2. serve_sealers X tc False v = (Ok sv, v1) \<and>
    decrypt X req (serve_service sv, v1) = (Ok \<lparr>dec_plaintext = d\<rparr>, (serve_service sv, v2))"
proof (cases "v_nv (view v) FLEET_KEY_PERSISTENT_HANDLE")
  case None
  obtain s v1 where s: "serve_sealers X tc False v = (Ok (s, None), v1)"
    "sealer_ready X kpub name_of (view v1) s k"
    using serve_service_srk [OF assms(1) None] k by metis
  let ?self = "KmsService_new s"
  have "\<not> mutex_poisoned (kms_sealer ?self)" and r: "mutex_data (kms_sealer ?self) = s"
    by (simp_all add: KmsService_new_def mutex_new_def)
  then obtain v2 where "decrypt X req (?self, v1) = (Ok \<lparr>dec_plaintext = d\<rparr>, (?self, v2))"
    using sealer.decrypt_preferred_ok [of ?self v1 k req d] s(2) ct id by (auto simp: sealer_ready_def)
  with s(1) show ?thesis by (force simp: serve_service_def)
next
  case (Some kf)
  obtain s l v1 where s: "serve_sealers X tc False v = (Ok (s, Some l), v1)"
    "serve_service (s, Some l) = with_legacy_fallback s l"
    "sealer_ready X kpub name_of (view v1) s kf" "sealer_ready X kpub name_of (view v1) l k"
    using serve_service_fleet [OF assms(1) Some] k by metis
  let ?self = "with_legacy_fallback s l"
  have "dec_key_id req = sealer_key_id l" "dec_key_id req \<noteq> sealer_key_id s"
    using s(3,4) id ids [OF Some] by (simp_all add: sealer_ready_def)
  then obtain v2 where "decrypt X req (?self, v1) = (Ok \<lparr>dec_plaintext = d\<rparr>, (?self, v2))"
    using sealer.decrypt_legacy_ok [of ?self "mutex_new l" v1 k req d] s(4) ct
    by (auto simp: with_legacy_fallback_def mutex_new_def)
  with s(1,2) show ?thesis by metis
qed

lemma srk_ciphertext_readable:
  assumes tc: "reachable tc" and "v_nv (view w) FLEET_KEY_PERSISTENT_HANDLE = None"
    and "v_primary (view v) = v_primary (view w)"
    and "\<And>kf. v_nv (view v) FLEET_KEY_PERSISTENT_HANDLE = Some kf \<Longrightarrow>
       key_id_of_name X (name_of (kpub kf)) \<noteq>
       key_id_of_name X (name_of (kpub (v_primary (view w) srk_template)))"
    and "length (enc_plaintext req) \<le> MAX_SEAL_DATA"
  shows "\<exists>ss w1 resp w2 sv v1. serve_sealers X tc False w = (Ok ss, w1) \<and>
    encrypt X req (serve_service ss, w1) = (Ok resp, (serve_service ss, w2)) \<and>
    serve_sealers X tc False v = (Ok sv, v1) \<and>
    (\<forall>uid ann. \<exists>v2. decrypt X \<lparr>dec_ciphertext = enc_ciphertext resp, dec_uid = uid,
       dec_key_id = enc_key_id resp, dec_annotations = ann\<rparr> (serve_service sv, v1) =
         (Ok \<lparr>dec_plaintext = enc_plaintext req\<rparr>, (serve_service sv, v2)))"
proof -
  let ?k = "v_primary (view w) srk_template"
  obtain s w1 where s: "serve_sealers X tc False w = (Ok (s, None), w1)"
    "sealer_ready X kpub name_of (view w1) s ?k"
    by (rule serve_service_srk [OF tc assms(2)])
  let ?self = "KmsService_new s"
  have f: "\<not> mutex_poisoned (kms_sealer ?self)" "mutex_data (kms_sealer ?self) = s"
    by (simp_all add: KmsService_new_def mutex_new_def)
  then obtain ct w2 where e: "encrypt X req (?self, w1) =
       (Ok \<lparr>enc_ciphertext = ct, enc_key_id = sealer_key_id s, enc_annotations = []\<rparr>, (?self, w2))"
    "sealed_envelope X sealed_under ?k ct (enc_plaintext req)"
    using sealer.encrypt_ok [of ?self w1 ?k req] s(2) assms(5) by metis
  have d: "\<exists>sv v1 v2. serve_sealers X tc False v = (Ok sv, v1) \<and>
      decrypt X \<lparr>dec_ciphertext = ct, dec_uid = uid, dec_key_id = sealer_key_id s, dec_annotations = ann\<rparr>
        (serve_service sv, v1) = (Ok \<lparr>dec_plaintext = enc_plaintext req\<rparr>, (serve_service sv, v2))" for uid ann
    by (rule legacy_ciphertext_readable [OF tc, of ?k])
      (use assms(3,4) e(2) s(2) in \<open>simp_all add: sealer_ready_def\<close>)
  obtain sv v1 where "serve_sealers X tc False v = (Ok sv, v1)" using d by blast
  with d have "\<exists>v2. decrypt X \<lparr>dec_ciphertext = ct, dec_uid = uid, dec_key_id = sealer_key_id s,
      dec_annotations = ann\<rparr> (serve_service sv, v1) =
        (Ok \<lparr>dec_plaintext = enc_plaintext req\<rparr>, (serve_service sv, v2))" for uid ann
    by (metis Pair_inject outcome.inject(1))
  with s(1) e(1) \<open>serve_sealers X tc False v = (Ok sv, v1)\<close> show ?thesis
    by (force simp: serve_service_def)
qed

text \<open>The key that \<open>serve\<close> picks in a state of the device.\<close>

lemma serve_sealers_key:
  assumes "reachable tc"
  shows "\<exists>ss w1. serve_sealers X tc False w = (Ok ss, w1) \<and>
    (snd ss \<noteq> None \<longleftrightarrow> v_nv (view w) FLEET_KEY_PERSISTENT_HANDLE \<noteq> None) \<and>
    sealer_key_id (fst ss) = key_id_of_name X (name_of (kpub (serving_key (view w))))"
proof (cases "v_nv (view w) FLEET_KEY_PERSISTENT_HANDLE")
  case None
  with serve_service_srk [OF assms None] show ?thesis by (metis fst_conv option.case(1) sealer_ready_def serving_key_def snd_conv)
next
  case (Some k)
  with serve_service_fleet [OF assms Some] show ?thesis
    by (metis fst_conv option.case(2) option.distinct(1) sealer_ready_def serving_key_def snd_conv)
qed

lemma run_status_ok:
  assumes "tcti_from_str X tcti = Ok tc" and "reachable tc"
  shows "runs_ok (run_status X tcti) w (\<lambda>line w'. v_nv (view w') = v_nv (view w) \<and>
    line = status_line (v_nv (view w) FLEET_KEY_PERSISTENT_HANDLE \<noteq> None)
      (key_id_of_name X (name_of (kpub (serving_key (view w))))))"
proof -
  obtain c w1 where c: "context_new X tc w = (Ok c, w1)" "idle (view w1) c"
    "v_nv (view w1) = v_nv (view w)" "v_primary (view w1) = v_primary (view w)"
    using context_new_idle [OF assms(2)] by metis
  show ?thesis
  proof (cases "v_nv (view w) FLEET_KEY_PERSISTENT_HANDLE")
    case None
    then obtain e w2 where e: "load_fleet_key X c w1 = (Err e, w2)" "view w2 = view w1"
      using load_fleet_key_absent [of w1 c] c by (auto simp: runs_err_iff)
    let ?k = "v_primary (view w) srk_template"
    obtain l w4 where l: "TpmSealer_new X tc w2 = (Ok l, w4)"
      "view w4 = put_tr (sealer_context l) (object_of_key (sealer_primary l))
         (Some (TransientKey ?k)) (open_context (sealer_context l) (view w2))"
      "sealer_ready X kpub name_of (view w4) l ?k" "sealer_owns_transient_primary l"
      using TpmSealer_new_ok [OF assms(2) refl, of w2] c e by (auto simp: runs_ok_iff)
    have "view (TpmSealer_drop X l w4) =
        put_tr (sealer_context l) (object_of_key (sealer_primary l)) None (view w4)"
      by (rule TpmSealer_drop_ok [OF l(4), of w4 ?k]) (use l(3) in \<open>simp_all add: sealer_ready_def l(2) view_simps\<close>)
    then have "v_nv (view (TpmSealer_drop X l w4)) = v_nv (view w)" using c e by (simp add: l(2) view_simps)
    then show ?thesis using None assms(1) c e l
      by (simp add: run_status_def exec_simps dropping_def sealer_ready_def serving_key_def)
  next
    case (Some k)
    then obtain h w2 where h: "load_fleet_key X c w1 = (Ok h, w2)"
      "view w2 = put_tr c (object_of_key h) (Some (PersistentKey FLEET_KEY_PERSISTENT_HANDLE k)) (view w1)"
      using load_fleet_key_present [of w1 c k] c by (auto simp: runs_ok_iff)
    have "idle (view w2) c" "key_at (view w2) c h = Some k"
      using c Some by (simp_all add: h(2) key_at_put_tr)
    then obtain s w3 where s: "TpmSealer_from_primary X c h w2 = (Ok s, w3)" "view w3 = view w2"
      "sealer_ready X kpub name_of (view w3) s k" "\<not> sealer_owns_transient_primary s"
      using TpmSealer_from_primary_ok [of w2 c h k] by (auto simp: runs_ok_iff)
    have "v_nv (view w3) = v_nv (view w)" using c by (simp add: s(2) h(2) view_simps)
    then show ?thesis using Some assms(1) c h(1) s
      by (simp add: run_status_def exec_simps dropping_def TpmSealer_drop_persistent sealer_ready_def serving_key_def)
  qed
qed

end

section \<open>Steps on the host\<close>

lemma on_world_keeps: "fst (snd (on_world m (s, w))) = s"
  by (simp add: on_world_def split: prod.split)

lemma bindR_ret_keeps: "fst (snd (m (s, w))) = s \<Longrightarrow> fst (snd (bindR m (\<lambda>x. ret (f x)) (s, w))) = s"
  by (auto simp: bindR_apply split: prod.splits outcome.splits)

lemma on_fs_Ok_iff: "on_fs m (fs, w) = (Ok x, h) \<longleftrightarrow> (\<exists>fs'. m fs = (Ok x, fs') \<and> h = (fs', w))"
  by (auto simp: on_fs_def split: prod.splits)

lemma on_world_Ok_iff: "on_world m (s, w) = (Ok x, h) \<longleftrightarrow> (\<exists>w'. m w = (Ok x, w') \<and> h = (s, w'))"
  by (auto simp: on_world_def split: prod.splits)

lemma or_drop_Ok_iff: "or_drop X sealers m h = (Ok x, h') \<longleftrightarrow> m h = (Ok x, h')"
  by (auto simp: or_drop_def split: prod.splits outcome.splits)

lemma serve_until_shutdown_Ok_iff:
  "serve_until_shutdown X V sealers h = (Ok x, h') \<longleftrightarrow>
     (\<exists>fs w. serve_with_incoming_shutdown V (serve_service sealers) h = (Ok x, (fs, w)) \<and>
        h' = (fs, drop_opt X (snd sealers) (TpmSealer_drop X (fst sealers) w)))"
  by (cases "serve_with_incoming_shutdown V (serve_service sealers) h")
    (auto simp: serve_until_shutdown_def map_err_apply split: prod.splits)

lemmas host_Ok_iffs = on_fs_Ok_iff on_world_Ok_iff or_drop_Ok_iff serve_until_shutdown_Ok_iff bindR_Ok_iff

section \<open>The socket of \<open>serve\<close>\<close>

lemma prepare_socket_stale:
  assumes "path_parent socket = Some d" and "create_dir_all d fs = (Ok (), fs1)"
    and "fs socket = Some node" and "node = Socket m \<or> node = File b"
  shows "prepare_socket socket fs = prepare_socket socket (fs(socket := None))"
proof -
  have l: "length d < length socket" by (rule path_parent_shorter [OF assms(1)])
  have "fs1 socket = Some node" using create_dir_all_frame [OF l, of fs] assms(2,3) by simp
  moreover have "create_dir_all d (fs(socket := None)) = (Ok (), fs1(socket := None))"
    using create_dir_all_update [OF l, of fs None] assms(2) by simp
  ultimately show ?thesis
    using assms(1,2,4) by (auto simp: prepare_socket_def bindR_apply map_err_apply fs_exists_def remove_file_def)
qed

lemma prepare_socket_Ok:
  assumes "prepare_socket socket fs = (Ok (), fs1)" and "path_parent socket = Some d"
  shows "\<exists>fs0. create_dir_all d fs = (Ok (), fs0) \<and> fs1 = fs0(socket := fs1 socket) \<and>
    \<not> fs_exists fs1 socket"
  using assms
  by (auto simp: prepare_socket_def bindR_Ok_iff remove_file_def fs_exists_def
      split: if_splits option.splits fs_node.splits)

lemma open_socket_Ok:
  assumes "open_socket umask_mode socket fs = (Ok (), fs')"
  shows "fs socket = None \<and> fs' = fs(socket \<mapsto> Socket SOCKET_MODE) \<and> (\<exists>d. path_parent socket = Some d)"
  using assms
  by (auto simp: open_socket_def bindR_Ok_iff unix_listener_bind_def set_permissions_def fs_parent_dir_def
      split: if_splits outcome.splits option.splits)

end
