(* ===== verification/Sealer_Properties.thy ===== *)
theory Sealer_Properties
  imports Soft_Cluster
begin

text \<open>
  The properties of the ciphertext envelope, of the sealer and of the KMS service,
  each with an evaluation on the software TPM where it has hypotheses.
\<close>

section \<open>Inputs for the evaluations\<close>

definition sample_sealer :: "string \<Rightarrow> TpmSealer" where
  "sample_sealer key_id = \<lparr>sealer_context = 0, sealer_primary = KeyHandle 0, sealer_key_id = key_id,
     sealer_child_fixed = True, sealer_owns_transient_primary = False\<rparr>"

text \<open>A device whose sealed objects have a public area that cannot be marshalled.\<close>

definition unmarshallable_tss :: "soft tss" where
  "unmarshallable_tss = soft_tss\<lparr>nullauth_begin := (\<lambda>c. ret (AuthSession 0)),
     nullauth_end := (\<lambda>c s. ret ()), create := (\<lambda>c h t d. ret (Private [], t)),
     public_marshall := (\<lambda>p. Err (soft_error ''marshall''))\<rparr>"

lemma unmarshallable_encrypt_panics:
  "\<exists>p self'. encrypt unmarshallable_tss \<lparr>enc_plaintext = [1], enc_uid = []\<rparr>
     (KmsService_new (sample_sealer ''k''), soft_new [1]) = (Panic p, (self', soft_new [1]))"
  by (simp add: encrypt_def KmsService_new_def mutex_new_def with_sealer_def seal_def MAX_SEAL_DATA_def
      unmarshallable_tss_def soft_tss_def exec_simps execute_with_nullauth_session_def
      sealed_public_def envelope_encode_def)

lemma soft_sealer_ready:
  "\<exists>s w. TpmSealer_new soft_tss (TctiNameConf ''swtpm'') (soft_new [1]) = (Ok s, w) \<and>
     sealer_ready soft_tss soft_public soft_name (soft_view w) s
       (soft_primary (soft_new [1]) srk_template)"
  using soft_device.TpmSealer_new_ok [of "TctiNameConf ''swtpm''" "soft_primary (soft_new [1]) srk_template"
      "soft_new [1]"] by (auto simp: soft_reachable_def runs_ok_iff)

section \<open>The envelope\<close>

text \<open>
  C11. Encoding and decoding an envelope gives back the public area and the private
  blob it was made of.
\<close>

theorem envelope_roundtrip:
  assumes "tss_codec X" and "public_marshall X p = Ok b"
    and "private_try_from X (private_value priv) = Ok priv"
  shows "obind (envelope_encode X p priv) (envelope_decode X) = Ok (p, priv)"
  by (rule envelope_decode_encode [OF assms(2) _ _ assms(3)])
    (use assms(1,2) in \<open>auto intro: tss_codec.marshall_bounded tss_codec.unmarshall_marshall\<close>)

theorem envelope_roundtrip_witness:
  "obind (envelope_encode soft_tss srk_template (Private [9, 8])) (envelope_decode soft_tss) =
     Ok (srk_template, Private [9, 8])"
  by (rule envelope_roundtrip [OF soft_codec.tss_codec_axioms, where b = "soft_encode srk_template"])
    (simp_all add: soft_marshall_ok srk_template_def)

text \<open>
  C27. The decoder accepts exactly the envelopes of version 1 whose big-endian length
  field is the length of a public area that unmarshals and is followed by a private
  blob that the TPM library accepts.
\<close>

theorem envelope_decode_accepts_exactly:
  "envelope_decode X ct = Ok (p, priv) \<longleftrightarrow>
     (\<exists>b1 b2 pub rest. ct = 1 # b1 # b2 # pub @ rest \<and>
        length pub = unat b1 * 256 + unat b2 \<and>
        public_unmarshall X pub = Ok p \<and> private_try_from X rest = Ok priv)"
proof (cases "\<exists>b1 b2 rest. ct = ENVELOPE_VERSION # b1 # b2 # rest")
  case True
  then obtain b1 b2 body where ct: "ct = ENVELOPE_VERSION # b1 # b2 # body" by blast
  have n: "unat (u16_from_be_bytes b1 b2) = unat b1 * 256 + unat b2"
    by (simp add: unat_u16_from_be_bytes)
  show ?thesis
    unfolding ct envelope_decode_Cons n
    by (simp add: Let_def obind_Ok_iff ENVELOPE_VERSION_def ex_split_at not_less)
next
  case False
  then have "envelope_decode X ct = Err MalformedEnvelope"
    by (intro envelope_decode_malformed) blast
  with False show ?thesis by (auto simp: ENVELOPE_VERSION_def)
qed

text \<open>
  C28. On every input the decoder either succeeds or answers \<open>MalformedEnvelope\<close>; it
  never panics, so that the fuzz target finds nothing, and \<open>unseal\<close> of a malformed
  envelope makes no TPM call.
\<close>

theorem malformed_envelope_never_reaches_the_tpm:
  assumes "\<And>b. \<not> is_panic (public_unmarshall X b)" and "\<And>b. \<not> is_panic (private_try_from X b)"
  shows "((\<exists>p priv. envelope_decode X ct = Ok (p, priv)) \<or>
    envelope_decode X ct = Err MalformedEnvelope \<and> unseal X self ct w = (Err MalformedEnvelope, w)) \<and>
    fuzz_envelope_decode X ct = Ok ()"
proof -
  have "(\<exists>p priv. envelope_decode X ct = Ok (p, priv)) \<or> envelope_decode X ct = Err MalformedEnvelope"
  proof (cases "\<exists>b1 b2 rest. ct = ENVELOPE_VERSION # b1 # b2 # rest")
    case True
    then obtain b1 b2 body where ct: "ct = ENVELOPE_VERSION # b1 # b2 # body" by blast
    let ?n = "unat (u16_from_be_bytes b1 b2)"
    show ?thesis
      using assms(1) [of "take ?n body"] assms(2) [of "drop ?n body"]
      by (cases "public_unmarshall X (take ?n body)"; cases "private_try_from X (drop ?n body)")
        (auto simp: ct envelope_decode_Cons Let_def)
  next
    case False
    then show ?thesis by (intro disjI2 envelope_decode_malformed) blast
  qed
  then show ?thesis by (auto simp: unseal_def bindR_apply fuzz_envelope_decode_def)
qed

theorem malformed_envelope_never_reaches_the_tpm_witness:
  "((\<exists>p priv. envelope_decode soft_tss [1, 0] = Ok (p, priv)) \<or>
    envelope_decode soft_tss [1, 0] = Err MalformedEnvelope \<and>
    unseal soft_tss \<lparr>sealer_context = 0, sealer_primary = KeyHandle 0, sealer_key_id = [],
       sealer_child_fixed = True, sealer_owns_transient_primary = False\<rparr> [1, 0] (soft_new [1]) =
      (Err MalformedEnvelope, soft_new [1])) \<and> fuzz_envelope_decode soft_tss [1, 0] = Ok ()"
  by (rule malformed_envelope_never_reaches_the_tpm)
    (simp_all add: soft_unmarshall_def)

section \<open>The sealer\<close>

text \<open>
  C10. A ready sealer seals up to 128 bytes, unseals the result to the same bytes, and
  leaves neither a session nor a loaded object behind.
\<close>

theorem seal_unseal_leaves_no_trace:
  assumes "tpm_device X view kpub name_of sealed_under wrapped_for imported_under extend_policy reachable"
    and "sealer_ready X kpub name_of (view w) self k" and "length plaintext \<le> 128"
  shows "\<exists>ct w1 w2. seal X self plaintext w = (Ok ct, w1) \<and> view w1 = view w \<and>
    unseal X self ct w1 = (Ok plaintext, w2) \<and> view w2 = view w"
proof -
  obtain ct w1 where s: "seal X self plaintext w = (Ok ct, w1)" "view w1 = view w"
    "sealed_envelope X sealed_under k ct plaintext"
    using tpm_device.seal_ok [OF assms(1,2), of plaintext] assms(3) by (auto simp: runs_ok_iff MAX_SEAL_DATA_def)
  have "sealer_ready X kpub name_of (view w1) self k" using assms(2) s(2) by simp
  from tpm_device.unseal_ok [OF assms(1) this s(3)] s show ?thesis by (auto simp: runs_ok_iff)
qed

theorem seal_unseal_leaves_no_trace_witness:
  "\<exists>s w ct w1 w2. seal soft_tss s [1, 2, 3] w = (Ok ct, w1) \<and> soft_view w1 = soft_view w \<and>
     unseal soft_tss s ct w1 = (Ok [1, 2, 3], w2) \<and> soft_view w2 = soft_view w"
proof -
  obtain s w where "sealer_ready soft_tss soft_public soft_name (soft_view w) s
       (soft_primary (soft_new [1]) srk_template)"
    using soft_sealer_ready by blast
  from seal_unseal_leaves_no_trace [OF soft_device.tpm_device_axioms this, of "[1, 2, 3]"]
  show ?thesis by fastforce
qed

text \<open>
  \<open>seal\<close> answers \<open>PlaintextTooLarge\<close> exactly for plaintexts of more than 128
  bytes, with their length, and then without any TPM call.
\<close>

theorem seal_size_limit:
  "seal X self plaintext w = (Err (PlaintextTooLarge n), w') \<longleftrightarrow>
     128 < length plaintext \<and> n = length plaintext \<and> w' = w"
proof (cases "length plaintext \<le> MAX_SEAL_DATA")
  case True
  then show ?thesis using seal_small_Err [of plaintext X self w "PlaintextTooLarge n" w']
    by (auto simp: MAX_SEAL_DATA_def)
next
  case False
  then show ?thesis by (auto simp: seal_def MAX_SEAL_DATA_def)
qed

section \<open>The KMS service\<close>

text \<open>
  A \<open>Decrypt\<close> whose \<open>key_id\<close> is neither the preferred sealer's nor the legacy
  sealer's is an invalid argument; neither the service nor the TPM changes.
\<close>

theorem unknown_key_id_rejected:
  assumes "\<not> mutex_poisoned (kms_sealer self)"
    and "dec_key_id req \<noteq> sealer_key_id (mutex_data (kms_sealer self))"
    and "\<And>l. kms_legacy_sealer self = Some l \<Longrightarrow>
      \<not> mutex_poisoned l \<and> dec_key_id req \<noteq> sealer_key_id (mutex_data l)"
  shows "decrypt X req (self, w) =
    (Err (Status InvalidArgument (''unknown key_id '' @ dec_key_id req)), (self, w))"
  using assms
  by (cases "kms_legacy_sealer self")
    (simp_all add: decrypt_def decrypt_with_def bindR_apply with_sealer_def with_legacy_sealer_def)

theorem unknown_key_id_rejected_witness:
  "decrypt soft_tss \<lparr>dec_ciphertext = [1], dec_uid = ''u'', dec_key_id = ''sceau-x'', dec_annotations = []\<rparr>
     (with_legacy_fallback (sample_sealer ''sceau-a'') (sample_sealer ''sceau-b''), soft_new [1]) =
     (Err (Status InvalidArgument ''unknown key_id sceau-x''),
      (with_legacy_fallback (sample_sealer ''sceau-a'') (sample_sealer ''sceau-b''), soft_new [1]))"
  using unknown_key_id_rejected [of "with_legacy_fallback (sample_sealer ''sceau-a'') (sample_sealer ''sceau-b'')"
      "\<lparr>dec_ciphertext = [1], dec_uid = ''u'', dec_key_id = ''sceau-x'', dec_annotations = []\<rparr>" soft_tss "soft_new [1]"]
  by (simp add: with_legacy_fallback_def mutex_new_def sample_sealer_def)

text \<open>
  C31. After a panic inside \<open>Encrypt\<close> the service answers every \<open>Encrypt\<close> and
  \<open>Decrypt\<close> with an internal error without touching the TPM, while \<open>Status\<close> still
  reports \<open>ok\<close>, with an empty \<open>key_id\<close>.
\<close>

theorem panic_disables_the_service:
  assumes "encrypt X req (self, w) = (Panic p, (self', w'))"
  shows "encrypt X req' (self', v) = (Err (kms_internal poison_message), (self', v)) \<and>
    decrypt X dreq (self', v) = (Err (kms_internal poison_message), (self', v)) \<and>
    status_rpc (self', v) =
      (Ok \<lparr>status_version = ''v2'', status_healthz = ''ok'', status_key_id = []\<rparr>, (self', v))"
proof -
  have "mutex_poisoned (kms_sealer self')"
    using assms by (auto simp: encrypt_def with_sealer_def split: if_splits outcome.splits prod.splits)
  then show ?thesis
    by (simp add: encrypt_def decrypt_def with_sealer_def bindR_apply status_rpc_def service_key_id_def)
qed

theorem panic_disables_the_service_witness:
  "\<exists>self'. encrypt unmarshallable_tss \<lparr>enc_plaintext = [2], enc_uid = []\<rparr> (self', soft_new [1]) =
      (Err (kms_internal poison_message), (self', soft_new [1])) \<and>
    status_rpc (self', soft_new [1]) =
      (Ok \<lparr>status_version = ''v2'', status_healthz = ''ok'', status_key_id = []\<rparr>, (self', soft_new [1]))"
proof -
  obtain p self' where "encrypt unmarshallable_tss \<lparr>enc_plaintext = [1], enc_uid = []\<rparr>
     (KmsService_new (sample_sealer ''k''), soft_new [1]) = (Panic p, (self', soft_new [1]))"
    using unmarshallable_encrypt_panics by blast
  from panic_disables_the_service [OF this] show ?thesis by (intro exI [of _ self']) simp
qed

section \<open>Resources and identity\<close>

text \<open>
  A sealer made by \<open>new\<close> gives its transient primary back when it is dropped:
  what remains is the opened context. Dropping a sealer made by \<open>from_primary\<close> does
  nothing to the device.
\<close>

theorem dropped_sealer_frees_its_primary:
  assumes "tpm_device X view kpub name_of sealed_under wrapped_for imported_under extend_policy reachable"
    and "reachable tc"
  shows "\<exists>s w1. TpmSealer_new X tc w = (Ok s, w1) \<and>
      view (TpmSealer_drop X s w1) = open_context (sealer_context s) (view w) \<and>
      (\<forall>s' c h u u' v. TpmSealer_from_primary X c h u = (Ok s', u') \<longrightarrow> TpmSealer_drop X s' v = v)"
proof -
  obtain s w1 where s: "TpmSealer_new X tc w = (Ok s, w1)"
    "view w1 = put_tr (sealer_context s) (object_of_key (sealer_primary s))
       (Some (TransientKey (v_primary (view w) srk_template))) (open_context (sealer_context s) (view w))"
    "sealer_owns_transient_primary s"
    using tpm_device.TpmSealer_new_ok [OF assms refl, of w] by (auto simp: runs_ok_iff)
  have "view (TpmSealer_drop X s w1) = open_context (sealer_context s) (view w)"
    using tpm_device.TpmSealer_drop_ok [OF assms(1) s(3), of w1]
    by (simp add: s(2) idle_def view_simps)
  moreover have "TpmSealer_drop X s' v = v"
    if "TpmSealer_from_primary X c h u = (Ok s', u')" for s' c h u u' v
  proof -
    have "\<not> sealer_owns_transient_primary s'"
      using that by (auto simp: TpmSealer_from_primary_def bindR_Ok_iff)
    then show ?thesis by (simp add: TpmSealer_drop_def)
  qed
  ultimately show ?thesis using s(1) by blast
qed

theorem dropped_sealer_frees_its_primary_witness:
  "\<exists>s w1. TpmSealer_new soft_tss (TctiNameConf ''swtpm'') (soft_new [1]) = (Ok s, w1) \<and>
     soft_view (TpmSealer_drop soft_tss s w1) = open_context (sealer_context s) (soft_view (soft_new [1]))"
  using dropped_sealer_frees_its_primary [OF soft_device.tpm_device_axioms, of "TctiNameConf ''swtpm''"
      "soft_new [1]"] by (auto simp: soft_reachable_def)

end
