(* ===== verification/Fleet_Properties.thy ===== *)
theory Fleet_Properties
  imports Soft_Cluster
begin

text \<open>
  The properties of the fleet key's life: genesis, duplication on the seed, import on
  the joiner, each with an evaluation on the software TPM.
\<close>

section \<open>Inputs for the evaluations\<close>

text \<open>A device with one open context, a key loaded in it and, possibly, a fleet key.\<close>

definition device_with :: "bytes \<Rightarrow> skey \<Rightarrow> (u32 \<times> skey) list \<Rightarrow> soft" where
  "device_with seed k nv = (soft_new seed)\<lparr>sw_open := [1],
     sw_tr := [((1, ObjectHandle 5), TransientKey k)], sw_nv := nv\<rparr>"

definition fleet_skey :: "bytes \<Rightarrow> skey" where
  "fleet_skey seed = soft_primary (soft_new seed) (fleet_template (soft_extend [] CommandDuplicate))"

definition srk_skey :: "bytes \<Rightarrow> skey" where
  "srk_skey seed = soft_primary (soft_new seed) srk_template"

definition sample_blob :: DuplicationBlob where
  "sample_blob = \<lparr>fleet_key_public = soft_public (fleet_skey [1]),
     duplicate_private = Private (skey_bytes (fleet_skey [1])),
     blob_encrypted_secret = EncryptedSecret (pub_unique (soft_public (fleet_skey [2]))),
     blob_encryption_key = Some (Data [])\<rparr>"

lemma device_with_idle: "idle (soft_view (device_with seed k nv)) 1"
  by (simp add: device_with_def soft_new_def idle_def)

lemma device_with_key: "key_at (soft_view (device_with seed k nv)) 1 (KeyHandle 5) = Some k"
  by (simp add: device_with_def soft_new_def key_at_def)

lemma fleet_skey_is_fleet_key: "fleet_key soft_public soft_extend (fleet_skey seed)"
  using tpm_device.fleet_template_key [OF soft_device.tpm_device_axioms, of "soft_new seed"] by (simp add: fleet_skey_def)

lemma srk_skey_policy: "pub_auth_policy (soft_public (srk_skey seed)) \<noteq> soft_extend [] CommandDuplicate"
  by (simp add: srk_skey_def soft_public_def soft_primary_def srk_template_def soft_extend_def soft_digest_def)

section \<open>Duplication\<close>

text \<open>
  C18. Duplicating the fleet key for a joiner succeeds when the key is loaded and
  carries the duplication policy, gives a blob that the joiner's transport key can
  import, and leaves no session and no object on the seed's TPM.
\<close>

theorem duplication_leaves_the_seed_unchanged:
  assumes "tpm_device X view kpub name_of sealed_under wrapped_for imported_under extend_policy reachable"
    and "idle (view w) c" and "key_at (view w) c h = Some k" and "fleet_key kpub extend_policy k"
  shows "\<exists>blob d w'. duplicate_for_joiner X c h (kpub kt) w = (Ok blob, w') \<and> view w' = view w \<and>
    fleet_key_public blob = kpub k \<and> blob_encryption_key blob = Some d \<and>
    wrapped_for (kpub kt) k d (duplicate_private blob) (blob_encrypted_secret blob)"
  using tpm_device.duplicate_for_joiner_ok [OF assms(1-3), of kt] assms(4)
  by (auto simp: runs_ok_iff fleet_key_def)

theorem duplication_leaves_the_seed_unchanged_witness:
  "\<exists>blob w'. duplicate_for_joiner soft_tss 1 (KeyHandle 5) (soft_public (fleet_skey [2]))
     (device_with [1] (fleet_skey [1]) []) = (Ok blob, w') \<and>
     soft_view w' = soft_view (device_with [1] (fleet_skey [1]) [])"
  using duplication_leaves_the_seed_unchanged [OF soft_device.tpm_device_axioms device_with_idle
      device_with_key fleet_skey_is_fleet_key] by blast

text \<open>
  A key whose policy is not the duplication policy is not exported: the TPM's
  refusal is returned as the error, and the policy session and the external public
  key are removed all the same.
\<close>

theorem duplication_needs_the_fleet_policy:
  assumes "tpm_device X view kpub name_of sealed_under wrapped_for imported_under extend_policy reachable"
    and "idle (view w) c" and "key_at (view w) c h = Some k"
    and "pub_auth_policy (kpub k) \<noteq> extend_policy [] CommandDuplicate"
  shows "\<exists>t w'. duplicate_for_joiner X c h (kpub kt) w = (Err (FleetTss t), w') \<and> view w' = view w"
  using tpm_device.duplicate_for_joiner_wrong_policy [OF assms, of kt] by (auto simp: runs_err_iff)

theorem duplication_needs_the_fleet_policy_witness:
  "\<exists>t w'. duplicate_for_joiner soft_tss 1 (KeyHandle 5) (soft_public (fleet_skey [2]))
     (device_with [1] (srk_skey [1]) []) = (Err (FleetTss t), w')"
  using duplication_needs_the_fleet_policy [OF soft_device.tpm_device_axioms device_with_idle
      device_with_key srk_skey_policy] by blast

text \<open>
  C19. Importing a blob made for the transport key persists the fleet key at the
  fleet handle whether or not a key was there before, returns a handle to it, and
  flushes the transport key.
\<close>

theorem import_replaces_the_fleet_key:
  assumes "tpm_device X view kpub name_of sealed_under wrapped_for imported_under extend_policy reachable"
    and "idle (view w) c" and "v_tr (view w) c (object_of_key transport) = Some (TransientKey kt)"
    and "fleet_key_public blob = kpub k" and "blob_encryption_key blob = Some d"
    and "wrapped_for (kpub kt) k d (duplicate_private blob) (blob_encrypted_secret blob)"
  shows "\<exists>h w'. import_and_persist X c transport blob w = (Ok h, w') \<and>
    key_at (view w') c h = Some k \<and> v_tr (view w') c (object_of_key transport) = None \<and>
    v_nv (view w') = (v_nv (view w))(FLEET_KEY_PERSISTENT_HANDLE := Some k)"
  using tpm_device.import_and_persist_ok [OF assms] by (auto simp: runs_ok_iff)

theorem import_replaces_the_fleet_key_witness:
  "\<exists>h w'. import_and_persist soft_tss 1 (KeyHandle 5) sample_blob
      (device_with [2] (fleet_skey [2]) [(FLEET_KEY_PERSISTENT_HANDLE, fleet_skey [3])]) = (Ok h, w') \<and>
    v_nv (soft_view w') FLEET_KEY_PERSISTENT_HANDLE = Some (fleet_skey [1])"
proof -
  let ?w = "device_with [2] (fleet_skey [2]) [(FLEET_KEY_PERSISTENT_HANDLE, fleet_skey [3])]"
  have "v_tr (soft_view ?w) 1 (object_of_key (KeyHandle 5)) = Some (TransientKey (fleet_skey [2]))"
    by (simp add: device_with_def soft_new_def)
  from import_replaces_the_fleet_key [OF soft_device.tpm_device_axioms device_with_idle this,
      where blob = sample_blob and k = "fleet_skey [1]" and d = "Data []"]
  show ?thesis by (auto simp: sample_blob_def soft_wrapped_for_def)
qed

section \<open>Genesis\<close>

text \<open>
  \<open>genesis\<close> without \<open>--force\<close> succeeds, leaves a
  fleet key at the handle, keeps a key that was there, and a second run changes
  nothing.
\<close>

theorem genesis_idempotent:
  assumes "tpm_device X view kpub name_of sealed_under wrapped_for imported_under extend_policy reachable"
    and "tcti_from_str X tcti = Ok tc" and "reachable tc"
  shows "\<exists>w1 w2. run_genesis X tcti False w = (Ok (), w1) \<and> run_genesis X tcti False w1 = (Ok (), w2) \<and>
    v_nv (view w2) = v_nv (view w1) \<and> v_nv (view w1) FLEET_KEY_PERSISTENT_HANDLE \<noteq> None \<and>
    (v_nv (view w) FLEET_KEY_PERSISTENT_HANDLE \<noteq> None \<longrightarrow> v_nv (view w1) = v_nv (view w))"
proof -
  note existing = tpm_device.run_genesis_existing_ok [OF assms]
  obtain w1 k where w1: "run_genesis X tcti False w = (Ok (), w1)"
    "v_nv (view w1) FLEET_KEY_PERSISTENT_HANDLE = Some k"
    "v_nv (view w) FLEET_KEY_PERSISTENT_HANDLE \<noteq> None \<longrightarrow> v_nv (view w1) = v_nv (view w)"
  proof (cases "v_nv (view w) FLEET_KEY_PERSISTENT_HANDLE")
    case None
    then show thesis
      using tpm_device.run_genesis_new_ok [OF assms, of False w] that by (auto simp: runs_ok_iff)
  next
    case (Some k)
    then show thesis using existing [OF Some] that by (auto simp: runs_ok_iff)
  qed
  with existing [OF w1(2)] show ?thesis by (auto simp: runs_ok_iff)
qed

theorem genesis_idempotent_witness:
  "\<exists>w1 w2. run_genesis soft_tss ''swtpm'' False (soft_new [1]) = (Ok (), w1) \<and>
    run_genesis soft_tss ''swtpm'' False w1 = (Ok (), w2) \<and>
    v_nv (soft_view w2) = v_nv (soft_view w1)"
  using genesis_idempotent [OF soft_device.tpm_device_axioms, of "''swtpm''" "TctiNameConf ''swtpm''"
      "soft_new [1]"] by (auto simp: soft_reachable_def)

text \<open>
  C32. \<open>genesis --force\<close> on the node that made the fleet key does not
  rotate it: the template and the owner seed are the same, so the recreated key is
  the same key.
\<close>

theorem forced_genesis_recreates_the_same_key:
  assumes "tpm_device X view kpub name_of sealed_under wrapped_for imported_under extend_policy reachable"
    and "tcti_from_str X tcti = Ok tc" and "reachable tc"
    and "v_nv (view w) FLEET_KEY_PERSISTENT_HANDLE = None"
  shows "\<exists>w1 w2. run_genesis X tcti False w = (Ok (), w1) \<and> run_genesis X tcti True w1 = (Ok (), w2) \<and>
    v_nv (view w2) = v_nv (view w1)"
proof -
  obtain w1 where w1: "run_genesis X tcti False w = (Ok (), w1)"
    "v_nv (view w1) = (v_nv (view w))(FLEET_KEY_PERSISTENT_HANDLE := Some (fleet_primary extend_policy (view w)))"
    "v_primary (view w1) = v_primary (view w)"
    using tpm_device.run_genesis_new_ok [OF assms(1-3), of False w] assms(4) by (auto simp: runs_ok_iff)
  with tpm_device.run_genesis_new_ok [OF assms(1-3), of True w1] show ?thesis
    by (auto simp: runs_ok_iff)
qed

theorem forced_genesis_recreates_the_same_key_witness:
  "\<exists>w1 w2. run_genesis soft_tss ''swtpm'' False (soft_new [1]) = (Ok (), w1) \<and>
    run_genesis soft_tss ''swtpm'' True w1 = (Ok (), w2) \<and> v_nv (soft_view w2) = v_nv (soft_view w1)"
  using forced_genesis_recreates_the_same_key [OF soft_device.tpm_device_axioms, of "''swtpm''"
      "TctiNameConf ''swtpm''" "soft_new [1]"] by (auto simp: soft_reachable_def soft_new_def)


section \<open>Join\<close>

text \<open>
  When the seed rejects the request, \<open>join\<close> reports the status and
  the persistent keys of the node are what they were.
\<close>

theorem rejected_join_keeps_the_fleet_key:
  assumes "tpm_device X view kpub name_of sealed_under wrapped_for imported_under extend_policy reachable"
    and "tcti_from_str X tcti = Ok tc" and "reachable tc"
    and "\<And>w. join_channel D fs seed dir w = (Ok ch, w)"
    and "\<And>req w. client_duplicate D ch req w = (Err status, w)"
  shows "\<exists>w'. run_join X D fs seed tcti dir w = (Err (JoinRejected status), w') \<and>
    v_nv (view w') = v_nv (view w)"
proof -
  obtain c w1 where c: "context_new X tc w = (Ok c, w1)" "idle (view w1) c"
    "v_nv (view w1) = v_nv (view w)"
    using tpm_device.context_new_idle [OF assms(1,3)] by metis
  obtain h k w2 where h: "create_transport_key X c w1 = (Ok (h, kpub k), w2)"
    "v_nv (view w2) = v_nv (view w1)"
    using tpm_device.create_transport_key_ok [OF assms(1) c(2) refl]
    by (auto simp: runs_ok_iff view_simps)
  obtain b where "public_marshall X (kpub k) = Ok b"
    using tpm_device.key_marshalls [OF assms(1)] by blast
  with assms(2,4,5) c h show ?thesis
    by (simp add: run_join_def exec_simps join_marshall_def)
qed

theorem rejected_join_keeps_the_fleet_key_witness:
  "\<exists>w'. run_join soft_tss soft_dialer soft_fs ''seed:7443'' ''swtpm'' ''/k0s'' (soft_new [2]) =
      (Err (JoinRejected (TransportStatus ''unavailable'')), w') \<and>
    v_nv (soft_view w') = v_nv (soft_view (soft_new [2]))"
  by (rule rejected_join_keeps_the_fleet_key [OF soft_device.tpm_device_axioms])
    (simp_all add: soft_reachable_def soft_join_channel, simp add: soft_dialer_def)

text \<open>
  What the joiner reads from the response is the blob that the seed put into
  it.
\<close>

theorem blob_wire_roundtrip:
  assumes "tss_codec X" and "response_of_blob X blob = Ok resp"
    and "private_try_from X (private_value (duplicate_private blob)) = Ok (duplicate_private blob)"
    and "encrypted_secret_try_from X (secret_value (blob_encrypted_secret blob)) =
       Ok (blob_encrypted_secret blob)"
    and "\<forall>d. blob_encryption_key blob = Some d \<longrightarrow> data_try_from X (data_value d) = Ok d"
  shows "blob_of_response X resp = Ok blob"
  by (rule blob_of_response_of_blob [OF assms(2) _ assms(3,4)])
    (use assms(1,5) in \<open>auto intro: tss_codec.unmarshall_marshall\<close>)

theorem blob_wire_roundtrip_witness:
  "\<exists>resp. response_of_blob soft_tss sample_blob = Ok resp \<and> blob_of_response soft_tss resp = Ok sample_blob"
proof -
  have "soft_marshall (soft_public (fleet_skey [1])) = Ok (soft_encode (soft_public (fleet_skey [1])))"
    by (rule soft_marshall_ok) (simp_all add: soft_public_def)
  then obtain resp where r: "response_of_blob soft_tss sample_blob = Ok resp"
    by (simp add: response_of_blob_def marshall_def sample_blob_def)
  from blob_wire_roundtrip [OF soft_codec.tss_codec_axioms r] r show ?thesis by simp
qed

text \<open>
  C33. The transport key of a node is the very key that \<open>genesis\<close> would
  persist on it: both are the primary key of the same template.
\<close>

theorem transport_key_is_the_genesis_key:
  assumes "tpm_device X view kpub name_of sealed_under wrapped_for imported_under extend_policy reachable"
    and "idle (view w) c"
  shows "\<exists>h p w1 h' k w2. create_transport_key X c w = (Ok (h, p), w1) \<and>
    create_fleet_key X c True w1 = (Ok h', w2) \<and> key_at (view w2) c h' = Some k \<and> kpub k = p"
proof -
  let ?k = "fleet_primary extend_policy (view w)"
  obtain h w1 where w1: "create_transport_key X c w = (Ok (h, kpub ?k), w1)"
    "view w1 = put_tr c (object_of_key h) (Some (TransientKey ?k)) (view w)"
    using tpm_device.create_transport_key_ok [OF assms refl] by (auto simp: runs_ok_iff)
  have "idle (view w1) c" "?k = fleet_primary extend_policy (view w1)"
    using assms(2) by (simp_all add: w1(2) view_simps)
  from tpm_device.create_fleet_key_force_ok [OF assms(1) this] w1(1) show ?thesis
    by (auto simp: runs_ok_iff)
qed

theorem transport_key_is_the_genesis_key_witness:
  "\<exists>h p w1 h' k w2. create_transport_key soft_tss 1 (device_with [1] (srk_skey [1]) []) = (Ok (h, p), w1) \<and>
    create_fleet_key soft_tss 1 True w1 = (Ok h', w2) \<and>
    key_at (soft_view w2) 1 h' = Some k \<and> soft_public k = p"
  by (rule transport_key_is_the_genesis_key [OF soft_device.tpm_device_axioms device_with_idle])

end
