(* ===== verification/Permit_Spec.thy ===== *)
theory Permit_Spec
  imports Enroll
begin

text \<open>
  The permit counter of the enrollment listener under interleaved requests: the
  conservation of permits, the bound in runs where no request overlaps a pending
  rejection, termination, and the runs in which the counter wraps and requests are
  served past the limit.
\<close>

section \<open>Definitions\<close>

text \<open>A task that the counter is currently short of one permit for.\<close>

fun holds_or_restores :: "task \<Rightarrow> bool" where
  "holds_or_restores Rejecting = True"
| "holds_or_restores (Serving b) = True"
| "holds_or_restores Served = True"
| "holds_or_restores Abandoned = True"
| "holds_or_restores t = False"

text \<open>Steps still to come of a request, and of all requests.\<close>

fun task_work :: "task \<Rightarrow> nat" where
  "task_work Arrived = 2"
| "task_work Rejecting = 1"
| "task_work (Serving b) = 1"
| "task_work Served = 0"
| "task_work Failed = 0"
| "task_work Rejected = 0"
| "task_work Abandoned = 0"

definition pending_work :: "permit_state \<Rightarrow> nat" where
  "pending_work s = sum_list (map task_work (ps_tasks s))"

text \<open>
  A step in a run in which no request runs between the failing \<open>fetch_sub\<close> of
  another one and its \<open>fetch_add\<close>.
\<close>

definition calm_step :: "permit_state \<Rightarrow> permit_state \<Rightarrow> bool" where
  "calm_step s s' = (permit_step s s' \<and>
     (Rejecting \<in> set (ps_tasks s) \<longrightarrow> ps_remaining s' = restore_permit (ps_remaining s) \<and>
        count_tasks ((=) Rejecting) s' < count_tasks ((=) Rejecting) s))"

text \<open>What holds in such runs: the counter and the permits taken add up to the limit.\<close>

definition calm_inv :: "u32 \<Rightarrow> permit_state \<Rightarrow> bool" where
  "calm_inv n s =
     (if count_tasks ((=) Rejecting) s = 0
      then unat (ps_remaining s) + count_tasks holds_permit s = unat n
      else count_tasks ((=) Rejecting) s = 1 \<and> ps_remaining s = - 1 \<and>
        count_tasks holds_permit s = unat n)"

text \<open>The listener has returned when it is closed and no request is in flight.\<close>

definition listener_returned :: "listener_state \<Rightarrow> bool" where
  "listener_returned s = (\<not> ls_open s \<and> pending_work (ls_permits s) = 0)"

definition listener_work :: "u64 \<Rightarrow> listener_state \<Rightarrow> nat" where
  "listener_work timeout s =
     (if ls_open s then Suc (unat timeout - ls_elapsed s) else 0) + pending_work (ls_permits s)"

text \<open>The requests that a listener has taken so far.\<close>

definition requests_taken :: "listener_state \<Rightarrow> nat" where
  "requests_taken s = length (ps_tasks (ls_permits s))"

section \<open>Counting tasks\<close>

text \<open>What an update of one task does to a count, by whether the task is counted before and after.\<close>

lemma count_update:
  assumes "i < length (ps_tasks s)" and "ps_tasks s' = (ps_tasks s)[i := t]"
  shows count_gain: "\<not> p (ps_tasks s ! i) \<Longrightarrow> p t \<Longrightarrow> count_tasks p s' = Suc (count_tasks p s)"
    and count_loss: "p (ps_tasks s ! i) \<Longrightarrow> \<not> p t \<Longrightarrow> count_tasks p s = Suc (count_tasks p s')"
    and count_keep: "p (ps_tasks s ! i) = p t \<Longrightarrow> count_tasks p s' = count_tasks p s"
  using length_filter_update [OF assms(1), of p t] assms(2) by (auto simp: count_tasks_def split: if_splits)

lemma count_tasks_arrive [simp]:
  "count_tasks p (s\<lparr>ps_tasks := ps_tasks s @ [t]\<rparr>) = count_tasks p s + (if p t then 1 else 0)"
  by (simp add: count_tasks_def)

lemma permits_conserved_step:
  assumes "permit_step s s'"
  shows "ps_remaining s' + of_nat (count_tasks holds_or_restores s') =
    ps_remaining s + of_nat (count_tasks holds_or_restores s)"
  using assms
proof (cases rule: permit_step.cases)
  case (fetch_sub i r t)
  then have "count_tasks holds_or_restores s' = Suc (count_tasks holds_or_restores s)"
    by (intro count_gain) (auto simp: take_permit_def)
  with fetch_sub show ?thesis by (auto simp: take_permit_def)
next
  case (reject i)
  then have "count_tasks holds_or_restores s = Suc (count_tasks holds_or_restores s')"
    by (intro count_loss) auto
  with reject show ?thesis by (simp add: restore_permit_def)
next
  case (serve i b)
  then have "count_tasks holds_or_restores s' = count_tasks holds_or_restores s"
    by (intro count_keep [where i = i and t = Served]) auto
  with serve show ?thesis by simp
next
  case (fail i b)
  then have "count_tasks holds_or_restores s = Suc (count_tasks holds_or_restores s')"
    by (intro count_loss) auto
  with fail show ?thesis by (simp add: restore_permit_def)
next
  case (abandon i b)
  then have "count_tasks holds_or_restores s' = count_tasks holds_or_restores s"
    by (intro count_keep [where i = i and t = Abandoned]) auto
  with abandon show ?thesis by simp
qed simp


lemma permits_conserved_reachable:
  assumes "permit_step\<^sup>*\<^sup>* (permit_init n) s"
  shows "ps_remaining s + of_nat (count_tasks holds_or_restores s) = ucast n"
  using assms
proof (induction rule: rtranclp_induct)
  case base
  show ?case by (simp add: permit_init_def count_tasks_def)
next
  case (step s s')
  then show ?case using permits_conserved_step by simp
qed

section \<open>Runs without a pending rejection\<close>

lemma rejecting_iff: "Rejecting \<in> set (ps_tasks s) \<longleftrightarrow> count_tasks ((=) Rejecting) s \<noteq> 0"
  by (auto simp: count_tasks_def filter_empty_conv)

lemma unat_u32_bound: "unat (n :: u32) < 2 ^ 32"
  using unsigned_less [of n] by simp

lemma unat_dec: "(r :: usize) \<noteq> 0 \<Longrightarrow> Suc (unat (r - 1)) = unat r"
  by (metis Suc_pred' gr0I unat_eq_zero unat_minus_one)

lemma unat_inc: "unat (r :: usize) < 2 ^ 32 \<Longrightarrow> unat (r + 1) = Suc (unat r)"
  by (simp add: unat_word_ariths)

lemma calm_inv_step:
  assumes "calm_inv n s" and "calm_step s s'"
  shows "calm_inv n s'"
proof -
  have step: "permit_step s s'"
    and calm: "count_tasks ((=) Rejecting) s \<noteq> 0 \<Longrightarrow>
      count_tasks ((=) Rejecting) s' < count_tasks ((=) Rejecting) s"
    using assms(2) by (auto simp: calm_step_def rejecting_iff)
  from step show ?thesis
  proof (cases rule: permit_step.cases)
    case arrive
    with calm assms(1) show ?thesis by (auto simp: calm_inv_def)
  next
    case (fetch_sub i r t)
    show ?thesis
    proof (cases "ps_remaining s = 0")
      case True
      with fetch_sub have t: "t = Rejecting" "r = - 1" by (auto simp: take_permit_def)
      have "count_tasks ((=) Rejecting) s' = Suc (count_tasks ((=) Rejecting) s)"
        "count_tasks holds_permit s' = count_tasks holds_permit s"
        using fetch_sub t by (auto intro: count_gain count_keep [where i = i and t = t])
      with calm assms(1) True fetch_sub t show ?thesis by (auto simp: calm_inv_def split: if_splits)
    next
      case False
      with fetch_sub have t: "t = Serving (ps_remaining s = 1)" "r = ps_remaining s - 1"
        by (auto simp: take_permit_def)
      have "count_tasks ((=) Rejecting) s' = count_tasks ((=) Rejecting) s"
        "count_tasks holds_permit s' = Suc (count_tasks holds_permit s)"
        using fetch_sub t by (auto intro: count_gain count_keep [where i = i and t = t])
      with calm assms(1) unat_dec [OF False] fetch_sub t show ?thesis
        by (auto simp: calm_inv_def split: if_splits)
    qed
  next
    case (reject i)
    then have "count_tasks ((=) Rejecting) s = Suc (count_tasks ((=) Rejecting) s')"
      "count_tasks holds_permit s' = count_tasks holds_permit s"
      by (auto intro: count_loss count_keep [where i = i and t = Rejected])
    with assms(1) reject show ?thesis by (auto simp: calm_inv_def restore_permit_def split: if_splits)
  next
    case (serve i b)
    then have "count_tasks ((=) Rejecting) s' = count_tasks ((=) Rejecting) s"
      "count_tasks holds_permit s' = count_tasks holds_permit s"
      by (auto intro: count_keep [where i = i and t = Served])
    with calm assms(1) serve show ?thesis by (auto simp: calm_inv_def)
  next
    case (fail i b)
    then have "count_tasks ((=) Rejecting) s' = count_tasks ((=) Rejecting) s"
      "count_tasks holds_permit s = Suc (count_tasks holds_permit s')"
      by (auto intro: count_loss count_keep [where i = i and t = Failed])
    with calm assms(1) fail unat_inc [of "ps_remaining s"] unat_u32_bound [of n]
    show ?thesis by (auto simp: calm_inv_def restore_permit_def split: if_splits)
  next
    case (abandon i b)
    then have "count_tasks ((=) Rejecting) s' = count_tasks ((=) Rejecting) s"
      "count_tasks holds_permit s' = count_tasks holds_permit s"
      by (auto intro: count_keep [where i = i and t = Abandoned])
    with calm assms(1) abandon show ?thesis by (auto simp: calm_inv_def)
  qed
qed


lemma calm_inv_reachable:
  assumes "calm_step\<^sup>*\<^sup>* (permit_init n) s"
  shows "calm_inv n s"
  using assms
proof (induction rule: rtranclp_induct)
  case base
  have "unat n < 2 ^ 64" using unat_u32_bound [of n] by simp
  then show ?case by (simp add: permit_init_def calm_inv_def count_tasks_def unsigned_ucast_eq take_bit_eq_mod)
next
  case (step s s')
  then show ?case using calm_inv_step by blast
qed

section \<open>Every request finishes\<close>

lemma permit_step_work:
  assumes "permit_step s s'" and "length (ps_tasks s') = length (ps_tasks s)"
  shows "pending_work s' < pending_work s"
  using assms
proof (cases rule: permit_step.cases)
  case (fetch_sub i r t)
  then show ?thesis
    using sum_list_map_update [OF fetch_sub(2), of task_work t] by (auto simp: pending_work_def take_permit_def split: if_splits)
next
  case (reject i)
  then show ?thesis using sum_list_map_update [OF reject(2), of task_work Rejected] by (simp add: pending_work_def)
next
  case (serve i b)
  then show ?thesis using sum_list_map_update [OF serve(2), of task_work Served] by (simp add: pending_work_def)
next
  case (fail i b)
  then show ?thesis using sum_list_map_update [OF fail(2), of task_work Failed] by (simp add: pending_work_def)
next
  case (abandon i b)
  then show ?thesis using sum_list_map_update [OF abandon(2), of task_work Abandoned] by (simp add: pending_work_def)
qed simp

lemma permit_step_progress:
  assumes "pending_work s \<noteq> 0"
  shows "\<exists>s'. permit_step s s' \<and> length (ps_tasks s') = length (ps_tasks s)"
proof -
  obtain t where "t \<in> set (ps_tasks s)" and "task_work t \<noteq> 0"
    using assms by (auto simp: pending_work_def sum_list_eq_0_iff)
  then obtain i where i: "i < length (ps_tasks s)" "task_work (ps_tasks s ! i) \<noteq> 0"
    by (auto simp: in_set_conv_nth)
  show ?thesis
  proof (cases "ps_tasks s ! i")
    case Arrived
    obtain r t where "take_permit (ps_remaining s) = (r, t)" by fastforce
    from permit_step.fetch_sub [OF i(1) Arrived this] show ?thesis by force
  next
    case Rejecting
    from permit_step.reject [OF i(1) this] show ?thesis by force
  next
    case (Serving b)
    from permit_step.serve [OF i(1) this] show ?thesis by force
  qed (use i(2) in simp_all)
qed

lemma requests_finish:
  "\<exists>s'. permit_step\<^sup>*\<^sup>* s s' \<and> pending_work s' = 0 \<and> length (ps_tasks s') = length (ps_tasks s)"
proof (induction "pending_work s" arbitrary: s rule: less_induct)
  case less
  show ?case
  proof (cases "pending_work s = 0")
    case False
    then obtain s1 where s1: "permit_step s s1" "length (ps_tasks s1) = length (ps_tasks s)"
      using permit_step_progress by blast
    from less [OF permit_step_work [OF s1]] s1 show ?thesis
      by (metis converse_rtranclp_into_rtranclp)
  qed blast
qed

section \<open>Whole requests, and runs past the limit\<close>

lemma take_one:
  "take_permit r = (r', t) \<Longrightarrow> permit_step\<^sup>*\<^sup>* \<lparr>ps_remaining = r, ps_done = d, ps_tasks = ts\<rparr>
     \<lparr>ps_remaining = r', ps_done = d, ps_tasks = ts @ [t]\<rparr>"
proof -
  assume t: "take_permit r = (r', t)"
  let ?s = "\<lparr>ps_remaining = r, ps_done = d, ps_tasks = ts\<rparr>"
  have a: "permit_step ?s (?s\<lparr>ps_tasks := ts @ [Arrived]\<rparr>)"
    using permit_step.arrive [of ?s] by simp
  have b: "permit_step (?s\<lparr>ps_tasks := ts @ [Arrived]\<rparr>) (?s\<lparr>ps_remaining := r', ps_tasks := ts @ [t]\<rparr>)"
    using permit_step.fetch_sub [of "length ts" "?s\<lparr>ps_tasks := ts @ [Arrived]\<rparr>" r' t] t by simp
  from a b show ?thesis by (auto intro: rtranclp.rtrancl_into_rtrancl)
qed

lemma serve_one:
  assumes "r \<noteq> 0"
  shows "permit_step\<^sup>*\<^sup>* \<lparr>ps_remaining = r, ps_done = d, ps_tasks = ts\<rparr>
    \<lparr>ps_remaining = r - 1, ps_done = (d \<or> r = 1), ps_tasks = ts @ [Served]\<rparr>"
  using take_one [of r "r - 1" "Serving (r = 1)" d ts] assms
    permit_step.serve [of "length ts" "\<lparr>ps_remaining = r - 1, ps_done = d, ps_tasks = ts @ [Serving (r = 1)]\<rparr>" "r = 1"]
  by (auto simp: take_permit_def intro: rtranclp.rtrancl_into_rtrancl)

lemma fail_one:
  assumes "r \<noteq> 0"
  shows "permit_step\<^sup>*\<^sup>* \<lparr>ps_remaining = r, ps_done = d, ps_tasks = ts\<rparr>
    \<lparr>ps_remaining = r, ps_done = d, ps_tasks = ts @ [Failed]\<rparr>"
  using take_one [of r "r - 1" "Serving (r = 1)" d ts] assms
    permit_step.fail [of "length ts" "\<lparr>ps_remaining = r - 1, ps_done = d, ps_tasks = ts @ [Serving (r = 1)]\<rparr>" "r = 1"]
  by (auto simp: take_permit_def restore_permit_def intro: rtranclp.rtrancl_into_rtrancl)

lemma serve_many:
  assumes "k \<le> unat r"
  shows "\<exists>d'. permit_step\<^sup>*\<^sup>* \<lparr>ps_remaining = r, ps_done = d, ps_tasks = ts\<rparr>
    \<lparr>ps_remaining = r - of_nat k, ps_done = d', ps_tasks = ts @ replicate k Served\<rparr>"
  using assms
proof (induction k)
  case 0
  then show ?case by auto
next
  case (Suc k)
  then obtain d1 where d1: "permit_step\<^sup>*\<^sup>* \<lparr>ps_remaining = r, ps_done = d, ps_tasks = ts\<rparr>
    \<lparr>ps_remaining = r - of_nat k, ps_done = d1, ps_tasks = ts @ replicate k Served\<rparr>" by auto
  have "r - of_nat k \<noteq> 0"
  proof
    assume "r - of_nat k = 0"
    then have "unat r = unat (of_nat k :: usize)" by simp
    also have "\<dots> \<le> k" by (simp add: unat_of_nat take_bit_eq_mod)
    finally show False using Suc.prems by simp
  qed
  from serve_one [OF this, of d1 "ts @ replicate k Served"] d1 show ?case
    by (auto simp: replicate_append_same algebra_simps intro: rtranclp_trans)
qed

lemma refuse_one:
  "permit_step\<^sup>*\<^sup>* \<lparr>ps_remaining = 0, ps_done = d, ps_tasks = ts\<rparr>
     \<lparr>ps_remaining = 0, ps_done = d, ps_tasks = ts @ [Rejected]\<rparr>"
  using take_one [of 0 "- 1" Rejecting d ts]
    permit_step.reject [of "length ts" "\<lparr>ps_remaining = - 1, ps_done = d, ps_tasks = ts @ [Rejecting]\<rparr>"]
  by (auto simp: take_permit_def restore_permit_def intro: rtranclp.rtrancl_into_rtrancl)

lemma served_past_limit:
  assumes "m < 2 ^ 32"
  shows "\<exists>s. permit_step\<^sup>*\<^sup>* (permit_init n) s \<and> count_tasks ((=) Served) s = unat n + m"
proof -
  have n: "unat (ucast n :: usize) = unat n"
    using unat_u32_bound [of n] by (simp add: unsigned_ucast_eq take_bit_eq_mod)
  have "of_nat (unat (ucast n :: usize)) = (ucast n :: usize)" by simp
  then have "(ucast n :: usize) - of_nat (unat n) = 0" by (simp add: n)
  with serve_many [of "unat n" "ucast n" False "[]"] n
  obtain d1 where "permit_step\<^sup>*\<^sup>* (permit_init n)
    \<lparr>ps_remaining = 0, ps_done = d1, ps_tasks = replicate (unat n) Served\<rparr>"
    by (auto simp: permit_init_def)
  moreover have "m \<le> unat (- 1 :: usize)"
    using assms by (simp add: unsigned_minus_1_eq_mask mask_eq_exp_minus_1)
  with serve_many [of m "- 1" d1 "replicate (unat n) Served @ [Rejecting]"]
  obtain d2 where "permit_step\<^sup>*\<^sup>* \<lparr>ps_remaining = - 1, ps_done = d1, ps_tasks = replicate (unat n) Served @ [Rejecting]\<rparr>
    \<lparr>ps_remaining = - 1 - of_nat m, ps_done = d2,
     ps_tasks = (replicate (unat n) Served @ [Rejecting]) @ replicate m Served\<rparr>" by auto
  ultimately have "permit_step\<^sup>*\<^sup>* (permit_init n) \<lparr>ps_remaining = - 1 - of_nat m, ps_done = d2,
     ps_tasks = (replicate (unat n) Served @ [Rejecting]) @ replicate m Served\<rparr>"
    using take_one [of 0 "- 1" Rejecting d1 "replicate (unat n) Served"]
    by (auto simp: take_permit_def intro: rtranclp_trans)
  then show ?thesis by (auto simp: count_tasks_def intro!: exI)
qed

lemma count_tasks_split:
  "count_tasks holds_or_restores s = count_tasks holds_permit s + count_tasks ((=) Rejecting) s"
proof -
  have "length (filter holds_or_restores ts) =
    length (filter holds_permit ts) + length (filter ((=) Rejecting) ts)" for ts
  proof (induction ts)
    case (Cons t ts)
    then show ?case by (cases t) simp_all
  qed simp
  then show ?thesis by (simp add: count_tasks_def)
qed

lemma three_permits_taken:
  "\<exists>s. permit_step\<^sup>*\<^sup>* (permit_init 1) s \<and> count_tasks holds_permit s = 3"
proof -
  have "permit_step\<^sup>*\<^sup>* (permit_init 1) \<lparr>ps_remaining = 0, ps_done = False, ps_tasks = [Serving True]\<rparr>"
    using take_one [of 1 0 "Serving True" False "[]"] by (simp add: permit_init_def take_permit_def)
  also have "permit_step\<^sup>*\<^sup>* \<dots> \<lparr>ps_remaining = - 1, ps_done = False, ps_tasks = [Serving True, Rejecting]\<rparr>"
    using take_one [of 0 "- 1" Rejecting False "[Serving True]"] by (simp add: take_permit_def)
  also have "permit_step\<^sup>*\<^sup>* \<dots> \<lparr>ps_remaining = - 2, ps_done = False,
      ps_tasks = [Serving True, Rejecting, Serving False]\<rparr>"
    using take_one [of "- 1" "- 2" "Serving False" False "[Serving True, Rejecting]"] by (simp add: take_permit_def)
  also have "permit_step\<^sup>*\<^sup>* \<dots> \<lparr>ps_remaining = - 3, ps_done = False,
      ps_tasks = [Serving True, Rejecting, Serving False, Serving False]\<rparr>"
    using take_one [of "- 2" "- 3" "Serving False" False "[Serving True, Rejecting, Serving False]"]
    by (simp add: take_permit_def)
  finally show ?thesis by (auto simp: count_tasks_def intro!: exI)
qed

lemma early_close_run:
  "permit_step\<^sup>*\<^sup>* (permit_init 2) \<lparr>ps_remaining = 1, ps_done = True, ps_tasks = [Failed, Served]\<rparr>"
proof -
  have "permit_step\<^sup>*\<^sup>* (permit_init 2) \<lparr>ps_remaining = 1, ps_done = False, ps_tasks = [Serving False]\<rparr>"
    using take_one [of 2 1 "Serving False" False "[]"] by (simp add: permit_init_def take_permit_def)
  also have "permit_step\<^sup>*\<^sup>* \<dots> \<lparr>ps_remaining = 0, ps_done = True, ps_tasks = [Serving False, Served]\<rparr>"
    using serve_one [of 1 False "[Serving False]"] by simp
  also have "permit_step\<^sup>*\<^sup>* \<dots> \<lparr>ps_remaining = 1, ps_done = True, ps_tasks = [Failed, Served]\<rparr>"
    using permit_step.fail [of 0 "\<lparr>ps_remaining = 0, ps_done = True, ps_tasks = [Serving False, Served]\<rparr>" False]
    by (auto simp: restore_permit_def)
  finally show ?thesis .
qed

lemma abandoned_run:
  "permit_step\<^sup>*\<^sup>* (permit_init 1) \<lparr>ps_remaining = 0, ps_done = False, ps_tasks = [Abandoned]\<rparr>"
proof -
  have "permit_step\<^sup>*\<^sup>* (permit_init 1) \<lparr>ps_remaining = 0, ps_done = False, ps_tasks = [Serving True]\<rparr>"
    using take_one [of 1 0 "Serving True" False "[]"] by (simp add: permit_init_def take_permit_def)
  also have "permit_step\<^sup>*\<^sup>* \<dots> \<lparr>ps_remaining = 0, ps_done = False, ps_tasks = [Abandoned]\<rparr>"
    using permit_step.abandon [of 0 "\<lparr>ps_remaining = 0, ps_done = False, ps_tasks = [Serving True]\<rparr>" True]
    by auto
  finally show ?thesis .
qed

section \<open>The listener around the requests\<close>

lemma listener_permits:
  assumes "(listener_step timeout)\<^sup>*\<^sup>* (listener_init n) s"
  shows "permit_step\<^sup>*\<^sup>* (permit_init n) (ls_permits s)"
  using assms
proof (induction rule: rtranclp_induct)
  case base
  show ?case by (simp add: listener_init_def)
next
  case (step s s')
  from step.hyps(2) have "permit_step\<^sup>*\<^sup>* (ls_permits s) (ls_permits s')"
    by cases (auto intro: permit_step.arrive)
  with step.IH show ?case by (rule rtranclp_trans)
qed

lemma served_stays:
  assumes "permit_step s s'" and "Served \<in> set (ps_tasks s)"
  shows "Served \<in> set (ps_tasks s')"
proof -
  obtain j where "j < length (ps_tasks s)" "ps_tasks s ! j = Served"
    using assms(2) by (auto simp: in_set_conv_nth)
  with assms(1) have "j < length (ps_tasks s') \<and> ps_tasks s' ! j = Served"
    by cases (auto simp: nth_append nth_list_update)
  then show ?thesis by (metis nth_mem)
qed

text \<open>The notification is sent by a request that was served.\<close>

lemma notified_by_served:
  assumes "permit_step\<^sup>*\<^sup>* (permit_init n) s" and "ps_done s"
  shows "Served \<in> set (ps_tasks s)"
  using assms
proof (induction rule: rtranclp_induct)
  case base
  then show ?case by (simp add: permit_init_def)
next
  case (step s s')
  show ?case
  proof (cases "ps_done s")
    case True
    then show ?thesis by (intro served_stays [OF step.hyps(2)] step.IH)
  next
    case False
    from step.hyps(2) step.prems False show ?thesis by cases (simp_all add: set_update_memI)
  qed
qed

lemma listener_closed:
  assumes "(listener_step timeout)\<^sup>*\<^sup>* (listener_init n) s"
  shows "ls_elapsed s \<le> unat timeout \<and>
    (ls_open s \<or> ls_elapsed s = unat timeout \<or> Served \<in> set (ps_tasks (ls_permits s)))"
  using assms
proof (induction rule: rtranclp_induct)
  case base
  show ?case by (simp add: listener_init_def)
next
  case (step s s')
  from step.hyps(2) step.IH show ?case
    by cases (auto dest: served_stays notified_by_served [OF listener_permits [OF step.hyps(1)]])
qed

lemma listener_step_work:
  assumes "listener_step timeout s s'" and "requests_taken s' = requests_taken s"
  shows "listener_work timeout s' < listener_work timeout s"
  using assms
  by cases (auto simp: listener_work_def requests_taken_def dest: permit_step_work)

lemma listener_progress:
  assumes "ls_elapsed s \<le> unat timeout" and "\<not> listener_returned s"
  shows "\<exists>s'. listener_step timeout s s' \<and> requests_taken s' = requests_taken s"
proof (cases "ls_open s")
  case True
  show ?thesis
  proof (cases "ls_elapsed s = unat timeout")
    case False
    with assms True have "listener_step timeout s (s\<lparr>ls_elapsed := Suc (ls_elapsed s)\<rparr>)"
      by (intro listener_step.tick) simp_all
    then show ?thesis by (intro exI [of _ "s\<lparr>ls_elapsed := Suc (ls_elapsed s)\<rparr>"]) (simp add: requests_taken_def)
  next
    case True
    with \<open>ls_open s\<close> have "listener_step timeout s (s\<lparr>ls_open := False\<rparr>)" by (rule listener_step.timed_out)
    then show ?thesis by (intro exI [of _ "s\<lparr>ls_open := False\<rparr>"]) (simp add: requests_taken_def)
  qed
next
  case False
  with assms(2) obtain p where "permit_step (ls_permits s) p" "length (ps_tasks p) = length (ps_tasks (ls_permits s))"
    using permit_step_progress [of "ls_permits s"] by (auto simp: listener_returned_def)
  from listener_step.advance [OF this] this(2) show ?thesis
    by (intro exI [of _ "s\<lparr>ls_permits := p\<rparr>"]) (simp add: requests_taken_def)
qed

end
