(* ===== verification/Enroll_Properties.thy ===== *)
theory Enroll_Properties
  imports Fleet_Properties Permit_Spec
begin

text \<open>
  The properties of enrollment: who is served, what a refused request changes, the
  permits of the listener alone and under interleaving, the identities and
  certificates it works with; each with an evaluation where it has hypotheses.
\<close>

section \<open>Inputs for the evaluations\<close>

definition sample_service :: EnrollService where
  "sample_service = enroll_service 1 (KeyHandle 5) (KubeClient 0) 1"

definition sample_request :: "bytes list option \<Rightarrow> tonic_request" where
  "sample_request certs = \<lparr>peer_certs = certs,
     get_ref = \<lparr>joiner_transport_public = soft_encode (soft_public (fleet_skey [2]))\<rparr>\<rparr>"

definition sample_seed :: soft where
  "sample_seed = device_with [1] (fleet_skey [1]) []"

definition sample_listener :: "soft listener" where
  "sample_listener =
     \<lparr>socket_addr_from_str = (\<lambda>s. if s = [] then Err (AddrParseError s) else Ok (SocketAddr s)),
      kubeconfig_read_from = (\<lambda>p. ret (Kubeconfig p)),
      config_from_custom_kubeconfig = (\<lambda>k. ret (KubeConfig ''admin'')),
      client_try_from = (\<lambda>c. Ok (KubeClient 0)),
      server_tls = (\<lambda>tls. Ok ()),
      listener_run = (\<lambda>addr tls timeout service. ret ())\<rparr>"

lemma sample_served:
  "\<exists>resp w'. duplicate soft_tss soft_pki (soft_kube [''edge-2'']) (sample_request (Some [node_cert]))
     (sample_service, sample_seed) = (Ok resp, (sample_service\<lparr>es_remaining := 0, es_done := True\<rparr>, w'))"
proof -
  let ?self = sample_service
  have ready: "listener_ready soft_public soft_extend (soft_view sample_seed) ?self (fleet_skey [1])"
    by (simp add: listener_ready_def sample_service_def enroll_service_def mutex_new_def
        fleet_skey_is_fleet_key device_with_idle [unfolded One_nat_def]
        device_with_key [unfolded One_nat_def] sample_seed_def)
  have r1: "es_remaining ?self = 1"
    by (simp add: sample_service_def enroll_service_def)
  then have r: "es_remaining ?self \<noteq> 0" by simp
  have n: "peer_node_name soft_pki (sample_request (Some [node_cert])) = Ok ''edge-2''"
    by (simp add: peer_node_name_Ok_iff soft_peer sample_request_def NODE_IDENTITY_PREFIX_def)
  have k: "kube_get_node (soft_kube [''edge-2'']) (es_kube_client ?self) ''edge-2'' sample_seed = (Ok (), sample_seed)"
    by (simp add: soft_kube_def)
  have "soft_marshall (soft_public (fleet_skey [2])) = Ok (soft_encode (soft_public (fleet_skey [2])))"
    by (rule soft_marshall_ok) (simp_all add: soft_public_def)
  then have pt: "public_unmarshall soft_tss (joiner_transport_public (get_ref (sample_request (Some [node_cert])))) =
      Ok (soft_public (fleet_skey [2]))"
    by (simp add: sample_request_def soft_unmarshall_marshall)
  from tpm_device.duplicate_ok [OF soft_device.tpm_device_axioms ready r n k refl pt] r1 show ?thesis
    by auto
qed

lemma sample_denied:
  "duplicate soft_tss soft_pki (soft_kube []) (sample_request None) (sample_service, sample_seed) =
     (Err (PermissionDeniedStatus NoClientCertificate), (sample_service, sample_seed))"
  by (rule duplicate_failed)
    (simp_all add: sample_service_def enroll_service_def handle_duplicate_def bindR_apply
      peer_node_name_def sample_request_def denied_def)

section \<open>Who is served\<close>

text \<open>
  C5. A request is served only if a permit was left, it came over a TLS session
  with a client certificate, the common name of that certificate is a non-empty node
  name after the prefix system:node:, and the API server knows a node of exactly
  this name at the time of the request.
\<close>

theorem served_requests_come_from_members:
  assumes "duplicate X P K request (self, w) = (Ok resp, sw)"
  shows "es_remaining self \<noteq> 0 \<and> (\<exists>leaf chain cert node rest w1.
    peer_certs request = Some (leaf # chain) \<and> parse_x509_certificate P leaf = Ok cert \<and>
    common_names cert = Some (''system:node:'' @ node) # rest \<and> node \<noteq> [] \<and>
    kube_get_node K (es_kube_client self) node w = (Ok (), w1))"
proof (rule duplicate_OkE [OF assms])
  fix s2 w2
  assume r: "es_remaining self \<noteq> 0"
    and "handle_duplicate X P K request (self\<lparr>es_remaining := es_remaining self - 1\<rparr>, w) = (Ok resp, (s2, w2))"
  then obtain node w1 where "peer_node_name P request = Ok node"
    "kube_get_node K (es_kube_client self) node w = (Ok (), w1)"
    by (auto elim: handle_duplicate_Ok)
  with r show ?thesis by (fastforce simp: peer_node_name_Ok_iff NODE_IDENTITY_PREFIX_def)
qed

theorem served_requests_come_from_members_witness:
  "\<exists>leaf chain cert node rest w1. peer_certs (sample_request (Some [node_cert])) = Some (leaf # chain) \<and>
    parse_x509_certificate soft_pki leaf = Ok cert \<and>
    common_names cert = Some (''system:node:'' @ node) # rest \<and>
    kube_get_node (soft_kube [''edge-2'']) (KubeClient 0) node sample_seed = (Ok (), w1)"
proof -
  obtain resp sw where "duplicate soft_tss soft_pki (soft_kube [''edge-2'']) (sample_request (Some [node_cert]))
     (sample_service, sample_seed) = (Ok resp, sw)"
    using sample_served by blast
  from served_requests_come_from_members [OF this] show ?thesis
    by (simp add: sample_service_def enroll_service_def) blast
qed

text \<open>
  C21. A request that is answered with permission denied has not touched the TPM:
  the service is as before, permits included, and the world is as before or as the
  query to the API server left it.
\<close>

theorem denied_requests_change_nothing:
  assumes "duplicate X P K request (self, w) = (Err (PermissionDeniedStatus reason), (self', w'))"
  shows "self' = self \<and> (w' = w \<or> (\<exists>node. w' = snd (kube_get_node K (es_kube_client self) node w)))"
  using assms
proof (cases rule: duplicate_ErrE)
  case (2 s2 w2)
  let ?self = "self\<lparr>es_remaining := es_remaining self - 1\<rparr>"
  show ?thesis
  proof (cases "peer_node_name P request")
    case (Ok node)
    obtain r w1 where k: "kube_get_node K (es_kube_client self) node w = (r, w1)" by fastforce
    show ?thesis
    proof (cases r)
      case (Ok u)
      with authorised_not_denied [OF \<open>peer_node_name P request = Ok node\<close>, of K ?self w u w1 X
          "PermissionDeniedStatus reason" "(s2, w2)"] k 2
      show ?thesis by (auto simp: internal_def)
    next
      case (Err e)
      with handle_duplicate_unauthorised [OF \<open>peer_node_name P request = Ok node\<close>, of K ?self w e w1 X] k 2
      show ?thesis by auto (metis snd_conv)
    next
      case (Panic e)
      with k 2 \<open>peer_node_name P request = Ok node\<close> show ?thesis
        by (simp add: handle_duplicate_def bindR_apply on_world_def map_err_apply authorize_node_def)
    qed
  next
    case (Err e)
    with handle_duplicate_unauthenticated [OF Err, of X K ?self w] 2 show ?thesis by auto
  next
    case (Panic e)
    with 2 show ?thesis by (simp add: handle_duplicate_def bindR_apply)
  qed
qed auto

theorem denied_requests_change_nothing_witness:
  "duplicate soft_tss soft_pki (soft_kube []) (sample_request None) (sample_service, sample_seed) =
     (Err (PermissionDeniedStatus NoClientCertificate), (sample_service, sample_seed))"
  using denied_requests_change_nothing [OF sample_denied] sample_denied by simp

section \<open>Permits of the handler\<close>

text \<open>
  C16. The permits of one request: a served request takes exactly one and notifies
  the listener exactly when it took the last one; every other request, whatever its
  error, gives its permit back; with no permit left the request is refused without
  any effect.
\<close>

theorem permit_accounting:
  assumes "duplicate X P K request (self, w) = (r, (self', w'))" and "\<not> is_panic r"
  shows "(if is_ok r then es_remaining self \<noteq> 0 \<and> es_remaining self' = es_remaining self - 1 \<and>
        es_done self' = (es_done self \<or> es_remaining self = 1)
      else self' = self) \<and>
    (es_remaining self = 0 \<longrightarrow> r = Err (denied MaxAlreadyReached) \<and> w' = w)"
proof (cases r)
  case (Ok resp)
  with assms show ?thesis by (auto elim!: duplicate_OkE simp: duplicate_served)
next
  case (Err e)
  with assms show ?thesis by (auto elim!: duplicate_ErrE)
qed (use assms in simp)

theorem permit_accounting_witness:
  "\<exists>resp self' w'. duplicate soft_tss soft_pki (soft_kube [''edge-2'']) (sample_request (Some [node_cert]))
     (sample_service, sample_seed) = (Ok resp, (self', w')) \<and>
     es_remaining self' = es_remaining sample_service - 1 \<and> es_done self'"
proof -
  obtain resp self' w' where d: "duplicate soft_tss soft_pki (soft_kube [''edge-2''])
     (sample_request (Some [node_cert])) (sample_service, sample_seed) = (Ok resp, (self', w'))"
    using sample_served by blast
  have "es_remaining sample_service = 1" by (simp add: sample_service_def enroll_service_def)
  with permit_accounting [OF d] d show ?thesis by auto
qed



section \<open>Permits under interleaving\<close>

text \<open>
  C7. Under every interleaving of requests, the counter plus the permits held by
  requests being served, served or abandoned, plus the requests between their failed
  fetch_sub and its fetch_add, is the limit modulo 2^64: no permit appears or
  vanishes unaccounted.
\<close>

theorem permits_conserved:
  assumes "permit_step\<^sup>*\<^sup>* (permit_init max_requests) s"
  shows "ps_remaining s + of_nat (count_tasks holds_permit s + count_tasks ((=) Rejecting) s) =
    ucast max_requests"
proof -
  have "count_tasks holds_or_restores s = count_tasks holds_permit s + count_tasks ((=) Rejecting) s"
    by (rule count_tasks_split)
  then show ?thesis using permits_conserved_reachable [OF assms] by simp
qed

theorem permits_conserved_witness:
  "\<exists>s. permit_step\<^sup>*\<^sup>* (permit_init 1) s \<and> count_tasks holds_permit s = 3 \<and>
     ps_remaining s + of_nat (3 + count_tasks ((=) Rejecting) s) = 1"
proof -
  obtain s where s: "permit_step\<^sup>*\<^sup>* (permit_init 1) s" "count_tasks holds_permit s = 3"
    using three_permits_taken by blast
  with permits_conserved [OF s(1)] show ?thesis by (intro exI [of _ s]) simp
qed

text \<open>
  C17. When no request runs between the failed fetch_sub of another and its
  restoring fetch_add, at most as many requests as the limit ever hold a permit.
\<close>

theorem limit_holds_without_overlap:
  assumes "calm_step\<^sup>*\<^sup>* (permit_init max_requests) s"
  shows "count_tasks holds_permit s \<le> unat max_requests"
  using calm_inv_reachable [OF assms] by (auto simp: calm_inv_def split: if_splits)

theorem limit_holds_without_overlap_witness:
  "count_tasks holds_permit \<lparr>ps_remaining = 0, ps_done = True, ps_tasks = [Served]\<rparr> \<le> unat (1 :: u32)"
proof (rule limit_holds_without_overlap)
  let ?s = "\<lambda>r d t. \<lparr>ps_remaining = r, ps_done = d, ps_tasks = [t]\<rparr>"
  have "calm_step (permit_init 1) (?s 1 False Arrived)"
    using permit_step.arrive [of "permit_init 1"] by (simp add: calm_step_def permit_init_def)
  moreover have "calm_step (?s 1 False Arrived) (?s 0 False (Serving True))"
    using permit_step.fetch_sub [of 0 "?s 1 False Arrived" 0 "Serving True"]
    by (simp add: calm_step_def take_permit_def)
  moreover have "calm_step (?s 0 False (Serving True)) (?s 0 True Served)"
    using permit_step.serve [of 0 "?s 0 False (Serving True)" True] by (simp add: calm_step_def)
  ultimately show "calm_step\<^sup>*\<^sup>* (permit_init 1) (?s 0 True Served)"
    by (meson converse_rtranclp_into_rtranclp rtranclp.rtrancl_refl)
qed

text \<open>
  C29. Without that proviso the limit does not bound what is served: while one
  refused request has not yet restored the counter, which its fetch_sub wrapped from
  0 to 2^64 - 1, any number of further requests is served.
\<close>

theorem limit_exceeded_by_overlap:
  assumes "extra < 2 ^ 32"
  shows "\<exists>s. permit_step\<^sup>*\<^sup>* (permit_init max_requests) s \<and>
    count_tasks ((=) Served) s = unat max_requests + extra"
  by (rule served_past_limit [OF assms])

theorem limit_exceeded_by_overlap_witness:
  "\<exists>s. permit_step\<^sup>*\<^sup>* (permit_init 1) s \<and> count_tasks ((=) Served) s = 1001"
  using limit_exceeded_by_overlap [of 1000 1] by simp

text \<open>
  Every request ends: without new arrivals no run of permit steps is infinite,
  and from every state all requests present can finish.
\<close>

theorem requests_terminate:
  "wfp (\<lambda>s' s. permit_step s s' \<and> length (ps_tasks s') = length (ps_tasks s)) \<and>
   (\<forall>s. \<exists>s'. permit_step\<^sup>*\<^sup>* s s' \<and> pending_work s' = 0 \<and> length (ps_tasks s') = length (ps_tasks s))"
proof
  show "wfp (\<lambda>s' s. permit_step s s' \<and> length (ps_tasks s') = length (ps_tasks s))"
    by (rule wfp_if_convertible_to_nat [of _ pending_work]) (simp add: permit_step_work)
qed (use requests_finish in blast)


text \<open>
  C15. The listener returns: apart from new requests it makes only finitely many
  steps, none of its states is stuck before it is closed with no request in flight,
  and it closes only when the timeout has elapsed or some request has been served.
\<close>

theorem listener_returns:
  assumes "(listener_step timeout)\<^sup>*\<^sup>* (listener_init max_requests) s"
  shows "wfp (\<lambda>s' s. listener_step timeout s s' \<and> requests_taken s' = requests_taken s) \<and>
    (\<not> listener_returned s \<longrightarrow> (\<exists>s'. listener_step timeout s s' \<and> requests_taken s' = requests_taken s)) \<and>
    (\<not> ls_open s \<longrightarrow> ls_elapsed s = unat timeout \<or> Served \<in> set (ps_tasks (ls_permits s)))"
proof (intro conjI impI)
  show "wfp (\<lambda>s' s. listener_step timeout s s' \<and> requests_taken s' = requests_taken s)"
    by (rule wfp_if_convertible_to_nat [of _ "listener_work timeout"]) (simp add: listener_step_work)
qed (use listener_progress listener_closed [OF assms] in blast)+

theorem listener_returns_witness:
  "\<exists>s. (listener_step 300)\<^sup>*\<^sup>* (listener_init 1) s \<and> listener_returned s \<and> ls_elapsed s = 0 \<and>
    Served \<in> set (ps_tasks (ls_permits s))"
proof -
  let ?s = "\<lambda>r d t b. \<lparr>ls_permits = \<lparr>ps_remaining = r, ps_done = d, ps_tasks = [t]\<rparr>, ls_elapsed = 0, ls_open = b\<rparr>"
  have "listener_step 300 (listener_init 1) (?s 1 False Arrived True)"
    using listener_step.accept [of "listener_init 1" 300] by (simp add: listener_init_def permit_init_def)
  moreover have "listener_step 300 (?s 1 False Arrived True) (?s 0 False (Serving True) True)"
    using permit_step.fetch_sub [of 0 "ls_permits (?s 1 False Arrived True)" 0 "Serving True"]
      listener_step.advance [of "?s 1 False Arrived True" _ 300] by (simp add: take_permit_def)
  moreover have "listener_step 300 (?s 0 False (Serving True) True) (?s 0 True Served True)"
    using permit_step.serve [of 0 "ls_permits (?s 0 False (Serving True) True)" True]
      listener_step.advance [of "?s 0 False (Serving True) True" _ 300] by simp
  moreover have "listener_step 300 (?s 0 True Served True) (?s 0 True Served False)"
    using listener_step.notified [of "?s 0 True Served True" 300] by simp
  ultimately have r: "(listener_step 300)\<^sup>*\<^sup>* (listener_init 1) (?s 0 True Served False)"
    by (meson converse_rtranclp_into_rtranclp rtranclp.rtrancl_refl)
  with listener_returns [OF r] show ?thesis
    by (intro exI [of _ "?s 0 True Served False"]) (simp add: listener_returned_def pending_work_def)
qed

section \<open>Starting the listener\<close>

text \<open>
  On a node without a fleet key enroll fails with the error of the fleet
  module, before any certificate is minted or a listener opened, and the persistent
  keys of the TPM stay as they are.
\<close>

theorem enroll_requires_fleet_key:
  assumes "tpm_device X view kpub name_of sealed_under wrapped_for imported_under extend_policy reachable"
    and "tcti_from_str X tcti = Ok tc" and "reachable tc" and "socket_addr_from_str L listen = Ok addr"
    and "v_nv (view w) FLEET_KEY_PERSISTENT_HANDLE = None"
  shows "\<exists>e w'. run_enroll X P L fs listen max_requests timeout tcti dir w = (Err (EnrollFleet e), w') \<and>
    v_nv (view w') = v_nv (view w)"
proof -
  obtain c w1 where c: "context_new X tc w = (Ok c, w1)" "idle (view w1) c"
    "v_nv (view w1) = v_nv (view w)"
    using tpm_device.context_new_idle [OF assms(1,3)] by metis
  then obtain e w2 where "load_fleet_key X c w1 = (Err e, w2)" "view w2 = view w1"
    using tpm_device.load_fleet_key_absent [OF assms(1), of w1 c] assms(5) by (auto simp: runs_err_iff)
  with c assms(2,4) show ?thesis by (simp add: run_enroll_def bindR_apply map_err_apply)
qed

theorem enroll_requires_fleet_key_witness:
  "\<exists>e w'. run_enroll soft_tss soft_pki sample_listener soft_fs ''0.0.0.0:8443'' 1 300 ''swtpm'' ''/k0s''
     (soft_new [1]) = (Err (EnrollFleet e), w')"
  using enroll_requires_fleet_key [OF soft_device.tpm_device_axioms, of "''swtpm''" "TctiNameConf ''swtpm''"
      sample_listener "''0.0.0.0:8443''" "SocketAddr ''0.0.0.0:8443''" "soft_new [1]" soft_pki soft_fs 1 300 "''/k0s''"]
  by (auto simp: sample_listener_def soft_reachable_def soft_new_def)

text \<open>
  The server certificate that enroll mints is signed over the parameters for
  exactly the node name, with the server authentication and digital signature usages
  appended and a validity of one day before and after the current time, for a key
  generated in the same call.
\<close>

theorem minted_leaf_names_only_the_node:
  assumes "mint_enroll_server_identity P fs node_name dir w = (Ok (cert, key), w')"
  shows "\<exists>params0 params leaf_key issuer. certificate_params_new P [node_name] = Ok params0 \<and>
    cp_subject_alt_names params = cp_subject_alt_names params0 \<and>
    cp_distinguished_name params = dn_push P (cp_distinguished_name params0) CommonName node_name \<and>
    cp_key_usages params = cp_key_usages params0 @ [DigitalSignature] \<and>
    cp_extended_key_usages params = cp_extended_key_usages params0 @ [ServerAuth] \<and>
    time_checked_sub P (now_utc P w) (86400 * 1000000000) = Some (cp_not_before params) \<and>
    time_checked_add P (now_utc P w) (86400 * 1000000000) = Some (cp_not_after params) \<and>
    key_pair_generate P w = (Ok leaf_key, w') \<and> signed_by P params leaf_key issuer = Ok cert \<and>
    key = serialize_pem P leaf_key"
proof -
  from assms obtain params0 params leaf_key issuer where
    "certificate_params_new P [node_name] = Ok params0"
    and p: "leaf_params P node_name (now_utc P w) params0 = Ok params"
    and "key_pair_generate P w = (Ok leaf_key, w')" and "signed_by P params leaf_key issuer = Ok cert"
    and "key = serialize_pem P leaf_key"
    by (auto simp: mint_enroll_server_identity_def bindR_Ok_iff Let_def)
  with leaf_params_Ok [OF p] show ?thesis by blast
qed

theorem minted_leaf_names_only_the_node_witness:
  "\<exists>params0. \<exists>params :: CertificateParams. certificate_params_new soft_pki [''edge-2''] = Ok params0 \<and>
    cp_subject_alt_names params = cp_subject_alt_names params0 \<and>
    time_checked_add soft_pki 1800000000000000000 (86400 * 1000000000) = Some (cp_not_after params)"
proof -
  have "mint_enroll_server_identity soft_pki soft_fs ''edge-2'' ''/k0s'' (soft_new [1]) =
      (Ok (''edge-2'', string_of_bytes [7]), soft_new [1])"
    by (simp add: mint_enroll_server_identity_def soft_pki_def soft_fs_def fs_read_to_string_def fs_read_def
      path_join_def bytes_of_string_def string_of_bytes_def in_range_def unat_of_nat take_bit_eq_mod
      Let_def map_err_apply bindR_apply leaf_params_def ca_key_to_pkcs8_pem_def starts_with_def)
  from minted_leaf_names_only_the_node [OF this] show ?thesis by (auto simp: soft_pki_def)
qed

end
