(* ===== verification/Fault_Spec.thy ===== *)
theory Fault_Spec
  imports App_Spec
begin

text \<open>
  The code on a TPM that keeps its contract except for one command. A fault replaces
  one function of the record \<open>tss\<close>: \<open>Unseal\<close> fails, \<open>EvictControl\<close> refuses to make a
  loaded key persistent (it still deletes a persistent one), or the probe of a
  persistent handle fails although the key is there. The lemmas say what the callers
  leave behind on these error paths.
\<close>

definition unseal_failing :: "tss_error \<Rightarrow> 'w tss \<Rightarrow> 'w tss" where
  "unseal_failing e X = X\<lparr>unseal_object := (\<lambda>c h. lift (Err e))\<rparr>"

definition persist_failing :: "('w \<Rightarrow> 'k tpm_view) \<Rightarrow> tss_error \<Rightarrow> 'w tss \<Rightarrow> 'w tss" where
  "persist_failing view e X = X\<lparr>evict_control := (\<lambda>c p h ph w.
     case v_tr (view w) c h of
       Some (TransientKey k) \<Rightarrow> (Err e, w)
     | _ \<Rightarrow> evict_control X c p h ph w)\<rparr>"

definition probe_failing :: "tss_error \<Rightarrow> 'w tss \<Rightarrow> 'w tss" where
  "probe_failing e X = X\<lparr>tr_from_tpm_public := (\<lambda>c h. lift (Err e))\<rparr>"

lemma unseal_failing_fields:
  "nullauth_begin (unseal_failing e X) = nullauth_begin X" "nullauth_end (unseal_failing e X) = nullauth_end X"
  "public_unmarshall (unseal_failing e X) = public_unmarshall X"
  "private_try_from (unseal_failing e X) = private_try_from X"
  "load (unseal_failing e X) = load X" "flush_context (unseal_failing e X) = flush_context X"
  "tss_display (unseal_failing e X) = tss_display X"
  "unseal_object (unseal_failing e X) = (\<lambda>c h. lift (Err e))"
  by (simp_all add: unseal_failing_def)

lemma unseal_failing_same:
  "execute_with_nullauth_session (unseal_failing e X) = execute_with_nullauth_session X"
  "envelope_decode (unseal_failing e X) = envelope_decode X"
  unfolding fun_eq_iff execute_with_nullauth_session_def envelope_decode_def unseal_failing_fields by simp_all

lemmas code_defs = execute_with_nullauth_session_def execute_with_session_def create_new_fleet_key_def
  duplicable_storage_public_def duplication_auth_policy_digest_def start_session_def persist_def
  TpmSealer_new_def srk_public_def derive_key_id_def load_fleet_key_def

lemma probe_failing_same:
  "execute_with_nullauth_session (probe_failing e X) = execute_with_nullauth_session X"
  "create_new_fleet_key (probe_failing e X) = create_new_fleet_key X"
  "TpmSealer_new (probe_failing e X) = TpmSealer_new X"
  "tcti_from_str (probe_failing e X) = tcti_from_str X" "context_new (probe_failing e X) = context_new X"
  "persistent_tpm_handle_new (probe_failing e X) = persistent_tpm_handle_new X"
  "tr_from_tpm_public (probe_failing e X) = (\<lambda>c h. lift (Err e))"
  by (simp_all add: fun_eq_iff probe_failing_def code_defs)

lemma persist_failing_same:
  "execute_with_nullauth_session (persist_failing view e X) = execute_with_nullauth_session X"
  "execute_with_session (persist_failing view e X) = execute_with_session X"
  "start_session (persist_failing view e X) = start_session X"
  "load_fleet_key (persist_failing view e X) = load_fleet_key X"
  "persistent_tpm_handle_new (persist_failing view e X) = persistent_tpm_handle_new X"
  "import_object (persist_failing view e X) = import_object X" "load (persist_failing view e X) = load X"
  "flush_context (persist_failing view e X) = flush_context X"
  by (simp_all add: fun_eq_iff persist_failing_def code_defs cong: outcome.case_cong prod.case_cong)

lemma persist_failing_evict:
  "v_tr (view w) c h = Some (PersistentKey ph k) \<Longrightarrow>
   evict_control (persist_failing view e X) c p h q w = evict_control X c p h q w"
  "v_tr (view w) c h = Some (TransientKey k) \<Longrightarrow> evict_control (persist_failing view e X) c p h q w = (Err e, w)"
  by (simp_all add: persist_failing_def)

context tpm_device
begin

lemma failing_unseal_leaks:
  assumes "sealer_ready X kpub name_of (view w) s k" and "sealed_envelope X sealed_under k ct d"
  shows "runs_err (unseal (unseal_failing e X) s ct) w (\<lambda>t w'. t = TpmTss e \<and>
    (\<exists>h. v_tr (view w) (sealer_context s) h = None \<and>
       view w' = put_tr (sealer_context s) h (Some (SealedObject d)) (view w)))"
proof -
  let ?c = "sealer_context s"
  note s = assms(1) [unfolded sealer_ready_def]
  obtain p priv where e: "envelope_decode X ct = Ok (p, priv)" "sealed_under k p priv d"
    using assms(2) by (auto simp: sealed_envelope_def)
  let ?body = "bindR (map_err TpmTss (load X ?c (sealer_primary s) priv p)) (\<lambda>handle.
        bindR (map_err TpmTss (unseal_object (unseal_failing e X) ?c (object_of_key handle))) (\<lambda>data.
        bindR (map_err TpmTss (flush_context X ?c (object_of_key handle))) (\<lambda>_.
        ret data)))"
  have "runs_err (execute_with_nullauth_session X TpmTss ?c ?body) w (\<lambda>t w'. t = TpmTss e \<and>
    (\<exists>h. v_tr (view w) ?c h = None \<and> view w' = put_tr ?c h (Some (SealedObject d)) (view w)))"
  proof (rule nullauth_err)
    show idle: "idle (view w) ?c" using s by simp
    fix t w1
    assume fresh: "v_tr (view w) ?c (object_of_session t) = None"
      and v1: "view w1 = open_session ?c t (view w)"
    note o = open_session_view [OF fresh]
    have "v_open (view w1) ?c" "user_auth (view w1) ?c" "key_at (view w1) ?c (sealer_primary s) = Some k"
      using s idle by (simp_all add: v1 o idle_def)
    from load_sealed [OF this e(2)] obtain h w2 where h: "load X ?c (sealer_primary s) priv p w1 = (Ok h, w2)"
      "v_tr (view w1) ?c (object_of_key h) = None"
      "view w2 = put_tr ?c (object_of_key h) (Some (SealedObject d)) (view w1)"
      by (auto simp: runs_ok_iff)
    then have "object_of_key h \<noteq> object_of_session t" "v_tr (view w) ?c (object_of_key h) = None"
      using o(7) [of "object_of_key h"] by (auto simp: v1 split: if_splits)
    with h idle fresh show "runs_err ?body w1 (\<lambda>x w2. v_open (view w2) ?c \<and> v_cur (view w2) ?c = Some t \<and>
         v_tr (view w2) ?c (object_of_session t) = Some (Session SessionHmac []) \<and>
         (\<forall>w3. view w3 = close_session ?c t (view w2) \<longrightarrow> x = TpmTss e \<and>
           (\<exists>h. v_tr (view w) ?c h = None \<and> view w3 = put_tr ?c h (Some (SealedObject d)) (view w))))"
      by (auto simp: runs_err_iff bindR_apply map_err_apply unseal_failing_fields v1 view_simps o idle_def
          close_put_tr_open)
  qed
  with e show ?thesis
    by (auto simp: unseal_def runs_err_iff bindR_apply unseal_failing_same unseal_failing_fields)
qed


lemma sealer_ready_put_fresh:
  assumes "sealer_ready X kpub name_of v s k" and "v_tr v (sealer_context s) h = None"
  shows "sealer_ready X kpub name_of (put_tr (sealer_context s) h e v) s k"
  using assms by (auto simp: sealer_ready_def key_at_put_tr) (simp_all add: key_at_def)

lemma failing_decrypt_leaks:
  assumes "\<not> mutex_poisoned (kms_sealer self)" and "mutex_data (kms_sealer self) = s"
    and "sealer_ready X kpub name_of (view w) s k" and "dec_key_id req = sealer_key_id s"
    and "sealed_envelope X sealed_under k (dec_ciphertext req) d"
  shows "\<exists>h w'. decrypt (unseal_failing e X) req (self, w) =
      (Err (kms_internal (''TPM error: '' @ tss_display X e)), (self, w')) \<and>
    v_tr (view w) (sealer_context s) h = None \<and>
    view w' = put_tr (sealer_context s) h (Some (SealedObject d)) (view w)"
  using failing_unseal_leaks [OF assms(3,5), of e] assms(1,2,4)
  by (auto simp: runs_err_iff decrypt_def decrypt_with_def with_sealer_def bindR_apply map_err_apply
      unseal_failing_fields)

lemma failing_decrypts_accumulate:
  assumes "\<not> mutex_poisoned (kms_sealer self)" and "mutex_data (kms_sealer self) = s"
    and "sealer_ready X kpub name_of (view w) s k" and "dec_key_id req = sealer_key_id s"
    and "sealed_envelope X sealed_under k (dec_ciphertext req) d"
  shows "\<exists>hs w'. ((\<lambda>sw. snd (decrypt (unseal_failing e X) req sw)) ^^ n) (self, w) = (self, w') \<and>
    sealer_ready X kpub name_of (view w') s k \<and> length hs = n \<and> distinct hs \<and>
    (\<forall>h \<in> set hs. v_tr (view w') (sealer_context s) h = Some (SealedObject d))"
proof (induction n)
  case 0
  show ?case using assms(3) by (intro exI [of _ "[]"]) simp
next
  case (Suc n)
  then obtain hs w1 where hs: "((\<lambda>sw. snd (decrypt (unseal_failing e X) req sw)) ^^ n) (self, w) = (self, w1)"
    "sealer_ready X kpub name_of (view w1) s k" "length hs = n" "distinct hs"
    "\<forall>h \<in> set hs. v_tr (view w1) (sealer_context s) h = Some (SealedObject d)"
    by blast
  obtain h w2 where h: "snd (decrypt (unseal_failing e X) req (self, w1)) = (self, w2)"
    "v_tr (view w1) (sealer_context s) h = None"
    "view w2 = put_tr (sealer_context s) h (Some (SealedObject d)) (view w1)"
    using failing_decrypt_leaks [OF assms(1,2) hs(2) assms(4,5), of e] by auto
  have "h \<notin> set hs" using h(2) hs(5) by force
  with hs h show ?case
    by (intro exI [of _ "h # hs"] exI [of _ w2]) (auto simp: sealer_ready_put_fresh view_simps)
qed

lemma nullauth_cong:
  assumes "idle (view w) c"
    and "\<And>s w1. v_tr (view w) c (object_of_session s) = None \<Longrightarrow> view w1 = open_session c s (view w) \<Longrightarrow>
       f w1 = g w1"
  shows "execute_with_nullauth_session X conv c f w = execute_with_nullauth_session X conv c g w"
proof -
  obtain s w1 where "nullauth_begin X c w = (Ok s, w1)" "v_tr (view w) c (object_of_session s) = None"
    "view w1 = open_session c s (view w)"
    using nullauth_begin [OF assms(1)] by (auto simp: runs_ok_iff open_session_def)
  with assms(2) show ?thesis
    by (simp add: execute_with_nullauth_session_def bindR_apply map_err_apply attempt_def)
qed

lemma nullauth_refused:
  assumes "idle (view w) c"
    and "\<And>w1. v_open (view w1) c \<Longrightarrow> v_nv (view w1) = v_nv (view w) \<Longrightarrow>
       (\<And>h. v_tr (view w) c h \<noteq> None \<Longrightarrow> v_tr (view w1) c h = v_tr (view w) c h) \<Longrightarrow>
       runs_err f w1 (\<lambda>x w2. view w2 = view w1 \<and> Q x)"
  shows "runs_err (execute_with_nullauth_session X conv c f) w (\<lambda>x w'. view w' = view w \<and> Q x)"
proof (rule nullauth_err [OF assms(1)])
  fix s w1
  assume fresh: "v_tr (view w) c (object_of_session s) = None"
    and v1: "view w1 = open_session c s (view w)"
  note o = open_session_view [OF fresh]
  have "runs_err f w1 (\<lambda>x w2. view w2 = view w1 \<and> Q x)"
    using assms(1) fresh by (intro assms(2)) (auto simp: v1 o idle_def)
  then show "runs_err f w1 (\<lambda>x w2. v_open (view w2) c \<and> v_cur (view w2) c = Some s \<and>
      v_tr (view w2) c (object_of_session s) = Some (Session SessionHmac []) \<and>
      (\<forall>w3. view w3 = close_session c s (view w2) \<longrightarrow> view w3 = view w \<and> Q x))"
    by (rule runs_err_mono) (use assms(1) in \<open>auto simp: v1 o idle_def close_open_session fresh\<close>)
qed

text \<open>A probe that fails, on a device with or without a fleet key.\<close>

lemma load_fleet_key_probe_failing:
  assumes "idle (view w) c"
  shows "runs_err (load_fleet_key (probe_failing e X) c) w (\<lambda>t w'. view w' = view w)"
proof -
  have "runs_err (execute_with_nullauth_session X id c (lift (Err e) :: ('w, object_handle, tss_error) rs)) w
      (\<lambda>x w'. view w' = view w \<and> True)"
    by (rule nullauth_refused [OF assms]) (simp add: runs_err_iff)
  then show ?thesis
    by (auto simp: load_fleet_key_def probe_failing_same fleet_handle runs_err_iff bindR_apply map_err_apply)
qed

lemma create_new_fleet_key_occupied:
  assumes "idle (view w) c" and "v_nv (view w) FLEET_KEY_PERSISTENT_HANDLE = Some k"
  shows "runs_err (create_new_fleet_key X c) w (\<lambda>_ w'. v_nv (view w') = v_nv (view w))"
proof -
  let ?t = "fleet_template (extend_policy [] CommandDuplicate)"
  obtain w1 where p: "duplicable_storage_public X c w = (Ok ?t, w1)" "view w1 = view w"
    using duplicable_storage_public_ok [OF idle_open [OF assms(1)]] by (auto simp: runs_ok_iff)
  have "idle (view w1) c" using assms by (simp add: p)
  then obtain h w2 where
    h: "execute_with_nullauth_session X id c (create_primary X c Owner ?t) w1 = (Ok h, w2)"
    "view w2 = put_tr c (object_of_key h) (Some (TransientKey (v_primary (view w) ?t))) (view w)"
    using create_primary_nullauth [of w1 c ?t] by (auto simp: runs_ok_iff p)
  have "runs_err (execute_with_nullauth_session X id c
      (evict_control X c ProvisionOwner (object_of_key h) FLEET_KEY_PERSISTENT_HANDLE)) w2
      (\<lambda>x w'. view w' = view w2 \<and> True)"
  proof (rule nullauth_refused)
    show "idle (view w2) c" using assms by (simp add: h)
    fix v
    assume "v_open (view v) c" "v_nv (view v) = v_nv (view w2)"
      "\<And>h. v_tr (view w2) c h \<noteq> None \<Longrightarrow> v_tr (view v) c h = v_tr (view w2) c h"
    then show "runs_err (evict_control X c ProvisionOwner (object_of_key h) FLEET_KEY_PERSISTENT_HANDLE) v
        (\<lambda>x w2. view w2 = view v \<and> True)"
      using assms(2) by (intro runs_err_mono [OF evict_occupied]) (simp_all add: h view_simps)
  qed
  with p h show ?thesis
    by (auto simp: create_new_fleet_key_def persist_def fleet_handle runs_err_iff bindR_apply map_err_apply view_simps)
qed

lemma genesis_probe_failing:
  assumes "tcti_from_str X tcti = Ok tc" and "reachable tc"
    and "v_nv (view w) FLEET_KEY_PERSISTENT_HANDLE = Some k"
  shows "runs_err (run_genesis (probe_failing e X) tcti False) w (\<lambda>_ w'. v_nv (view w') = v_nv (view w))"
proof -
  obtain c w1 where c: "context_new X tc w = (Ok c, w1)" "idle (view w1) c" "v_nv (view w1) = v_nv (view w)"
    using context_new_idle [OF assms(2)] by metis
  obtain t w2 where l: "load_fleet_key (probe_failing e X) c w1 = (Err t, w2)" "view w2 = view w1"
    using load_fleet_key_probe_failing [OF c(2), of e] by (auto simp: runs_err_iff)
  have "runs_err (create_new_fleet_key X c) w2 (\<lambda>_ w'. v_nv (view w') = v_nv (view w2))"
    using c assms(3) by (intro create_new_fleet_key_occupied) (simp_all add: l)
  with c l assms(1) show ?thesis
    by (auto simp: run_genesis_def create_fleet_key_def probe_failing_same runs_err_iff bindR_apply map_err_apply attempt_def)
qed

lemma serve_probe_failing:
  assumes "reachable tc"
  shows "\<exists>s w'. serve_sealers (probe_failing e X) tc False w = (Ok (s, None), w') \<and>
    sealer_ready X kpub name_of (view w') s (v_primary (view w) srk_template)"
proof -
  obtain c w1 where c: "context_new X tc w = (Ok c, w1)" "idle (view w1) c" "v_primary (view w1) = v_primary (view w)"
    using context_new_idle [OF assms] by metis
  obtain t w2 where l: "load_fleet_key (probe_failing e X) c w1 = (Err t, w2)" "view w2 = view w1"
    using load_fleet_key_probe_failing [OF c(2), of e] by (auto simp: runs_err_iff)
  obtain s w3 where "TpmSealer_new X tc w2 = (Ok s, w3)"
    "sealer_ready X kpub name_of (view w3) s (v_primary (view w2) srk_template)"
    using TpmSealer_new_ok [OF assms refl, of w2] by (auto simp: runs_ok_iff)
  with c l show ?thesis
    by (simp add: serve_sealers_def build_sealer_def probe_failing_same bindR_apply map_err_apply attempt_def)
qed

text \<open>A TPM that refuses to make a key persistent, after the old one was deleted.\<close>

lemma delete_persist_failing:
  assumes "idle (view w) c"
  shows "delete_persisted_fleet_key (persist_failing view e X) c w = delete_persisted_fleet_key X c w"
proof (cases "v_nv (view w) FLEET_KEY_PERSISTENT_HANDLE")
  case None
  then obtain t w1 where "load_fleet_key X c w = (Err t, w1)"
    using load_fleet_key_absent [OF assms] by (auto simp: runs_err_iff)
  then show ?thesis by (simp add: delete_persisted_fleet_key_def persist_failing_same bindR_apply attempt_def)
next
  case (Some k)
  then obtain h w1 where h: "load_fleet_key X c w = (Ok h, w1)"
    "view w1 = put_tr c (object_of_key h) (Some (PersistentKey FLEET_KEY_PERSISTENT_HANDLE k)) (view w)"
    using load_fleet_key_present [OF assms] by (auto simp: runs_ok_iff)
  have "execute_with_nullauth_session X id c (evict_control (persist_failing view e X) c ProvisionOwner
        (object_of_key h) FLEET_KEY_PERSISTENT_HANDLE) w1 =
      execute_with_nullauth_session X id c (evict_control X c ProvisionOwner
        (object_of_key h) FLEET_KEY_PERSISTENT_HANDLE) w1"
  proof (rule nullauth_cong)
    fix s v
    assume "v_tr (view w1) c (object_of_session s) = None" "view v = open_session c s (view w1)"
    moreover from this have "v_tr (view v) c (object_of_key h) = Some (PersistentKey FLEET_KEY_PERSISTENT_HANDLE k)"
      using h(2) open_session_view(7) [of "view w1" c s "object_of_key h"] by (auto simp: view_simps)
    ultimately show "evict_control (persist_failing view e X) c ProvisionOwner (object_of_key h)
        FLEET_KEY_PERSISTENT_HANDLE v = evict_control X c ProvisionOwner (object_of_key h) FLEET_KEY_PERSISTENT_HANDLE v"
      by (simp add: persist_failing_evict)
  qed (use assms in \<open>simp add: h\<close>)
  with h(1) show ?thesis
    by (simp add: delete_persisted_fleet_key_def persist_failing_same bindR_apply attempt_def fleet_handle
        map_err_apply cong: outcome.case_cong)
qed

lemma persist_failing_err:
  assumes "idle (view w) c" and "v_tr (view w) c (object_of_key h) = Some (TransientKey k)"
  shows "runs_err (persist (persist_failing view e X) c h) w (\<lambda>t w'. view w' = view w \<and> t = FleetTss e)"
proof -
  have "runs_err (execute_with_nullauth_session X id c (evict_control (persist_failing view e X) c ProvisionOwner
      (object_of_key h) FLEET_KEY_PERSISTENT_HANDLE)) w (\<lambda>x w'. view w' = view w \<and> x = e)"
    by (rule nullauth_refused [OF assms(1)]) (use assms(2) in \<open>simp add: runs_err_iff persist_failing_evict\<close>)
  then show ?thesis
    by (auto simp: persist_def persist_failing_same fleet_handle runs_err_iff bindR_apply map_err_apply)
qed

lemma import_persist_failing:
  assumes idle: "idle (view w) c" and tk: "v_tr (view w) c (object_of_key ht) = Some (TransientKey kt)"
    and blob: "fleet_key_public blob = kpub k" "blob_encryption_key blob = Some d"
      "wrapped_for (kpub kt) k d (duplicate_private blob) (blob_encrypted_secret blob)"
  shows "runs_err (import_and_persist (persist_failing view e X) c ht blob) w (\<lambda>t w'. t = FleetTss e \<and>
    v_nv (view w') = (v_nv (view w))(FLEET_KEY_PERSISTENT_HANDLE := None))"
proof -
  obtain s w1 h1 w2 w3 where pro: "start_session X c SessionHmac w = (Ok s, w1)"
    "execute_with_session X c (Some s)
       (bindR (import_object X c (object_of_key ht) (Some d) (kpub k) (duplicate_private blob)
          (blob_encrypted_secret blob) AES_128_CFB)
         (\<lambda>imported. load X c ht imported (kpub k))) w1 = (Ok h1, w2)"
    "flush_context X c (object_of_session s) w2 = (Ok (), w3)"
    and v3: "view w3 = put_tr c (object_of_key h1) (Some (TransientKey k)) (view w)"
    by (rule import_prologue [OF idle tk blob(3)]) blast
  have "idle (view w3) c" using idle by (simp add: v3)
  then obtain w4 where w4: "delete_persisted_fleet_key (persist_failing view e X) c w3 = (Ok (), w4)"
    "view w4 = put_nv FLEET_KEY_PERSISTENT_HANDLE None (view w3)"
    using delete_persisted_fleet_key_ok [of w3 c] by (auto simp: runs_ok_iff delete_persist_failing)
  obtain w5 where "persist (persist_failing view e X) c h1 w4 = (Err (FleetTss e), w5)" "view w5 = view w4"
    using persist_failing_err [of w4 c h1 k] idle by (auto simp: runs_err_iff w4 v3 view_simps)
  with pro w4 blob show ?thesis
    by (simp add: import_and_persist_def persist_failing_same runs_err_iff bindR_apply map_err_apply attempt_def
        duplication_symmetric_alg_def v3 view_simps)
qed

end

end
