(* ===== verification/Node_Life.thy ===== *)
theory Node_Life
  imports App_Spec
begin

text \<open>
  The life of one node that serves: requests of the API server, restarts of the
  plugin, and at most one change of the TPM, from the outside, by \<open>genesis\<close> or \<open>join\<close>.
  The relation \<open>node_step\<close> runs the handlers and the start-up code of the model; its
  invariant is that every ciphertext handed out so far is sealed under one of the two
  keys that the present service holds.
\<close>

text \<open>A node: its running service, its world, and what it has handed out (ciphertext, key_id, plaintext).\<close>

record 'w node =
  nd_service :: KmsService
  nd_world :: 'w
  nd_issued :: "(bytes \<times> string \<times> bytes) set"

definition node_start :: "'w tss \<Rightarrow> tcti \<Rightarrow> 'w \<Rightarrow> 'w node \<Rightarrow> bool" where
  "node_start X tc w n = (\<exists>ss w1. serve_sealers X tc False w = (Ok ss, w1) \<and>
     n = \<lparr>nd_service = serve_service ss, nd_world = w1, nd_issued = {}\<rparr>)"

inductive node_step ::
  "'w tss \<Rightarrow> ('w \<Rightarrow> 'k tpm_view) \<Rightarrow> (public \<Rightarrow> bytes) \<Rightarrow> ('k \<Rightarrow> public) \<Rightarrow> tcti \<Rightarrow>
     'w node \<Rightarrow> 'w node \<Rightarrow> bool"
  for X view name_of kpub tc where
  encrypted: "encrypt X req (nd_service n, nd_world n) = (Ok resp, (self, w)) \<Longrightarrow>
     node_step X view name_of kpub tc n (n\<lparr>nd_service := self, nd_world := w, nd_issued :=
       insert (enc_ciphertext resp, enc_key_id resp, enc_plaintext req) (nd_issued n)\<rparr>)"
| refused: "encrypt X req (nd_service n, nd_world n) = (Err status, (self, w)) \<Longrightarrow>
     node_step X view name_of kpub tc n (n\<lparr>nd_service := self, nd_world := w\<rparr>)"
| decrypted: "(dec_ciphertext req, dec_key_id req, d) \<in> nd_issued n \<Longrightarrow>
     decrypt X req (nd_service n, nd_world n) = (r, (self, w)) \<Longrightarrow>
     node_step X view name_of kpub tc n (n\<lparr>nd_service := self, nd_world := w\<rparr>)"
| rejected: "envelope_decode X (dec_ciphertext req) = Err t \<or>
       dec_key_id req \<noteq> sealer_key_id (mutex_data (kms_sealer (nd_service n))) \<and>
       (\<forall>l. kms_legacy_sealer (nd_service n) = Some l \<longrightarrow> dec_key_id req \<noteq> sealer_key_id (mutex_data l)) \<Longrightarrow>
     decrypt X req (nd_service n, nd_world n) = (r, (self, w)) \<Longrightarrow>
     node_step X view name_of kpub tc n (n\<lparr>nd_service := self, nd_world := w\<rparr>)"
| restarted: "same_device (view (nd_world n)) (view w) \<Longrightarrow>
     serve_sealers X tc False w = (Ok ss, w1) \<Longrightarrow>
     node_step X view name_of kpub tc n (n\<lparr>nd_service := serve_service ss, nd_world := w1\<rparr>)"
| enrolled: "v_nv (view (nd_world n)) FLEET_KEY_PERSISTENT_HANDLE = None \<Longrightarrow>
     same_device (put_nv FLEET_KEY_PERSISTENT_HANDLE (Some k) (view (nd_world n))) (view w) \<Longrightarrow>
     key_id_of_name X (name_of (kpub k)) \<noteq>
       key_id_of_name X (name_of (kpub (v_primary (view w) srk_template))) \<Longrightarrow>
     serve_sealers X tc False w = (Ok ss, w1) \<Longrightarrow>
     node_step X view name_of kpub tc n (n\<lparr>nd_service := serve_service ss, nd_world := w1\<rparr>)"

text \<open>
  The invariant: the preferred sealer holds the serving key, the legacy one the per-node
  key, and every ciphertext that was handed out is sealed under one of the two.
\<close>

definition service_ready ::
  "'w tss \<Rightarrow> ('k \<Rightarrow> public) \<Rightarrow> (public \<Rightarrow> bytes) \<Rightarrow> 'k tpm_view \<Rightarrow> KmsService \<Rightarrow> bool" where
  "service_ready X kpub name_of v self =
     (\<not> mutex_poisoned (kms_sealer self) \<and>
      sealer_ready X kpub name_of v (mutex_data (kms_sealer self)) (serving_key v) \<and>
      (case v_nv v FLEET_KEY_PERSISTENT_HANDLE of
         None \<Rightarrow> kms_legacy_sealer self = None
       | Some k \<Rightarrow> (\<exists>l. kms_legacy_sealer self = Some l \<and> \<not> mutex_poisoned l \<and>
            sealer_ready X kpub name_of v (mutex_data l) (v_primary v srk_template)) \<and>
            key_id_of_name X (name_of (kpub k)) \<noteq>
            key_id_of_name X (name_of (kpub (v_primary v srk_template)))))"

definition issued_under ::
  "'w tss \<Rightarrow> ('k \<Rightarrow> public) \<Rightarrow> (public \<Rightarrow> bytes) \<Rightarrow> ('k \<Rightarrow> public \<Rightarrow> tpm_private \<Rightarrow> bytes \<Rightarrow> bool) \<Rightarrow>
     'k tpm_view \<Rightarrow> bytes \<times> string \<times> bytes \<Rightarrow> bool" where
  "issued_under X kpub name_of sealed_under v = (\<lambda>(ct, kid, d). \<exists>k.
     (k = v_primary v srk_template \<or> v_nv v FLEET_KEY_PERSISTENT_HANDLE = Some k) \<and>
     kid = key_id_of_name X (name_of (kpub k)) \<and> sealed_envelope X sealed_under k ct d)"

definition node_inv ::
  "'w tss \<Rightarrow> ('w \<Rightarrow> 'k tpm_view) \<Rightarrow> ('k \<Rightarrow> public) \<Rightarrow> (public \<Rightarrow> bytes) \<Rightarrow>
     ('k \<Rightarrow> public \<Rightarrow> tpm_private \<Rightarrow> bytes \<Rightarrow> bool) \<Rightarrow> 'w node \<Rightarrow> bool" where
  "node_inv X view kpub name_of sealed_under n =
     (service_ready X kpub name_of (view (nd_world n)) (nd_service n) \<and>
      (\<forall>x \<in> nd_issued n. issued_under X kpub name_of sealed_under (view (nd_world n)) x))"

lemma issued_under_same:
  "same_device v v' \<Longrightarrow> issued_under X kpub name_of sealed_under v' = issued_under X kpub name_of sealed_under v"
  by (simp add: issued_under_def same_device_def fun_eq_iff)

lemma issued_under_enrolled:
  assumes "issued_under X kpub name_of sealed_under v x" and "v_nv v FLEET_KEY_PERSISTENT_HANDLE = None"
    and "same_device (put_nv FLEET_KEY_PERSISTENT_HANDLE (Some k) v) v'"
  shows "issued_under X kpub name_of sealed_under v' x"
  using assms by (auto simp: issued_under_def same_device_def view_simps)

text \<open>A malformed ciphertext, or an unknown key_id, is refused without a trace.\<close>

lemma decrypt_rejected:
  assumes "envelope_decode X (dec_ciphertext req) = Err t \<or>
       dec_key_id req \<noteq> sealer_key_id (mutex_data (kms_sealer self)) \<and>
       (\<forall>l. kms_legacy_sealer self = Some l \<longrightarrow> dec_key_id req \<noteq> sealer_key_id (mutex_data l))"
  shows "\<exists>st. decrypt X req (self, w) = (Err st, (self, w))"
  using assms
  by (auto simp: decrypt_def decrypt_with_def with_sealer_def with_legacy_sealer_def unseal_def bindR_apply
      map_err_apply split: option.splits)

context tpm_device
begin

lemma serve_sealers_ready:
  assumes "reachable tc"
    and ids: "\<And>k. v_nv (view w) FLEET_KEY_PERSISTENT_HANDLE = Some k \<Longrightarrow> key_id_of_name X (name_of (kpub k)) \<noteq>
            key_id_of_name X (name_of (kpub (v_primary (view w) srk_template)))"
  shows "\<exists>ss w1. serve_sealers X tc False w = (Ok ss, w1) \<and> same_device (view w) (view w1) \<and>
    service_ready X kpub name_of (view w1) (serve_service ss)"
proof (cases "v_nv (view w) FLEET_KEY_PERSISTENT_HANDLE")
  case None
  with build_sealer_srk_ok [OF assms(1) None] show ?thesis
    by (auto simp: runs_ok_iff serve_sealers_def map_err_apply same_device_def service_ready_def serve_service_def
        KmsService_new_def mutex_new_def serving_key_def)
next
  case (Some k)
  with build_sealer_fleet_ok [OF assms(1) Some] ids [OF Some] show ?thesis
    by (auto simp: runs_ok_iff serve_sealers_def map_err_apply same_device_def service_ready_def serve_service_def
        with_legacy_fallback_def mutex_new_def serving_key_def)
qed

lemma encrypt_ready:
  assumes "service_ready X kpub name_of (view w) self"
  shows "if length (enc_plaintext req) \<le> MAX_SEAL_DATA
    then (\<exists>ct w'. encrypt X req (self, w) = (Ok \<lparr>enc_ciphertext = ct,
        enc_key_id = key_id_of_name X (name_of (kpub (serving_key (view w)))), enc_annotations = []\<rparr>, (self, w')) \<and>
      view w' = view w \<and> sealed_envelope X sealed_under (serving_key (view w)) ct (enc_plaintext req))
    else (\<exists>st. encrypt X req (self, w) = (Err st, (self, w)))"
proof -
  let ?s = "mutex_data (kms_sealer self)"
  have r: "\<not> mutex_poisoned (kms_sealer self)" "sealer_ready X kpub name_of (view w) ?s (serving_key (view w))"
    using assms by (simp_all add: service_ready_def)
  show ?thesis
  proof (cases "length (enc_plaintext req) \<le> MAX_SEAL_DATA")
    case True
    with seal_ok [OF r(2) True] r show ?thesis
      by (auto simp: runs_ok_iff encrypt_def with_sealer_def bindR_apply map_err_apply sealer_ready_def)
  next
    case False
    then have "seal X ?s (enc_plaintext req) w = (Err (PlaintextTooLarge (length (enc_plaintext req))), w)"
      by (simp add: seal_def)
    with False r show ?thesis
      by (auto simp: encrypt_def with_sealer_def bindR_apply map_err_apply)
  qed
qed

lemma decrypt_issued:
  assumes "service_ready X kpub name_of (view w) self"
    and "issued_under X kpub name_of sealed_under (view w) (dec_ciphertext req, dec_key_id req, d)"
  shows "\<exists>w'. decrypt X req (self, w) = (Ok \<lparr>dec_plaintext = d\<rparr>, (self, w')) \<and> view w' = view w"
proof -
  let ?s = "mutex_data (kms_sealer self)"
  have r: "\<not> mutex_poisoned (kms_sealer self)" "sealer_ready X kpub name_of (view w) ?s (serving_key (view w))"
    using assms by (simp_all add: service_ready_def)
  obtain k where k: "k = v_primary (view w) srk_template \<or> v_nv (view w) FLEET_KEY_PERSISTENT_HANDLE = Some k"
    "dec_key_id req = key_id_of_name X (name_of (kpub k))" "sealed_envelope X sealed_under k (dec_ciphertext req) d"
    using assms(2) by (auto simp: issued_under_def)
  show ?thesis
  proof (cases "k = serving_key (view w)")
    case True
    with unseal_ok [OF r(2), of "dec_ciphertext req" d] k r show ?thesis
      by (auto simp: runs_ok_iff decrypt_def decrypt_with_def with_sealer_def bindR_apply map_err_apply sealer_ready_def)
  next
    case False
    then obtain kf l where l: "v_nv (view w) FLEET_KEY_PERSISTENT_HANDLE = Some kf" "k = v_primary (view w) srk_template"
      "kms_legacy_sealer self = Some l" "\<not> mutex_poisoned l" "sealer_ready X kpub name_of (view w) (mutex_data l) k"
      "key_id_of_name X (name_of (kpub kf)) \<noteq> key_id_of_name X (name_of (kpub k))" "serving_key (view w) = kf"
      using k(1) assms(1) by (auto simp: service_ready_def serving_key_def split: option.splits)
    with unseal_ok [OF l(5), of "dec_ciphertext req" d] k r show ?thesis
      by (auto simp: runs_ok_iff decrypt_def decrypt_with_def with_sealer_def with_legacy_sealer_def bindR_apply
          map_err_apply sealer_ready_def)
  qed
qed


lemma node_inv_start:
  assumes "reachable tc" and "node_start X tc w n"
    and "\<And>k. v_nv (view w) FLEET_KEY_PERSISTENT_HANDLE = Some k \<Longrightarrow> key_id_of_name X (name_of (kpub k)) \<noteq>
            key_id_of_name X (name_of (kpub (v_primary (view w) srk_template)))"
  shows "node_inv X view kpub name_of sealed_under n"
  using serve_sealers_ready [OF assms(1,3)] assms(2) by (auto simp: node_start_def node_inv_def)

lemma node_inv_step:
  assumes "reachable tc" and "node_step X view name_of kpub tc n n'" and "node_inv X view kpub name_of sealed_under n"
  shows "node_inv X view kpub name_of sealed_under n'"
  using assms(2)
proof (cases rule: node_step.cases)
  case (encrypted req resp self w)
  with encrypt_ready [of "nd_world n" "nd_service n" req] assms(3) show ?thesis
    by (auto simp: node_inv_def issued_under_def serving_key_def split: if_splits option.splits)
next
  case (refused req status self w)
  with encrypt_ready [of "nd_world n" "nd_service n" req] assms(3) show ?thesis
    by (auto simp: node_inv_def split: if_splits)
next
  case (decrypted req d r self w)
  with decrypt_issued [of "nd_world n" "nd_service n" req d] assms(3) show ?thesis
    by (auto simp: node_inv_def)
next
  case (rejected req t r self w)
  with decrypt_rejected [OF rejected(2), of "nd_world n"] assms(3) show ?thesis
    by (auto simp: node_inv_def)
next
  case (restarted w ss w1)
  have "key_id_of_name X (name_of (kpub k)) \<noteq> key_id_of_name X (name_of (kpub (v_primary (view w) srk_template)))"
    if "v_nv (view w) FLEET_KEY_PERSISTENT_HANDLE = Some k" for k
    using that restarted(2) assms(3) by (simp add: node_inv_def service_ready_def same_device_def)
  then have "same_device (view w) (view w1) \<and> service_ready X kpub name_of (view w1) (serve_service ss)"
    using serve_sealers_ready [OF assms(1), of w] restarted(3) by auto
  moreover from this have "issued_under X kpub name_of sealed_under (view w1) =
      issued_under X kpub name_of sealed_under (view (nd_world n))"
    using issued_under_same [OF restarted(2), where X = X and kpub = kpub]
      issued_under_same [of "view w" "view w1" X kpub] by simp
  ultimately show ?thesis using restarted(1) assms(3) by (simp add: node_inv_def)
next
  case (enrolled k w ss w1)
  have "v_nv (view w) FLEET_KEY_PERSISTENT_HANDLE = Some k"
    using enrolled by (simp add: same_device_def view_simps)
  then have "same_device (view w) (view w1) \<and> service_ready X kpub name_of (view w1) (serve_service ss)"
    using serve_sealers_ready [OF assms(1), of w] enrolled by auto
  moreover from this have "issued_under X kpub name_of sealed_under (view w1) =
      issued_under X kpub name_of sealed_under (view w)"
    by (simp add: issued_under_same)
  ultimately show ?thesis using enrolled(1-3) assms(3)
    by (auto simp: node_inv_def intro: issued_under_enrolled)
qed

lemma node_inv_reachable:
  assumes "(node_step X view name_of kpub tc)\<^sup>*\<^sup>* n n'" and "reachable tc"
    and "node_inv X view kpub name_of sealed_under n"
  shows "node_inv X view kpub name_of sealed_under n'"
  using assms by (induction rule: rtranclp_induct) (auto intro: node_inv_step)

end

end
