(* ===== verification/Kms_Run.thy ===== *)
theory Kms_Run
  imports Node_Life
begin

text \<open>
  Concurrent requests to the KMS service. The handlers of \<open>kms.rs\<close> hold the lock of a
  sealer for one section of their code; \<open>kms_step\<close> is the relation of taking a lock and
  of running a section and giving the lock back, on the same definitions as the
  handlers. The lemmas: the sections of a request that meets no other make up its
  handler; the locks exclude, and no run blocks; on a TPM that keeps its contract
  every request is answered as if it were alone; the two sealers have separate locks
  and are used at the same time.
\<close>

section \<open>The sections of the handlers\<close>

text \<open>
  A request by where it is: waiting for the lock of the preferred sealer, holding it,
  past it with a key_id that is not the preferred sealer's, holding the lock of the
  legacy sealer, or answered.
\<close>

datatype kms_task =
    EncryptArrived EncryptRequest
  | EncryptLocked EncryptRequest
  | EncryptDone EncryptRequest "(EncryptResponse, status) outcome"
  | DecryptArrived DecryptRequest
  | DecryptLocked DecryptRequest
  | DecryptMissed DecryptRequest
  | DecryptLegacyLocked DecryptRequest
  | DecryptDone DecryptRequest "(DecryptResponse, status) outcome"

record 'w kms_run =
  kr_service :: KmsService
  kr_world :: 'w
  kr_tasks :: "kms_task list"

fun holds_sealer :: "kms_task \<Rightarrow> bool" where
  "holds_sealer (EncryptLocked req) = True"
| "holds_sealer (DecryptLocked req) = True"
| "holds_sealer t = False"

fun holds_legacy :: "kms_task \<Rightarrow> bool" where
  "holds_legacy (DecryptLegacyLocked req) = True"
| "holds_legacy t = False"

definition unknown_key_id :: "DecryptRequest \<Rightarrow> status" where
  "unknown_key_id req = Status InvalidArgument (''unknown key_id '' @ dec_key_id req)"

text \<open>Where \<open>decrypt\<close> goes when it drops the guard of the preferred, and of the legacy sealer.\<close>

definition after_preferred :: "DecryptRequest \<Rightarrow> (DecryptResponse option, status) outcome \<Rightarrow> kms_task" where
  "after_preferred req r = (case r of
     Ok None \<Rightarrow> DecryptMissed req
   | Ok (Some response) \<Rightarrow> DecryptDone req (Ok response)
   | Err status \<Rightarrow> DecryptDone req (Err status)
   | Panic s \<Rightarrow> DecryptDone req (Panic s))"

definition after_legacy :: "DecryptRequest \<Rightarrow> (DecryptResponse option, status) outcome \<Rightarrow> kms_task" where
  "after_legacy req r = DecryptDone req (case r of
     Ok None \<Rightarrow> Err (unknown_key_id req)
   | Ok (Some response) \<Rightarrow> Ok response
   | Err status \<Rightarrow> Err status
   | Panic s \<Rightarrow> Panic s)"

inductive kms_step :: "'w tss \<Rightarrow> (DecryptRequest \<Rightarrow> bool) \<Rightarrow> 'w kms_run \<Rightarrow> 'w kms_run \<Rightarrow> bool"
  for X admitted where
  encrypt_arrives: "kms_step X admitted s (s\<lparr>kr_tasks := kr_tasks s @ [EncryptArrived ereq]\<rparr>)"
| decrypt_arrives: "admitted dreq \<Longrightarrow>
     kms_step X admitted s (s\<lparr>kr_tasks := kr_tasks s @ [DecryptArrived dreq]\<rparr>)"
| encrypt_locks: "i < length (kr_tasks s) \<Longrightarrow> kr_tasks s ! i = EncryptArrived ereq \<Longrightarrow>
     \<not> list_ex holds_sealer (kr_tasks s) \<Longrightarrow>
     kms_step X admitted s (s\<lparr>kr_tasks := (kr_tasks s)[i := EncryptLocked ereq]\<rparr>)"
| encrypt_ends: "i < length (kr_tasks s) \<Longrightarrow> kr_tasks s ! i = EncryptLocked ereq \<Longrightarrow>
     encrypt X ereq (kr_service s, kr_world s) = (er, (self, w)) \<Longrightarrow>
     kms_step X admitted s (s\<lparr>kr_service := self, kr_world := w, kr_tasks := (kr_tasks s)[i := EncryptDone ereq er]\<rparr>)"
| decrypt_locks: "i < length (kr_tasks s) \<Longrightarrow> kr_tasks s ! i = DecryptArrived dreq \<Longrightarrow>
     \<not> list_ex holds_sealer (kr_tasks s) \<Longrightarrow>
     kms_step X admitted s (s\<lparr>kr_tasks := (kr_tasks s)[i := DecryptLocked dreq]\<rparr>)"
| decrypt_unlocks: "i < length (kr_tasks s) \<Longrightarrow> kr_tasks s ! i = DecryptLocked dreq \<Longrightarrow>
     with_sealer (decrypt_with X dreq) (kr_service s, kr_world s) = (dr, (self, w)) \<Longrightarrow>
     kms_step X admitted s (s\<lparr>kr_service := self, kr_world := w, kr_tasks := (kr_tasks s)[i := after_preferred dreq dr]\<rparr>)"
| decrypt_refused: "i < length (kr_tasks s) \<Longrightarrow> kr_tasks s ! i = DecryptMissed dreq \<Longrightarrow>
     kms_legacy_sealer (kr_service s) = None \<Longrightarrow>
     kms_step X admitted s (s\<lparr>kr_tasks := (kr_tasks s)[i := DecryptDone dreq (Err (unknown_key_id dreq))]\<rparr>)"
| legacy_locks: "i < length (kr_tasks s) \<Longrightarrow> kr_tasks s ! i = DecryptMissed dreq \<Longrightarrow>
     kms_legacy_sealer (kr_service s) = Some legacy \<Longrightarrow> \<not> list_ex holds_legacy (kr_tasks s) \<Longrightarrow>
     kms_step X admitted s (s\<lparr>kr_tasks := (kr_tasks s)[i := DecryptLegacyLocked dreq]\<rparr>)"
| legacy_unlocks: "i < length (kr_tasks s) \<Longrightarrow> kr_tasks s ! i = DecryptLegacyLocked dreq \<Longrightarrow>
     kms_legacy_sealer (kr_service s) = Some legacy \<Longrightarrow>
     with_legacy_sealer legacy (decrypt_with X dreq) (kr_service s, kr_world s) = (dr, (self, w)) \<Longrightarrow>
     kms_step X admitted s (s\<lparr>kr_service := self, kr_world := w, kr_tasks := (kr_tasks s)[i := after_legacy dreq dr]\<rparr>)"

definition kms_start :: "KmsService \<Rightarrow> 'w \<Rightarrow> 'w kms_run" where
  "kms_start self w = \<lparr>kr_service = self, kr_world = w, kr_tasks = []\<rparr>"

section \<open>Definitions of the specification\<close>

text \<open>Steps still to come of a request, and of all requests.\<close>

fun kms_task_work :: "kms_task \<Rightarrow> nat" where
  "kms_task_work (EncryptArrived req) = 2"
| "kms_task_work (EncryptLocked req) = 1"
| "kms_task_work (EncryptDone req r) = 0"
| "kms_task_work (DecryptArrived req) = 4"
| "kms_task_work (DecryptLocked req) = 3"
| "kms_task_work (DecryptMissed req) = 2"
| "kms_task_work (DecryptLegacyLocked req) = 1"
| "kms_task_work (DecryptDone req r) = 0"

definition kms_work :: "'w kms_run \<Rightarrow> nat" where
  "kms_work s = sum_list (map kms_task_work (kr_tasks s))"

definition kms_quiet :: "'w kms_run \<Rightarrow> bool" where
  "kms_quiet s = (\<not> list_ex holds_sealer (kr_tasks s) \<and> \<not> list_ex holds_legacy (kr_tasks s))"

text \<open>At most one request holds each lock, and the legacy lock only when there is a legacy sealer.\<close>

definition lock_inv :: "'w kms_run \<Rightarrow> bool" where
  "lock_inv s = (length (filter holds_sealer (kr_tasks s)) \<le> 1 \<and> length (filter holds_legacy (kr_tasks s)) \<le> 1 \<and>
     (list_ex holds_legacy (kr_tasks s) \<longrightarrow> kms_legacy_sealer (kr_service s) \<noteq> None))"

text \<open>
  The requests whose answer the contract of the TPM determines: a ciphertext sealed
  under one of the keys of the service, a malformed one, an unknown key_id.
\<close>

definition answerable ::
  "'w tss \<Rightarrow> ('k \<Rightarrow> public) \<Rightarrow> (public \<Rightarrow> bytes) \<Rightarrow> ('k \<Rightarrow> public \<Rightarrow> tpm_private \<Rightarrow> bytes \<Rightarrow> bool) \<Rightarrow>
     'k tpm_view \<Rightarrow> KmsService \<Rightarrow> DecryptRequest \<Rightarrow> bool" where
  "answerable X kpub name_of sealed_under v self req =
     ((\<exists>d. issued_under X kpub name_of sealed_under v (dec_ciphertext req, dec_key_id req, d)) \<or>
      (\<exists>t. envelope_decode X (dec_ciphertext req) = Err t) \<or>
      dec_key_id req \<noteq> sealer_key_id (mutex_data (kms_sealer self)) \<and>
      (\<forall>l. kms_legacy_sealer self = Some l \<longrightarrow> dec_key_id req \<noteq> sealer_key_id (mutex_data l)))"

text \<open>A request that is as far as it would be alone, on a device in the state \<open>v\<close>.\<close>

fun as_alone :: "'w tss \<Rightarrow> ('w \<Rightarrow> 'k tpm_view) \<Rightarrow> 'k tpm_view \<Rightarrow> (DecryptRequest \<Rightarrow> bool) \<Rightarrow> KmsService \<Rightarrow>
    kms_task \<Rightarrow> bool" where
  "as_alone X view v admitted self (EncryptDone req r) =
     (\<exists>w w'. view w = v \<and> encrypt X req (self, w) = (r, (self, w')))"
| "as_alone X view v admitted self (DecryptArrived req) = admitted req"
| "as_alone X view v admitted self (DecryptLocked req) = admitted req"
| "as_alone X view v admitted self (DecryptMissed req) =
     (admitted req \<and> dec_key_id req \<noteq> sealer_key_id (mutex_data (kms_sealer self)))"
| "as_alone X view v admitted self (DecryptLegacyLocked req) =
     (admitted req \<and> dec_key_id req \<noteq> sealer_key_id (mutex_data (kms_sealer self)))"
| "as_alone X view v admitted self (DecryptDone req r) =
     (admitted req \<and> (\<exists>w w'. view w = v \<and> decrypt X req (self, w) = (r, (self, w'))))"
| "as_alone X view v admitted self t = True"

definition kms_inv ::
  "'w tss \<Rightarrow> ('w \<Rightarrow> 'k tpm_view) \<Rightarrow> 'k tpm_view \<Rightarrow> (DecryptRequest \<Rightarrow> bool) \<Rightarrow> KmsService \<Rightarrow> 'w kms_run \<Rightarrow> bool" where
  "kms_inv X view v admitted self s = (kr_service s = self \<and> view (kr_world s) = v \<and>
     list_all (as_alone X view v admitted self) (kr_tasks s))"

section \<open>Every request ends\<close>

lemma with_sealer_keeps:
  "with_sealer body (self, w) = (r, (self', w')) \<Longrightarrow> kms_legacy_sealer self' = kms_legacy_sealer self"
  by (auto simp: with_sealer_def split: if_splits prod.splits outcome.splits)

lemma with_legacy_sealer_keeps:
  "with_legacy_sealer l body (self, w) = (r, (self', w')) \<Longrightarrow> kms_legacy_sealer self = Some l \<Longrightarrow>
   kms_legacy_sealer self' \<noteq> None \<and> kms_sealer self' = kms_sealer self"
  by (auto simp: with_legacy_sealer_def split: if_splits prod.splits outcome.splits)

lemma after_holds [simp]:
  "\<not> holds_sealer (after_preferred req r)" "\<not> holds_legacy (after_preferred req r)"
  "\<not> holds_sealer (after_legacy req r)" "\<not> holds_legacy (after_legacy req r)"
  "kms_task_work (after_preferred req r) < 3" "kms_task_work (after_legacy req r) = 0"
  by (auto simp: after_preferred_def after_legacy_def split: outcome.splits option.splits)

lemma lock_inv_update:
  assumes "lock_inv s" and "i < length (kr_tasks s)" and "kr_tasks s' = (kr_tasks s)[i := t]"
    and "kms_legacy_sealer (kr_service s) \<noteq> None \<Longrightarrow> kms_legacy_sealer (kr_service s') \<noteq> None"
    and "holds_sealer t \<Longrightarrow> \<not> list_ex holds_sealer (kr_tasks s)"
    and "holds_legacy t \<Longrightarrow> \<not> list_ex holds_legacy (kr_tasks s) \<and> kms_legacy_sealer (kr_service s') \<noteq> None"
  shows "lock_inv s'"
  using length_filter_update [OF assms(2), of holds_sealer t] length_filter_update [OF assms(2), of holds_legacy t]
    assms(1,3-6)
  by (auto simp: lock_inv_def list_ex_filter split: if_splits)

lemma lock_inv_step:
  assumes "kms_step X admitted s s'" and "lock_inv s"
  shows "lock_inv s'"
  using assms(1)
proof (cases rule: kms_step.cases)
  case (encrypt_locks i ereq)
  then show ?thesis by (intro lock_inv_update [OF assms(2), where i = i and t = "EncryptLocked ereq"]) simp_all
next
  case (encrypt_ends i ereq er self w)
  then show ?thesis by (intro lock_inv_update [OF assms(2), where i = i and t = "EncryptDone ereq er"]) (auto simp: encrypt_def dest: with_sealer_keeps)
next
  case (decrypt_locks i dreq)
  then show ?thesis by (intro lock_inv_update [OF assms(2), where i = i and t = "DecryptLocked dreq"]) simp_all
next
  case (decrypt_unlocks i dreq dr self w)
  then show ?thesis by (intro lock_inv_update [OF assms(2), where i = i and t = "after_preferred dreq dr"]) (auto dest: with_sealer_keeps)
next
  case (decrypt_refused i dreq)
  then show ?thesis by (intro lock_inv_update [OF assms(2), where i = i and t = "DecryptDone dreq (Err (unknown_key_id dreq))"]) simp_all
next
  case (legacy_locks i dreq legacy)
  then show ?thesis by (intro lock_inv_update [OF assms(2), where i = i and t = "DecryptLegacyLocked dreq"]) simp_all
next
  case (legacy_unlocks i dreq legacy dr self w)
  then show ?thesis by (intro lock_inv_update [OF assms(2), where i = i and t = "after_legacy dreq dr"]) (auto dest: with_legacy_sealer_keeps)
qed (use assms(2) in \<open>auto simp: lock_inv_def list_ex_filter\<close>)

text \<open>A step that is no arrival moves one request on.\<close>

lemma kms_step_moves:
  assumes "kms_step X admitted s s'" and "length (kr_tasks s') = length (kr_tasks s)"
  obtains i t where "i < length (kr_tasks s)" and "kr_tasks s' = (kr_tasks s)[i := t]"
    and "kms_task_work t < kms_task_work (kr_tasks s ! i)"
  using assms
proof (cases rule: kms_step.cases)
  case (decrypt_unlocks i dreq dr self w)
  then show ?thesis by (intro that [of i "after_preferred dreq dr"]) simp_all
next
  case (legacy_unlocks i dreq legacy dr self w)
  then show ?thesis by (intro that [of i "after_legacy dreq dr"]) simp_all
qed (auto intro: that)

lemma kms_step_work:
  assumes "kms_step X admitted s s'" and "length (kr_tasks s') = length (kr_tasks s)"
  shows "kms_work s' < kms_work s"
proof -
  obtain i t where "i < length (kr_tasks s)" "kr_tasks s' = (kr_tasks s)[i := t]"
    "kms_task_work t < kms_task_work (kr_tasks s ! i)"
    by (rule kms_step_moves [OF assms])
  with sum_list_map_update [of i "kr_tasks s" kms_task_work t] show ?thesis by (simp add: kms_work_def)
qed

lemma holder_has_work:
  assumes "list_ex holds_sealer (kr_tasks s)"
  shows "kms_work s \<noteq> 0"
proof -
  have "kms_task_work t \<noteq> 0" if "holds_sealer t" for t using that by (cases t) simp_all
  with assms show ?thesis by (auto simp: kms_work_def list_ex_iff sum_list_eq_0_iff)
qed

lemma kms_progress:
  assumes "lock_inv s" and "kms_work s \<noteq> 0"
  shows "\<exists>s'. kms_step X admitted s s' \<and> length (kr_tasks s') = length (kr_tasks s)"
proof -
  consider (sealer) i where "i < length (kr_tasks s)" "holds_sealer (kr_tasks s ! i)"
    | (legacy) i where "i < length (kr_tasks s)" "holds_legacy (kr_tasks s ! i)"
    | (free) "\<not> list_ex holds_sealer (kr_tasks s)" "\<not> list_ex holds_legacy (kr_tasks s)"
    using list_ex_nth by metis
  then show ?thesis
  proof cases
    case sealer
    show ?thesis
    proof (cases "kr_tasks s ! i")
      case (EncryptLocked req)
      obtain r self w where "encrypt X req (kr_service s, kr_world s) = (r, (self, w))" by (metis surj_pair)
      from kms_step.encrypt_ends [OF sealer(1) EncryptLocked this] show ?thesis by fastforce
    next
      case (DecryptLocked req)
      obtain r self w where "with_sealer (decrypt_with X req) (kr_service s, kr_world s) = (r, (self, w))"
        by (metis surj_pair)
      from kms_step.decrypt_unlocks [OF sealer(1) DecryptLocked this] show ?thesis by fastforce
    qed (use sealer(2) in simp_all)
  next
    case legacy
    then obtain req where t: "kr_tasks s ! i = DecryptLegacyLocked req" by (cases "kr_tasks s ! i") simp_all
    have "list_ex holds_legacy (kr_tasks s)" using legacy by (auto simp: list_ex_length)
    then obtain l where l: "kms_legacy_sealer (kr_service s) = Some l" using assms(1) by (auto simp: lock_inv_def)
    obtain r self w where "with_legacy_sealer l (decrypt_with X req) (kr_service s, kr_world s) = (r, (self, w))"
      by (metis surj_pair)
    from kms_step.legacy_unlocks [OF legacy(1) t l this] show ?thesis by fastforce
  next
    case free
    obtain t where "t \<in> set (kr_tasks s)" and "kms_task_work t \<noteq> 0"
      using assms(2) by (auto simp: kms_work_def sum_list_eq_0_iff)
    then obtain i where i: "i < length (kr_tasks s)" "kms_task_work (kr_tasks s ! i) \<noteq> 0"
      by (auto simp: in_set_conv_nth)
    have n: "\<not> holds_sealer (kr_tasks s ! i)" "\<not> holds_legacy (kr_tasks s ! i)"
      using free i(1) by (auto simp: list_ex_length)
    show ?thesis
    proof (cases "kr_tasks s ! i")
      case (EncryptArrived req)
      from kms_step.encrypt_locks [OF i(1) this free(1)] show ?thesis by fastforce
    next
      case (DecryptArrived req)
      from kms_step.decrypt_locks [OF i(1) this free(1)] show ?thesis by fastforce
    next
      case (DecryptMissed req)
      then show ?thesis
        using kms_step.decrypt_refused [OF i(1) DecryptMissed] kms_step.legacy_locks [OF i(1) DecryptMissed _ free(2)]
        by (cases "kms_legacy_sealer (kr_service s)") fastforce+
    qed (use i(2) n in simp_all)
  qed
qed

section \<open>The sections make up the handlers\<close>

lemma decrypt_hit:
  assumes "mutex_poisoned (kms_sealer self) \<or> dec_key_id req = sealer_key_id (mutex_data (kms_sealer self))"
    and "with_sealer (decrypt_with X req) (self, w) = (dr, (self', w'))"
  shows "\<exists>r. after_preferred req dr = DecryptDone req r \<and> decrypt X req (self, w) = (r, (self', w'))"
  using assms
  by (auto simp: decrypt_def decrypt_with_def with_sealer_def bindR_apply map_err_apply after_preferred_def
      split: if_splits outcome.splits prod.splits)

lemma decrypt_miss:
  assumes "dec_key_id req \<noteq> sealer_key_id (mutex_data (kms_sealer self))" and "\<not> mutex_poisoned (kms_sealer self)"
  shows "with_sealer (decrypt_with X req) (self, w) = (Ok None, (self, w))"
  using assms by (simp add: decrypt_with_def with_sealer_def)

lemma decrypt_miss_legacy:
  assumes "dec_key_id req \<noteq> sealer_key_id (mutex_data (kms_sealer self))" and "\<not> mutex_poisoned (kms_sealer self)"
    and "kms_legacy_sealer self = Some l"
    and "with_legacy_sealer l (decrypt_with X req) (self, w) = (dr, (self', w'))"
  shows "\<exists>r. after_legacy req dr = DecryptDone req r \<and> decrypt X req (self, w) = (r, (self', w'))"
  using assms(3,4) decrypt_miss [OF assms(1,2), of X w]
  by (auto simp: decrypt_def bindR_apply after_legacy_def unknown_key_id_def split: outcome.splits option.splits)

lemma decrypt_miss_none:
  assumes "dec_key_id req \<noteq> sealer_key_id (mutex_data (kms_sealer self))" and "\<not> mutex_poisoned (kms_sealer self)"
    and "kms_legacy_sealer self = None"
  shows "decrypt X req (self, w) = (Err (unknown_key_id req), (self, w))"
  using assms(3) decrypt_miss [OF assms(1,2), of X w]
  by (simp add: decrypt_def bindR_apply unknown_key_id_def)

text \<open>A request that meets no other one is answered as its handler answers it.\<close>

lemma alone_locks:
  assumes "kms_quiet s"
  shows "kms_step X admitted (s\<lparr>kr_tasks := kr_tasks s @ [DecryptArrived dreq]\<rparr>) (s\<lparr>kr_tasks := kr_tasks s @ [DecryptLocked dreq]\<rparr>)"
    and "kms_step X admitted (s\<lparr>kr_tasks := kr_tasks s @ [EncryptArrived ereq]\<rparr>) (s\<lparr>kr_tasks := kr_tasks s @ [EncryptLocked ereq]\<rparr>)"
    and "kms_legacy_sealer (kr_service s) = Some l \<Longrightarrow>
      kms_step X admitted (s\<lparr>kr_tasks := kr_tasks s @ [DecryptMissed dreq]\<rparr>) (s\<lparr>kr_tasks := kr_tasks s @ [DecryptLegacyLocked dreq]\<rparr>)"
  using assms
    kms_step.decrypt_locks [of "length (kr_tasks s)" "s\<lparr>kr_tasks := kr_tasks s @ [DecryptArrived dreq]\<rparr>" dreq X admitted]
    kms_step.encrypt_locks [of "length (kr_tasks s)" "s\<lparr>kr_tasks := kr_tasks s @ [EncryptArrived ereq]\<rparr>" ereq X admitted]
    kms_step.legacy_locks [of "length (kr_tasks s)" "s\<lparr>kr_tasks := kr_tasks s @ [DecryptMissed dreq]\<rparr>" dreq l X admitted]
  by (simp_all add: kms_quiet_def)

lemma decrypt_alone:
  assumes q: "kms_quiet s" and d: "decrypt X req (kr_service s, kr_world s) = (r, (self, w))"
  shows "(kms_step X admitted)\<^sup>*\<^sup>* (s\<lparr>kr_tasks := kr_tasks s @ [DecryptArrived req]\<rparr>)
    (s\<lparr>kr_service := self, kr_world := w, kr_tasks := kr_tasks s @ [DecryptDone req r]\<rparr>)"
proof -
  let ?at = "\<lambda>t. s\<lparr>kr_tasks := kr_tasks s @ [t]\<rparr>" and ?n = "length (kr_tasks s)"
  obtain dr self1 w1 where p: "with_sealer (decrypt_with X req) (kr_service s, kr_world s) = (dr, (self1, w1))"
    by (metis surj_pair)
  have lock: "kms_step X admitted (?at (DecryptArrived req)) (?at (DecryptLocked req))" by (rule alone_locks [OF q])
  have unlock: "kms_step X admitted (?at (DecryptLocked req))
      (s\<lparr>kr_service := self1, kr_world := w1, kr_tasks := kr_tasks s @ [after_preferred req dr]\<rparr>)"
    using kms_step.decrypt_unlocks [of ?n "?at (DecryptLocked req)" req X dr self1 w1 admitted] p by simp
  show ?thesis
  proof (cases "mutex_poisoned (kms_sealer (kr_service s)) \<or>
      dec_key_id req = sealer_key_id (mutex_data (kms_sealer (kr_service s)))")
    case True
    then have "after_preferred req dr = DecryptDone req r \<and> self1 = self \<and> w1 = w"
      using decrypt_hit [OF _ p] d by auto
    with lock unlock show ?thesis by (metis converse_rtranclp_into_rtranclp r_into_rtranclp)
  next
    case False
    then have m: "dec_key_id req \<noteq> sealer_key_id (mutex_data (kms_sealer (kr_service s)))"
      "\<not> mutex_poisoned (kms_sealer (kr_service s))" by auto
    have "(kms_step X admitted)\<^sup>*\<^sup>* (?at (DecryptArrived req)) (?at (DecryptMissed req))"
      using lock unlock p decrypt_miss [OF m, of X "kr_world s"]
      by (auto simp: after_preferred_def intro: converse_rtranclp_into_rtranclp)
    moreover have "(kms_step X admitted)\<^sup>*\<^sup>* (?at (DecryptMissed req))
        (s\<lparr>kr_service := self, kr_world := w, kr_tasks := kr_tasks s @ [DecryptDone req r]\<rparr>)"
    proof (cases "kms_legacy_sealer (kr_service s)")
      case None
      with kms_step.decrypt_refused [of ?n "?at (DecryptMissed req)" req X admitted]
        decrypt_miss_none [OF m None, of X "kr_world s"] d
      show ?thesis by (auto intro: r_into_rtranclp)
    next
      case (Some l)
      obtain dr self2 w2 where lg: "with_legacy_sealer l (decrypt_with X req) (kr_service s, kr_world s) = (dr, (self2, w2))"
        by (metis surj_pair)
      with decrypt_miss_legacy [OF m Some lg] d
      have e: "after_legacy req dr = DecryptDone req r" "self2 = self" "w2 = w" by auto
      from lg Some kms_step.legacy_unlocks [of ?n "?at (DecryptLegacyLocked req)" req l X dr self2 w2 admitted]
        alone_locks(3) [OF q Some, of X admitted req] show ?thesis
        by (auto simp: e intro: converse_rtranclp_into_rtranclp)
    qed
    ultimately show ?thesis by (rule rtranclp_trans)
  qed
qed

lemma encrypt_alone:
  assumes "kms_quiet s" and "encrypt X req (kr_service s, kr_world s) = (r, (self, w))"
  shows "(kms_step X admitted)\<^sup>*\<^sup>* (s\<lparr>kr_tasks := kr_tasks s @ [EncryptArrived req]\<rparr>)
    (s\<lparr>kr_service := self, kr_world := w, kr_tasks := kr_tasks s @ [EncryptDone req r]\<rparr>)"
  using alone_locks(2) [OF assms(1), of X admitted req] assms(2)
    kms_step.encrypt_ends [of "length (kr_tasks s)" "s\<lparr>kr_tasks := kr_tasks s @ [EncryptLocked req]\<rparr>" req X r self w admitted]
  by (simp add: converse_rtranclp_into_rtranclp)

text \<open>The two locks do not exclude each other.\<close>

lemma locks_overlap:
  assumes "kms_legacy_sealer self = Some l" and "\<not> mutex_poisoned (kms_sealer self)"
  shows "\<exists>s. (kms_step X (\<lambda>_. True))\<^sup>*\<^sup>* (kms_start self w) s \<and> list_ex holds_sealer (kr_tasks s) \<and>
    list_ex holds_legacy (kr_tasks s)"
proof -
  let ?d = "\<lparr>dec_ciphertext = [], dec_uid = [], dec_key_id = sealer_key_id (mutex_data (kms_sealer self)) @ ''x'',
      dec_annotations = []\<rparr>"
  let ?e = "\<lparr>enc_plaintext = [], enc_uid = []\<rparr>" and ?s = "kms_start self w"
  let ?at = "\<lambda>ts. \<lparr>kr_service = self, kr_world = w, kr_tasks = ts\<rparr>"
  have q: "kms_quiet ?s" by (simp add: kms_quiet_def kms_start_def)
  have "kms_step X (\<lambda>_. True) ?s (?at [DecryptArrived ?d])"
    using kms_step.decrypt_arrives [of "\<lambda>_. True" ?d X ?s] by (simp add: kms_start_def)
  moreover have "kms_step X (\<lambda>_. True) (?at [DecryptArrived ?d]) (?at [DecryptLocked ?d])"
    using alone_locks(1) [OF q, of X _ ?d] by (simp add: kms_start_def)
  moreover have "kms_step X (\<lambda>_. True) (?at [DecryptLocked ?d]) (?at [DecryptMissed ?d])"
    using kms_step.decrypt_unlocks [of 0 "?at [DecryptLocked ?d]" ?d X "Ok None" self w]
      decrypt_miss [of ?d self X w] assms(2) by (simp add: after_preferred_def)
  moreover have "kms_step X (\<lambda>_. True) (?at [DecryptMissed ?d]) (?at [DecryptLegacyLocked ?d])"
    using alone_locks(3) [OF q, of l X _ ?d] assms(1) by (simp add: kms_start_def)
  moreover have "kms_step X (\<lambda>_. True) (?at [DecryptLegacyLocked ?d]) (?at [DecryptLegacyLocked ?d, EncryptArrived ?e])"
    using kms_step.encrypt_arrives [of X _ "?at [DecryptLegacyLocked ?d]" ?e] by simp
  moreover have "kms_step X (\<lambda>_. True) (?at [DecryptLegacyLocked ?d, EncryptArrived ?e])
      (?at [DecryptLegacyLocked ?d, EncryptLocked ?e])"
    using kms_step.encrypt_locks [of 1 "?at [DecryptLegacyLocked ?d, EncryptArrived ?e]" ?e X] by simp
  ultimately have "(kms_step X (\<lambda>_. True))\<^sup>*\<^sup>* ?s (?at [DecryptLegacyLocked ?d, EncryptLocked ?e])"
    by (meson converse_rtranclp_into_rtranclp rtranclp.rtrancl_refl)
  then show ?thesis by (intro exI [of _ "?at [DecryptLegacyLocked ?d, EncryptLocked ?e]"]) simp
qed

section \<open>Requests do not disturb each other\<close>

lemma kms_inv_update:
  assumes "kms_inv X view v admitted self s" and "kr_tasks s' = (kr_tasks s)[i := t]"
    and "kr_service s' = self" and "view (kr_world s') = v" and "as_alone X view v admitted self t"
  shows "kms_inv X view v admitted self s'"
  using assms by (auto simp: kms_inv_def list_all_iff dest!: set_update_subset_insert [THEN subsetD])

lemma kms_inv_task:
  "kms_inv X view v admitted self s \<Longrightarrow> i < length (kr_tasks s) \<Longrightarrow> as_alone X view v admitted self (kr_tasks s ! i)"
  by (simp add: kms_inv_def list_all_length)

context tpm_device
begin

lemma decrypt_answerable:
  assumes "service_ready X kpub name_of (view w) self" and "answerable X kpub name_of sealed_under (view w) self req"
  shows "\<exists>r w'. decrypt X req (self, w) = (r, (self, w')) \<and> view w' = view w"
proof (cases "\<exists>d. issued_under X kpub name_of sealed_under (view w) (dec_ciphertext req, dec_key_id req, d)")
  case True
  then show ?thesis using decrypt_issued [OF assms(1)] by blast
next
  case False
  with assms(2) decrypt_rejected [of X req _ self w] show ?thesis by (auto simp: answerable_def) blast+
qed

lemma kms_inv_step:
  assumes step: "kms_step X admitted s s'" and inv: "kms_inv X view v admitted self s"
    and ready: "service_ready X kpub name_of v self"
    and adm: "\<And>req. admitted req \<Longrightarrow> answerable X kpub name_of sealed_under v self req"
  shows "kms_inv X view v admitted self s'"
proof -
  have s: "kr_service s = self" "view (kr_world s) = v" using inv by (simp_all add: kms_inv_def)
  have free: "\<not> mutex_poisoned (kms_sealer self)" using ready by (simp add: service_ready_def)
  note upd = kms_inv_update [OF inv]
  from step show ?thesis
  proof (cases rule: kms_step.cases)
    case (encrypt_ends i ereq er self' w)
    from encrypt_ready [of "kr_world s" self ereq] ready s(2)
    obtain w' where "encrypt X ereq (self, kr_world s) = (er, (self, w'))" "view w' = v" "self' = self" "w = w'"
      using encrypt_ends(4) s(1) by (auto split: if_splits)
    with encrypt_ends s show ?thesis by (intro upd [where i = i and t = "EncryptDone ereq er"]) auto
  next
    case (decrypt_unlocks i dreq dr self' w)
    have a: "admitted dreq" using kms_inv_task [OF inv decrypt_unlocks(2)] by (simp add: decrypt_unlocks(3))
    obtain r w' where d: "decrypt X dreq (self, kr_world s) = (r, (self, w'))" "view w' = v"
      using decrypt_answerable [of "kr_world s" self dreq] ready adm [OF a] s(2) by auto
    show ?thesis
    proof (cases "dec_key_id dreq = sealer_key_id (mutex_data (kms_sealer self))")
      case True
      with decrypt_hit [of self dreq X "kr_world s" dr self' w] decrypt_unlocks(4) d s
      have "after_preferred dreq dr = DecryptDone dreq r" "self' = self" "w = w'" by auto
      with decrypt_unlocks s d a show ?thesis by (intro upd [where i = i and t = "DecryptDone dreq r"]) auto
    next
      case False
      with decrypt_miss [OF False free, of X "kr_world s"] decrypt_unlocks(4) s
      have "after_preferred dreq dr = DecryptMissed dreq" "self' = self" "w = kr_world s"
        by (auto simp: after_preferred_def)
      with decrypt_unlocks s a False show ?thesis by (intro upd [where i = i and t = "DecryptMissed dreq"]) auto
    qed
  next
    case (decrypt_refused i dreq)
    with kms_inv_task [OF inv decrypt_refused(2)] decrypt_miss_none [of dreq self X "kr_world s"] free s
    show ?thesis by (intro upd [where i = i and t = "DecryptDone dreq (Err (unknown_key_id dreq))"]) auto
  next
    case (legacy_unlocks i dreq legacy dr self' w)
    have a: "admitted dreq" "dec_key_id dreq \<noteq> sealer_key_id (mutex_data (kms_sealer self))"
      using kms_inv_task [OF inv legacy_unlocks(2)] by (simp_all add: legacy_unlocks(3))
    obtain r w' where d: "decrypt X dreq (self, kr_world s) = (r, (self, w'))" "view w' = v"
      using decrypt_answerable [of "kr_world s" self dreq] ready adm [OF a(1)] s(2) by auto
    with decrypt_miss_legacy [OF a(2) free, of legacy X "kr_world s" dr self' w] legacy_unlocks(4,5) s
    have "after_legacy dreq dr = DecryptDone dreq r" "self' = self" "w = w'" by auto
    with legacy_unlocks s d a show ?thesis by (intro upd [where i = i and t = "DecryptDone dreq r"]) auto
  next
    case (encrypt_locks i ereq)
    with s show ?thesis by (intro upd [where i = i and t = "EncryptLocked ereq"]) auto
  next
    case (decrypt_locks i dreq)
    with kms_inv_task [OF inv decrypt_locks(2)] s show ?thesis
      by (intro upd [where i = i and t = "DecryptLocked dreq"]) auto
  next
    case (legacy_locks i dreq legacy)
    with kms_inv_task [OF inv legacy_locks(2)] s show ?thesis
      by (intro upd [where i = i and t = "DecryptLegacyLocked dreq"]) auto
  qed (use inv in \<open>auto simp: kms_inv_def\<close>)
qed

lemma kms_inv_reachable:
  assumes "(kms_step X admitted)\<^sup>*\<^sup>* (kms_start self w) s" and "service_ready X kpub name_of (view w) self"
    and "\<And>req. admitted req \<Longrightarrow> answerable X kpub name_of sealed_under (view w) self req"
  shows "kms_inv X view (view w) admitted self s"
  using assms(1)
proof (induction rule: rtranclp_induct)
  case base
  show ?case by (simp add: kms_inv_def kms_start_def)
next
  case (step s s')
  then show ?case using kms_inv_step assms(2,3) by blast
qed

end

lemma lock_inv_reachable:
  assumes "(kms_step X admitted)\<^sup>*\<^sup>* (kms_start self w) s"
  shows "lock_inv s"
  using assms
proof (induction rule: rtranclp_induct)
  case base
  show ?case by (simp add: lock_inv_def kms_start_def)
next
  case (step s s')
  then show ?case using lock_inv_step by blast
qed

end
