(* ===== verification/Fleet_Life.thy ===== *)
theory Fleet_Life
  imports App_Spec
begin

text \<open>
  The life of a cluster: one controller runs \<open>genesis\<close>, controllers that hold the
  fleet key admit joiners, a joiner may fail and try again and becomes a seed in turn,
  and nodes serve or restart in between. The relation \<open>fleet_step\<close> runs the
  subcommands of the model; its invariant is that there is only one fleet key.
\<close>

text \<open>The controllers of a cluster, each with the world of its own TPM.\<close>

type_synonym 'w cluster = "nat \<Rightarrow> 'w"

text \<open>The crates that all controllers run.\<close>

record 'w crates =
  cr_tss :: "'w tss"
  cr_pki :: "'w pki"
  cr_kube :: "'w kube"
  cr_dialer :: "'w dialer"

text \<open>
  The steps: the founder runs \<open>genesis\<close>; a controller \<open>i\<close> with the fleet key answers the
  \<open>join\<close> of \<open>j\<close> as \<open>enroll\<close> set it up, and ends with its persistent keys and owner seed as
  they were; a controller serves or restarts.
\<close>

inductive fleet_step ::
  "'w crates \<Rightarrow> ('w \<Rightarrow> 'k tpm_view) \<Rightarrow> string \<Rightarrow> nat \<Rightarrow> 'w cluster \<Rightarrow> 'w cluster \<Rightarrow> bool"
  for C view tcti founder where
  genesis: "run_genesis (cr_tss C) tcti force (s founder) = (Ok (), w) \<Longrightarrow>
     fleet_step C view tcti founder s (s(founder := w))"
| joined: "tcti_from_str (cr_tss C) tcti = Ok tc \<Longrightarrow> i \<noteq> j \<Longrightarrow>
     context_new (cr_tss C) tc (s i) = (Ok c, w1) \<Longrightarrow> load_fleet_key (cr_tss C) c w1 = (Ok h, w2) \<Longrightarrow>
     run_join (cr_tss C) (answered_by (cr_tss C) (cr_pki C) (cr_kube C) certs
       (enroll_service c h client max_requests, w2) (cr_dialer C)) fs seed tcti dir (s j) = (r, w) \<Longrightarrow>
     \<not> is_panic r \<Longrightarrow> same_device (view w2) (view w3) \<Longrightarrow>
     fleet_step C view tcti founder s (s(i := w3, j := w))"
| served: "same_device (view (s i)) (view w) \<Longrightarrow> fleet_step C view tcti founder s (s(i := w))"

definition fleet_inv ::
  "('w \<Rightarrow> 'k tpm_view) \<Rightarrow> 'k \<Rightarrow> (public \<Rightarrow> 'k) \<Rightarrow> nat \<Rightarrow> 'w cluster \<Rightarrow> bool" where
  "fleet_inv view k primary founder s =
     (v_primary (view (s founder)) = primary \<and>
      (\<forall>i. v_nv (view (s i)) FLEET_KEY_PERSISTENT_HANDLE \<in> {None, Some k}))"

lemma fleet_inv_key:
  assumes "fleet_inv view k primary founder s" and "v_nv (view (s i)) FLEET_KEY_PERSISTENT_HANDLE \<noteq> None"
  shows "v_nv (view (s i)) FLEET_KEY_PERSISTENT_HANDLE = Some k"
proof -
  have "v_nv (view (s i)) FLEET_KEY_PERSISTENT_HANDLE \<in> {None, Some k}"
    using assms(1) by (simp add: fleet_inv_def)
  with assms(2) show ?thesis by auto
qed

lemma join_channel_view:
  assumes "\<And>e w. view (snd (endpoint_connect D e w)) = view w"
  shows "view (snd (join_channel D fs addr dir w)) = view w"
  using assms
  by (auto simp: join_channel_def Let_def bindR_apply map_err_apply split: outcome.splits)

context tpm_device
begin

text \<open>What a successful reply of the handler carries, whoever asked.\<close>

lemma duplicate_reply:
  assumes ready: "listener_ready kpub extend_policy (view w) self k"
    and kube: "\<And>client node w. view (snd (kube_get_node K client node w)) = view w"
    and pt: "public_unmarshall X (joiner_transport_public (get_ref request)) = Ok (kpub kt)"
    and ok: "fst (duplicate X P K request (self, w)) = Ok resp"
  shows "delivers X kpub wrapped_for (kpub kt) k resp"
proof -
  obtain sw where d: "duplicate X P K request (self, w) = (Ok resp, sw)"
    using ok by (cases "duplicate X P K request (self, w)") simp
  then obtain s2 w2 where r: "es_remaining self \<noteq> 0"
    and h: "handle_duplicate X P K request (self\<lparr>es_remaining := es_remaining self - 1\<rparr>, w) = (Ok resp, (s2, w2))"
    by (auto elim: duplicate_OkE)
  obtain node w1 where n: "peer_node_name P request = Ok node"
    "kube_get_node K (es_kube_client self) node w = (Ok (), w1)"
    using handle_duplicate_Ok [OF h] by auto
  have "view w1 = view w" using kube [of "es_kube_client self" node w] by (simp add: n)
  from duplicate_ok [OF ready r n this pt] d show ?thesis by auto
qed

lemma join_outcome:
  assumes tcti: "tcti_from_str X tcti = Ok tc" "reachable tc"
    and seed: "listener_ready kpub extend_policy (view ws) self k"
    and kube: "\<And>client node w. view (snd (kube_get_node K client node w)) = view w"
    and connect: "\<And>e w. view (snd (endpoint_connect D e w)) = view w"
    and run: "run_join X (answered_by X P K certs (self, ws) D) fs addr tcti dir wj = (r, w')"
      "\<not> is_panic r"
  shows "v_nv (view w') = (if is_ok r then (v_nv (view wj))(FLEET_KEY_PERSISTENT_HANDLE := Some k)
      else v_nv (view wj)) \<and> v_primary (view w') = v_primary (view wj)"
proof -
  let ?kt = "fleet_primary extend_policy (view wj)"
  obtain c w1 where c: "context_new X tc wj = (Ok c, w1)" "idle (view w1) c" "v_nv (view w1) = v_nv (view wj)"
    "v_primary (view w1) = v_primary (view wj)"
    using context_new_idle [OF tcti(2)] by metis
  obtain h w2 where h: "create_transport_key X c w1 = (Ok (h, kpub ?kt), w2)"
    "view w2 = put_tr c (object_of_key h) (Some (TransientKey ?kt)) (view w1)"
    using create_transport_key_ok [OF c(2) refl] c(4) by (auto simp: runs_ok_iff)
  obtain b where b: "public_marshall X (kpub ?kt) = Ok b" using key_marshalls by blast
  then have u: "public_unmarshall X b = Ok (kpub ?kt)" by (rule unmarshall_marshall)
  obtain rc w3 where ch: "join_channel D fs addr dir w2 = (rc, w3)" by fastforce
  have v3: "view w3 = view w2" using join_channel_view [OF connect, of fs addr dir w2] by (simp add: ch)
  note defs = run_join_def bindR_apply map_err_apply join_marshall_def answered_by_fields tcti c(1) h(1) b ch
  show ?thesis
  proof (cases rc)
    case (Ok chan)
    let ?req = "\<lparr>peer_certs = certs, get_ref = \<lparr>joiner_transport_public = b\<rparr>\<rparr>"
    show ?thesis
    proof (cases "fst (duplicate X P K ?req (self, ws))")
      case (Ok resp)
      have "delivers X kpub wrapped_for (kpub ?kt) k resp"
        by (rule duplicate_reply [OF seed kube _ Ok]) (simp add: u)
      then obtain blob d where blob: "blob_of_response X resp = Ok blob" "fleet_key_public blob = kpub k"
        "blob_encryption_key blob = Some d"
        "wrapped_for (kpub ?kt) k d (duplicate_private blob) (blob_encrypted_secret blob)"
        by (auto simp: delivers_def)
      have "idle (view w3) c" "v_tr (view w3) c (object_of_key h) = Some (TransientKey ?kt)"
        using c(2) by (simp_all add: v3 h view_simps)
      from import_and_persist_ok [OF this blob(2-4)] obtain h' w4 where
        "import_and_persist X c h blob w3 = (Ok h', w4)"
        "v_nv (view w4) = (v_nv (view w3))(FLEET_KEY_PERSISTENT_HANDLE := Some k)"
        "v_primary (view w4) = v_primary (view w3)"
        by (auto simp: runs_ok_iff)
      with run(1) \<open>rc = Ok chan\<close> Ok blob(1) c(3,4) v3 h(2) show ?thesis by (simp add: defs view_simps) auto
    qed (use run \<open>rc = Ok chan\<close> c(3,4) v3 h(2) in \<open>auto simp: defs view_simps\<close>)
  qed (use run c(3,4) v3 h(2) in \<open>auto simp: defs view_simps\<close>)
qed

lemma fleet_inv_step:
  assumes step: "fleet_step C view tcti founder s s'" and X: "cr_tss C = X"
    and tc: "tcti_from_str X tcti = Ok tc" "reachable tc"
    and kube: "\<And>client node w. view (snd (kube_get_node (cr_kube C) client node w)) = view w"
    and connect: "\<And>e w. view (snd (endpoint_connect (cr_dialer C) e w)) = view w"
    and inv: "fleet_inv view k primary founder s"
    and k: "k = primary (fleet_template (extend_policy [] CommandDuplicate))"
  shows "fleet_inv view k primary founder s'"
  using step
proof (cases rule: fleet_step.cases)
  case (genesis force w)
  show ?thesis
  proof (cases "force \<or> v_nv (view (s founder)) FLEET_KEY_PERSISTENT_HANDLE = None")
    case True
    with run_genesis_new_ok [OF tc True] genesis inv show ?thesis
      by (auto simp: X runs_ok_iff fleet_inv_def k)
  next
    case False
    then obtain k' where k': "v_nv (view (s founder)) FLEET_KEY_PERSISTENT_HANDLE = Some k'" by auto
    with run_genesis_existing_ok [OF tc k'] fleet_inv_key [OF inv, of founder] genesis inv False show ?thesis
      by (auto simp: X runs_ok_iff fleet_inv_def)
  qed
next
  case (joined tc' i j c w1 h w2 certs client max_requests fs seed dir r w w3)
  have tc': "tc' = tc" using joined(2) tc(1) by (simp add: X)
  have fk: "fleet_key kpub extend_policy k"
    using fleet_template_key [of "s founder"] inv by (simp add: fleet_inv_def k)
  have c: "context_new X tc (s i) = (Ok c, w1)" and l: "load_fleet_key X c w1 = (Ok h, w2)"
    using joined(4,5) by (simp_all add: X tc')
  then have i: "idle (view w1) c" "v_nv (view w1) = v_nv (view (s i))"
    using context_new_idle [OF tc(2), of "s i"] by (metis Pair_inject outcome.inject(1))+
  have "v_nv (view (s i)) FLEET_KEY_PERSISTENT_HANDLE \<noteq> None"
    using load_fleet_key_absent [OF i(1)] l i(2) by (auto simp: runs_err_iff)
  with inv have "v_nv (view (s i)) FLEET_KEY_PERSISTENT_HANDLE = Some k" by (rule fleet_inv_key)
  from enroll_service_ready [OF tc(2) this fk] c l
  have ready: "listener_ready kpub extend_policy (view w2) (enroll_service c h client max_requests) k"
    and w2: "same_device (view (s i)) (view w2)"
    unfolding same_device_def by (metis Pair_inject outcome.inject(1))+
  have w: "v_nv (view w) FLEET_KEY_PERSISTENT_HANDLE \<in> {None, Some k} \<and> v_primary (view w) = v_primary (view (s j))"
    using join_outcome [OF tc ready kube connect joined(6,7) [unfolded X]] inv
    by (auto simp: fleet_inv_def split: if_splits)
  show ?thesis using inv w w2 joined(1,3,8) by (auto simp: fleet_inv_def same_device_def)
next
  case (served i w)
  with inv show ?thesis by (auto simp: fleet_inv_def same_device_def)
qed

lemma fleet_inv_reachable:
  assumes "(fleet_step C view tcti founder)\<^sup>*\<^sup>* s s'" and "cr_tss C = X"
    and "tcti_from_str X tcti = Ok tc" "reachable tc"
    and "\<And>client node w. view (snd (kube_get_node (cr_kube C) client node w)) = view w"
    and "\<And>e w. view (snd (endpoint_connect (cr_dialer C) e w)) = view w"
    and "\<And>i. v_nv (view (s i)) FLEET_KEY_PERSISTENT_HANDLE = None"
  shows "fleet_inv view (fleet_primary extend_policy (view (s founder))) (v_primary (view (s founder))) founder s'"
  using assms(1)
proof (induction rule: rtranclp_induct)
  case base
  then show ?case using assms(7) by (simp add: fleet_inv_def)
next
  case (step s1 s2)
  then show ?case by (intro fleet_inv_step [OF step.hyps(2) assms(2-6)]) simp_all
qed

text \<open>A founder and one joiner, as a run of the cluster.\<close>

lemma fleet_of_two:
  assumes "tcti_from_str X tcti = Ok tc" "reachable tc"
    and "v_nv (view (s founder)) FLEET_KEY_PERSISTENT_HANDLE = None" and "j \<noteq> founder"
    and "\<And>w. kube_get_node K client node w = (Ok (), w)"
    and "\<And>req. peer_node_name P \<lparr>peer_certs = certs, get_ref = req\<rparr> = Ok node"
    and "\<And>w. join_channel D fs addr dir w = (Ok ch, w)"
    and C: "C = \<lparr>cr_tss = X, cr_pki = P, cr_kube = K, cr_dialer = D\<rparr>"
  shows "\<exists>s'. (fleet_step C view tcti founder)\<^sup>*\<^sup>* s s' \<and>
    v_nv (view (s' founder)) FLEET_KEY_PERSISTENT_HANDLE \<noteq> None \<and>
    v_nv (view (s' j)) FLEET_KEY_PERSISTENT_HANDLE \<noteq> None"
proof -
  obtain ws1 c ws2 h ws3 wj1 where r: "run_genesis X tcti False (s founder) = (Ok (), ws1)"
    "context_new X tc ws1 = (Ok c, ws2)" "load_fleet_key X c ws2 = (Ok h, ws3)"
    "run_join X (answered_by X P K certs (enroll_service c h client 1, ws3) D) fs addr tcti dir (s j) = (Ok (), wj1)"
    "v_nv (view ws3) FLEET_KEY_PERSISTENT_HANDLE \<noteq> None" "v_nv (view wj1) FLEET_KEY_PERSISTENT_HANDLE \<noteq> None"
    using genesis_enroll_join_keys [OF assms(1,2) disjI2 [OF assms(3)] one_neq_zero assms(5,6,7), where wj = "s j"]
    by (metis option.distinct(1))
  let ?s1 = "s(founder := ws1)"
  have "fleet_step C view tcti founder s ?s1" by (rule fleet_step.genesis [where force = False]) (simp add: C r)
  moreover have "fleet_step C view tcti founder ?s1 (?s1(founder := ws3, j := wj1))"
    by (rule fleet_step.joined [where tc = tc and c = c and h = h and client = client and certs = certs
          and max_requests = 1 and fs = fs and seed = addr and dir = dir and r = "Ok ()" and ?w1.0 = ws2 and ?w2.0 = ws3])
      (use assms(1,4) r in \<open>simp_all add: C same_device_def\<close>)
  ultimately have "(fleet_step C view tcti founder)\<^sup>*\<^sup>* s (?s1(founder := ws3, j := wj1))"
    by (meson converse_rtranclp_into_rtranclp r_into_rtranclp)
  with r(5,6) assms(4) show ?thesis by (intro exI [of _ "?s1(founder := ws3, j := wj1)"]) simp
qed

end

end
