(* ===== verification/Life_Properties.thy ===== *)
theory Life_Properties
  imports Sealer_Properties Fleet_Properties Fault_Spec Kms_Run Fleet_Life
begin

text \<open>
  The properties of whole histories, of one node and of a cluster, of concurrent
  requests to one service, and of the error paths on a TPM with one failing command,
  each with an evaluation on the software TPM.
\<close>

section \<open>Inputs for the evaluations\<close>

definition enrolled_node :: soft where
  "enrolled_node = (soft_new [1])\<lparr>sw_nv := [(FLEET_KEY_PERSISTENT_HANDLE, fleet_skey [2])]\<rparr>"

definition soft_crates :: "soft crates" where
  "soft_crates = \<lparr>cr_tss = soft_tss, cr_pki = soft_pki, cr_kube = soft_kube [''edge-2''], cr_dialer = soft_dialer\<rparr>"

lemma enrolled_node_key_ids:
  "key_id_of_name soft_tss (soft_name (soft_public (fleet_skey [2]))) \<noteq>
   key_id_of_name soft_tss (soft_name (soft_public (srk_skey [1])))"
  by (simp add: key_id_of_name_def soft_tss_def soft_name_def soft_public_def fleet_skey_def srk_skey_def
      soft_primary_def soft_digest_def soft_new_def fleet_template_def srk_template_def soft_hex_def hex_digit_def)

lemma enrolled_node_view:
  "v_nv (soft_view (soft_new [1])) FLEET_KEY_PERSISTENT_HANDLE = None"
  "v_nv (soft_view enrolled_node) FLEET_KEY_PERSISTENT_HANDLE = Some (fleet_skey [2])"
  "v_primary (soft_view enrolled_node) = v_primary (soft_view (soft_new [1]))"
  "v_primary (soft_view (soft_new [1])) srk_template = srk_skey [1]"
  by (simp_all add: enrolled_node_def soft_new_def soft_view_def srk_skey_def soft_primary_def fun_eq_iff)



text \<open>A service with both sealers.\<close>

lemma sample_service_ready:
  "\<exists>ss w. serve_sealers soft_tss (TctiNameConf ''swtpm'') False enrolled_node = (Ok ss, w) \<and>
     service_ready soft_tss soft_public soft_name (soft_view w) (serve_service ss) \<and>
     (\<exists>l. kms_legacy_sealer (serve_service ss) = Some l)"
proof -
  have "key_id_of_name soft_tss (soft_name (soft_public (fleet_skey [2]))) \<noteq>
      key_id_of_name soft_tss (soft_name (soft_public (v_primary (soft_view enrolled_node) srk_template)))"
    using enrolled_node_key_ids unfolding enrolled_node_view .
  then obtain ss w where s: "serve_sealers soft_tss (TctiNameConf ''swtpm'') False enrolled_node = (Ok ss, w)"
    "same_device (soft_view enrolled_node) (soft_view w)"
    "service_ready soft_tss soft_public soft_name (soft_view w) (serve_service ss)"
    using tpm_device.serve_sealers_ready [OF soft_device.tpm_device_axioms, of "TctiNameConf ''swtpm''" enrolled_node]
      enrolled_node_view(2) by (auto simp: soft_reachable_def)
  moreover have "v_nv (soft_view w) FLEET_KEY_PERSISTENT_HANDLE = Some (fleet_skey [2])"
    using s(2) enrolled_node_view(2) by (simp add: same_device_def)
  ultimately show ?thesis by (auto simp: service_ready_def)
qed

section \<open>The life of one node\<close>



section \<open>The life of a cluster\<close>

text \<open>
  C2. A cluster has one fleet key. After any history of \<open>genesis\<close>, with or without
  \<open>--force\<close>, on one controller, of joins to whichever controllers hold the key, successful or not,
  and of serving and restarts, every two controllers that hold a fleet key decrypt
  each other's ciphertexts.
\<close>

theorem fleet_members_agree:
  assumes "tpm_device (cr_tss C) view kpub name_of sealed_under wrapped_for imported_under extend_policy reachable"
    and "tcti_from_str (cr_tss C) tcti = Ok tc" and "reachable tc"
    and "\<forall>client node w. view (snd (kube_get_node (cr_kube C) client node w)) = view w"
    and "\<forall>e w. view (snd (endpoint_connect (cr_dialer C) e w)) = view w"
    and "\<forall>i. v_nv (view (s i)) FLEET_KEY_PERSISTENT_HANDLE = None"
    and "(fleet_step C view tcti founder)\<^sup>*\<^sup>* s s'"
    and "v_nv (view (s' i)) FLEET_KEY_PERSISTENT_HANDLE \<noteq> None"
    and "v_nv (view (s' j)) FLEET_KEY_PERSISTENT_HANDLE \<noteq> None"
  shows "interoperates (cr_tss C) tc (s' i) (s' j)"
proof -
  have "fleet_inv view (v_primary (view (s founder)) (fleet_template (extend_policy [] CommandDuplicate)))
      (v_primary (view (s founder))) founder s'"
    by (rule tpm_device.fleet_inv_reachable [OF assms(1,7) refl assms(2,3)]) (use assms(4-6) in auto)
  from fleet_inv_key [OF this assms(8)] fleet_inv_key [OF this assms(9)] show ?thesis
    by (rule tpm_device.same_fleet_key_interoperates [OF assms(1,3)])
qed

theorem fleet_members_agree_witness:
  "\<exists>s'. (fleet_step soft_crates soft_view ''swtpm'' 0)\<^sup>*\<^sup>* (\<lambda>i. soft_new [of_nat i]) s' \<and>
     interoperates soft_tss (TctiNameConf ''swtpm'') (s' 0) (s' 1)"
proof -
  let ?s = "\<lambda>i. soft_new [of_nat i]"
  have "\<exists>s'. (fleet_step soft_crates soft_view ''swtpm'' 0)\<^sup>*\<^sup>* ?s s' \<and>
    v_nv (soft_view (s' 0)) FLEET_KEY_PERSISTENT_HANDLE \<noteq> None \<and>
    v_nv (soft_view (s' 1)) FLEET_KEY_PERSISTENT_HANDLE \<noteq> None"
    by (rule tpm_device.fleet_of_two [OF soft_device.tpm_device_axioms, where tc = "TctiNameConf ''swtpm''"
          and K = "soft_kube [''edge-2'']" and client = "KubeClient 0" and node = "''edge-2''" and P = soft_pki
          and certs = "Some [node_cert]" and D = soft_dialer and fs = soft_fs and addr = "''seed:7443''"
          and dir = "''/k0s''" and ch = "Channel ''https://seed:7443''"])
      (simp_all add: soft_reachable_def soft_new_def soft_kube_def soft_join_channel soft_crates_def
        peer_node_name_Ok_iff NODE_IDENTITY_PREFIX_def soft_peer)
  then obtain s' where s': "(fleet_step soft_crates soft_view ''swtpm'' 0)\<^sup>*\<^sup>* ?s s'"
    "v_nv (soft_view (s' 0)) FLEET_KEY_PERSISTENT_HANDLE \<noteq> None"
    "v_nv (soft_view (s' 1)) FLEET_KEY_PERSISTENT_HANDLE \<noteq> None" by blast
  have f: "cr_tss soft_crates = soft_tss" "cr_kube soft_crates = soft_kube [''edge-2'']" "cr_dialer soft_crates = soft_dialer"
    by (simp_all add: soft_crates_def)
  have "interoperates (cr_tss soft_crates) (TctiNameConf ''swtpm'') (s' 0) (s' 1)"
    by (rule fleet_members_agree [OF soft_device.tpm_device_axioms [folded f(1)] _ _ _ _ _ s'(1,2,3)])
      (auto simp: f soft_reachable_def soft_new_def soft_kube_def soft_dialer_def split: endpoint.splits)
  with s'(1) show ?thesis by (auto simp: f)
qed

section \<open>Concurrent requests to one service\<close>

text \<open>
  C3. Requests of the API server run concurrently. Under every interleaving of their
  sections, the service and the TPM stay as they are, every finished \<open>Encrypt\<close> and
  \<open>Decrypt\<close> has an answer that its handler gives when it runs alone on the device, and
  a \<open>Decrypt\<close> of a ciphertext under one of the two keys gets its plaintext. The
  \<open>Decrypt\<close> requests that arrive are such ciphertexts, malformed ones, or unknown
  key_ids.
\<close>

theorem concurrent_requests_answered_as_alone:
  assumes "tpm_device X view kpub name_of sealed_under wrapped_for imported_under extend_policy reachable"
    and "service_ready X kpub name_of (view w) self"
    and "\<forall>req. admitted req \<longrightarrow> answerable X kpub name_of sealed_under (view w) self req"
    and "(kms_step X admitted)\<^sup>*\<^sup>* (kms_start self w) s"
  shows "kr_service s = self \<and> view (kr_world s) = view w \<and>
    (\<forall>req r. EncryptDone req r \<in> set (kr_tasks s) \<longrightarrow>
       (\<exists>w1 w2. view w1 = view w \<and> encrypt X req (self, w1) = (r, (self, w2)))) \<and>
    (\<forall>req r. DecryptDone req r \<in> set (kr_tasks s) \<longrightarrow>
       (\<exists>w1 w2. view w1 = view w \<and> decrypt X req (self, w1) = (r, (self, w2)))) \<and>
    (\<forall>req r d. DecryptDone req r \<in> set (kr_tasks s) \<longrightarrow>
       issued_under X kpub name_of sealed_under (view w) (dec_ciphertext req, dec_key_id req, d) \<longrightarrow>
       r = Ok \<lparr>dec_plaintext = d\<rparr>)"
proof -
  have inv: "kms_inv X view (view w) admitted self s"
    using tpm_device.kms_inv_reachable [OF assms(1,4,2)] assms(3) by blast
  then have t: "\<And>t. t \<in> set (kr_tasks s) \<Longrightarrow> as_alone X view (view w) admitted self t"
    by (simp add: kms_inv_def list_all_iff)
  have "r = Ok \<lparr>dec_plaintext = d\<rparr>" if d: "DecryptDone req r \<in> set (kr_tasks s)"
    and i: "issued_under X kpub name_of sealed_under (view w) (dec_ciphertext req, dec_key_id req, d)" for req r d
  proof -
    obtain w1 w2 where "view w1 = view w" "decrypt X req (self, w1) = (r, (self, w2))" using t [OF d] by auto
    with tpm_device.decrypt_issued [OF assms(1), of w1 self req d] i assms(2) show ?thesis by auto
  qed
  with inv t show ?thesis by (fastforce simp: kms_inv_def)
qed

theorem concurrent_requests_answered_as_alone_witness:
  "\<exists>self w s r w1 w2. (kms_step soft_tss (answerable soft_tss soft_public soft_name soft_sealed_under (soft_view w) self))\<^sup>*\<^sup>*
      (kms_start self w) s \<and> EncryptDone \<lparr>enc_plaintext = [1], enc_uid = []\<rparr> r \<in> set (kr_tasks s) \<and> kr_service s = self \<and>
     encrypt soft_tss \<lparr>enc_plaintext = [1], enc_uid = []\<rparr> (self, w1) = (r, (self, w2))"
proof -
  let ?req = "\<lparr>enc_plaintext = [1], enc_uid = []\<rparr>"
  obtain self w where r: "service_ready soft_tss soft_public soft_name (soft_view w) self"
    using sample_service_ready by blast
  let ?adm = "answerable soft_tss soft_public soft_name soft_sealed_under (soft_view w) self"
  obtain er self1 w1 where e: "encrypt soft_tss ?req (self, w) = (er, (self1, w1))" by (metis surj_pair)
  let ?s = "\<lparr>kr_service = self1, kr_world = w1, kr_tasks = [EncryptDone ?req er]\<rparr>"
  have "kms_step soft_tss ?adm (kms_start self w) ((kms_start self w)\<lparr>kr_tasks := [EncryptArrived ?req]\<rparr>)"
    using kms_step.encrypt_arrives [of soft_tss ?adm "kms_start self w" ?req] by (simp add: kms_start_def)
  moreover have "(kms_step soft_tss ?adm)\<^sup>*\<^sup>* ((kms_start self w)\<lparr>kr_tasks := [EncryptArrived ?req]\<rparr>) ?s"
    using encrypt_alone [of "kms_start self w" soft_tss ?req er self1 w1 ?adm] e by (simp add: kms_start_def kms_quiet_def)
  ultimately have s: "(kms_step soft_tss ?adm)\<^sup>*\<^sup>* (kms_start self w) ?s" by (rule converse_rtranclp_into_rtranclp)
  have "kr_service ?s = self \<and> (\<exists>w1 w2. encrypt soft_tss ?req (self, w1) = (er, (self, w2)))"
    using concurrent_requests_answered_as_alone [OF soft_device.tpm_device_axioms r _ s] by simp blast
  with s show ?thesis by fastforce
qed

text \<open>
  C13. The locks: under every interleaving at most one request is in a section of each
  sealer; a state with unanswered requests is never stuck; and without new arrivals
  every run ends.
\<close>

theorem requests_exclude_and_never_block:
  assumes "(kms_step X admitted)\<^sup>*\<^sup>* (kms_start self w) s"
  shows "length (filter holds_sealer (kr_tasks s)) \<le> 1 \<and> length (filter holds_legacy (kr_tasks s)) \<le> 1 \<and>
    (kms_work s \<noteq> 0 \<longrightarrow> (\<exists>s'. kms_step X admitted s s' \<and> length (kr_tasks s') = length (kr_tasks s))) \<and>
    wfp (\<lambda>s' s. kms_step X admitted s s' \<and> length (kr_tasks s') = length (kr_tasks s))"
proof -
  have inv: "lock_inv s" by (rule lock_inv_reachable [OF assms])
  have "wfp (\<lambda>s' s. kms_step X admitted s s' \<and> length (kr_tasks s') = length (kr_tasks s))"
    by (rule wfp_if_convertible_to_nat [of _ kms_work]) (auto intro: kms_step_work)
  with inv kms_progress [OF inv, of X admitted] show ?thesis by (simp add: lock_inv_def)
qed

theorem requests_exclude_and_never_block_witness:
  "\<exists>s. (kms_step soft_tss (\<lambda>_. True))\<^sup>*\<^sup>* (kms_start (with_legacy_fallback (sample_sealer ''a'') (sample_sealer ''b'')) (soft_new [1])) s \<and>
     list_ex holds_sealer (kr_tasks s) \<and> (\<exists>s'. kms_step soft_tss (\<lambda>_. True) s s' \<and> length (kr_tasks s') = length (kr_tasks s))"
proof -
  let ?self = "with_legacy_fallback (sample_sealer ''a'') (sample_sealer ''b'')"
  obtain s where s: "(kms_step soft_tss (\<lambda>_. True))\<^sup>*\<^sup>* (kms_start ?self (soft_new [1])) s" "list_ex holds_sealer (kr_tasks s)"
    using locks_overlap [of ?self _ soft_tss "soft_new [1]"] by (auto simp: with_legacy_fallback_def mutex_new_def)
  have "kms_work s \<noteq> 0" by (rule holder_has_work [OF s(2)])
  with requests_exclude_and_never_block [OF s(1)] s show ?thesis by blast
qed

text \<open>
  C14. The sections of a handler, run without another request in between, are the
  handler: whatever \<open>decrypt\<close> or \<open>encrypt\<close> does, errors, panics and poisoned locks
  included, a request that arrives when no lock is held does in the interleaved
  system.
\<close>

theorem handlers_refine_lock_sections:
  assumes "kms_quiet s"
  shows "(decrypt X dreq (kr_service s, kr_world s) = (dr, (self1, w1)) \<longrightarrow>
      (kms_step X admitted)\<^sup>*\<^sup>* (s\<lparr>kr_tasks := kr_tasks s @ [DecryptArrived dreq]\<rparr>)
        (s\<lparr>kr_service := self1, kr_world := w1, kr_tasks := kr_tasks s @ [DecryptDone dreq dr]\<rparr>)) \<and>
    (encrypt X ereq (kr_service s, kr_world s) = (er, (self2, w2)) \<longrightarrow>
      (kms_step X admitted)\<^sup>*\<^sup>* (s\<lparr>kr_tasks := kr_tasks s @ [EncryptArrived ereq]\<rparr>)
        (s\<lparr>kr_service := self2, kr_world := w2, kr_tasks := kr_tasks s @ [EncryptDone ereq er]\<rparr>))"
  using decrypt_alone [OF assms] encrypt_alone [OF assms] by blast

theorem handlers_refine_lock_sections_witness:
  "\<exists>self' s p. (kms_step unmarshallable_tss (\<lambda>_. False))\<^sup>*\<^sup>*
     ((kms_start (KmsService_new (sample_sealer ''k'')) (soft_new [1]))\<lparr>kr_tasks := [EncryptArrived \<lparr>enc_plaintext = [1], enc_uid = []\<rparr>]\<rparr>) s \<and>
     kr_service s = self' \<and> EncryptDone \<lparr>enc_plaintext = [1], enc_uid = []\<rparr> (Panic p) \<in> set (kr_tasks s)"
proof -
  let ?s = "kms_start (KmsService_new (sample_sealer ''k'')) (soft_new [1])" and ?req = "\<lparr>enc_plaintext = [1], enc_uid = []\<rparr>"
  obtain p self' where e: "encrypt unmarshallable_tss ?req (kr_service ?s, kr_world ?s) = (Panic p, (self', soft_new [1]))"
    using unmarshallable_encrypt_panics by (auto simp: kms_start_def)
  have "kms_quiet ?s" by (simp add: kms_quiet_def kms_start_def)
  from handlers_refine_lock_sections [OF this, THEN conjunct2, THEN mp, OF e, of "\<lambda>_. False"]
  show ?thesis by (fastforce simp: kms_start_def)
qed



section \<open>One failing command\<close>

text \<open>
  C23. A \<open>Decrypt\<close> during which the TPM fails to unseal is answered with an internal
  error and leaves the loaded object on the TPM: \<open>unseal\<close> returns early, before its
  flush. After \<open>n\<close> such requests, \<open>n\<close> further objects occupy the context that the
  service keeps open.
\<close>

theorem failing_unseals_fill_the_tpm:
  assumes "tpm_device X view kpub name_of sealed_under wrapped_for imported_under extend_policy reachable"
    and "\<not> mutex_poisoned (kms_sealer self)" and "mutex_data (kms_sealer self) = s"
    and "sealer_ready X kpub name_of (view w) s k" and "dec_key_id req = sealer_key_id s"
    and "sealed_envelope X sealed_under k (dec_ciphertext req) d"
  shows "(\<exists>w'. decrypt (unseal_failing e X) req (self, w) =
      (Err (kms_internal (''TPM error: '' @ tss_display X e)), (self, w'))) \<and>
    (\<exists>hs w'. ((\<lambda>sw. snd (decrypt (unseal_failing e X) req sw)) ^^ n) (self, w) = (self, w') \<and>
      length hs = n \<and> distinct hs \<and>
      (\<forall>h \<in> set hs. v_tr (view w') (sealer_context s) h = Some (SealedObject d)))"
  using tpm_device.failing_decrypts_accumulate [OF assms, where e = e and n = n] tpm_device.failing_decrypt_leaks [OF assms, where e = e]
  by blast

theorem failing_unseals_fill_the_tpm_witness:
  "\<exists>(self :: KmsService) (req :: DecryptRequest) w c hs w'.
     ((\<lambda>sw. snd (decrypt (unseal_failing (soft_error ''rc'') soft_tss) req sw)) ^^ 3) (self, w) = (self, w') \<and>
     length hs = 3 \<and> distinct hs \<and> (\<forall>h \<in> set hs. v_tr (soft_view w') c h = Some (SealedObject [1, 2, 3]))"
proof -
  let ?k = "soft_primary (soft_new [1]) srk_template"
  obtain s w where s: "sealer_ready soft_tss soft_public soft_name (soft_view w) s ?k"
    using soft_sealer_ready by blast
  obtain ct w1 where ct: "soft_view w1 = soft_view w" "sealed_envelope soft_tss soft_sealed_under ?k ct [1, 2, 3]"
    using soft_device.seal_ok [OF s, of "[1, 2, 3]"] by (auto simp: runs_ok_iff MAX_SEAL_DATA_def)
  let ?req = "\<lparr>dec_ciphertext = ct, dec_uid = [], dec_key_id = sealer_key_id s, dec_annotations = []\<rparr>"
  from failing_unseals_fill_the_tpm [OF soft_device.tpm_device_axioms, where self = "KmsService_new s" and s = s
      and w = w and k = ?k and req = ?req and d = "[1, 2, 3]" and e = "soft_error ''rc''" and n = 3] s ct(2)
  have "\<exists>hs w'. ((\<lambda>sw. snd (decrypt (unseal_failing (soft_error ''rc'') soft_tss) ?req sw)) ^^ 3) (KmsService_new s, w) =
      (KmsService_new s, w') \<and> length hs = 3 \<and> distinct hs \<and>
      (\<forall>h \<in> set hs. v_tr (soft_view w') (sealer_context s) h = Some (SealedObject [1, 2, 3]))"
    by (simp add: KmsService_new_def mutex_new_def)
  then show ?thesis by blast
qed

text \<open>
  C22. The order of \<open>import_and_persist\<close>: the fleet key that was there is deleted
  before the imported one is made persistent. If the TPM then refuses to make it
  persistent, the import fails and the node has no fleet key any more.
\<close>

theorem failed_import_loses_the_old_key:
  assumes "tpm_device X view kpub name_of sealed_under wrapped_for imported_under extend_policy reachable"
    and "idle (view w) c" and "v_tr (view w) c (object_of_key transport) = Some (TransientKey kt)"
    and "fleet_key_public blob = kpub k" and "blob_encryption_key blob = Some d"
    and "wrapped_for (kpub kt) k d (duplicate_private blob) (blob_encrypted_secret blob)"
  shows "\<exists>w'. import_and_persist (persist_failing view e X) c transport blob w = (Err (FleetTss e), w') \<and>
    v_nv (view w') = (v_nv (view w))(FLEET_KEY_PERSISTENT_HANDLE := None)"
  using tpm_device.import_persist_failing [OF assms, of e] by (auto simp: runs_err_iff)

theorem failed_import_loses_the_old_key_witness:
  "\<exists>w'. import_and_persist (persist_failing soft_view (soft_error ''full'') soft_tss) 1 (KeyHandle 5) sample_blob
      (device_with [2] (fleet_skey [2]) [(FLEET_KEY_PERSISTENT_HANDLE, fleet_skey [3])]) =
        (Err (FleetTss (soft_error ''full'')), w') \<and>
    v_nv (soft_view w') FLEET_KEY_PERSISTENT_HANDLE = None"
proof -
  let ?w = "device_with [2] (fleet_skey [2]) [(FLEET_KEY_PERSISTENT_HANDLE, fleet_skey [3])]"
  have "v_tr (soft_view ?w) 1 (object_of_key (KeyHandle 5)) = Some (TransientKey (fleet_skey [2]))"
    by (simp add: device_with_def soft_new_def)
  from failed_import_loses_the_old_key [OF soft_device.tpm_device_axioms device_with_idle this,
      where blob = sample_blob and k = "fleet_skey [1]" and d = "Data []" and e = "soft_error ''full''"]
  show ?thesis by (auto simp: sample_blob_def soft_wrapped_for_def)
qed

text \<open>
  C25. \<open>genesis\<close> takes a failed probe of the handle for an absent key. Still it never
  replaces a key that is there: the TPM refuses to make another key persistent at an
  occupied handle, and \<open>genesis\<close> reports the error.
\<close>

theorem genesis_never_replaces_an_unseen_key:
  assumes "tpm_device X view kpub name_of sealed_under wrapped_for imported_under extend_policy reachable"
    and "tcti_from_str X tcti = Ok tc" and "reachable tc"
    and "v_nv (view w) FLEET_KEY_PERSISTENT_HANDLE = Some k"
  shows "\<exists>t w'. run_genesis (probe_failing e X) tcti False w = (Err t, w') \<and> v_nv (view w') = v_nv (view w)"
  using tpm_device.genesis_probe_failing [OF assms, of e] by (auto simp: runs_err_iff)

theorem genesis_never_replaces_an_unseen_key_witness:
  "\<exists>t w'. run_genesis (probe_failing (soft_error ''retry'') soft_tss) ''swtpm'' False enrolled_node = (Err t, w') \<and>
    v_nv (soft_view w') = v_nv (soft_view enrolled_node)"
  by (rule genesis_never_replaces_an_unseen_key [OF soft_device.tpm_device_axioms _ _ enrolled_node_view(2)])
    (simp_all add: soft_reachable_def)

text \<open>
  C24. \<open>serve\<close> also takes a failed probe for an absent key, and starts without an
  error: on a node with a fleet key it then serves the per-node key alone, and answers
  the \<open>Decrypt\<close> of every ciphertext under the fleet key with an invalid argument, until
  it is restarted.
\<close>

theorem failed_probe_hides_the_fleet_key:
  assumes "tpm_device X view kpub name_of sealed_under wrapped_for imported_under extend_policy reachable"
    and "reachable tc" and "v_nv (view w) FLEET_KEY_PERSISTENT_HANDLE = Some k"
    and "key_id_of_name X (name_of (kpub k)) \<noteq> key_id_of_name X (name_of (kpub (v_primary (view w) srk_template)))"
    and "dec_key_id req = key_id_of_name X (name_of (kpub k))"
  shows "\<exists>s w'. serve_sealers (probe_failing e X) tc False w = (Ok (s, None), w') \<and>
    sealer_ready X kpub name_of (view w') s (v_primary (view w) srk_template) \<and>
    (\<forall>w1. decrypt X req (serve_service (s, None), w1) =
       (Err (Status InvalidArgument (''unknown key_id '' @ dec_key_id req)), (serve_service (s, None), w1)))"
proof -
  obtain s w' where s: "serve_sealers (probe_failing e X) tc False w = (Ok (s, None), w')"
    "sealer_ready X kpub name_of (view w') s (v_primary (view w) srk_template)"
    using tpm_device.serve_probe_failing [OF assms(1,2)] by blast
  then have "dec_key_id req \<noteq> sealer_key_id s" using assms(4,5) by (simp add: sealer_ready_def)
  then have "decrypt X req (serve_service (s, None), w1) =
      (Err (Status InvalidArgument (''unknown key_id '' @ dec_key_id req)), (serve_service (s, None), w1))" for w1
    by (simp add: serve_service_def KmsService_new_def mutex_new_def decrypt_def decrypt_with_def with_sealer_def
        bindR_apply)
  with s show ?thesis by blast
qed

theorem failed_probe_hides_the_fleet_key_witness:
  "\<exists>s w'. serve_sealers (probe_failing (soft_error ''retry'') soft_tss) (TctiNameConf ''swtpm'') False enrolled_node =
      (Ok (s, None), w')"
proof -
  let ?kid = "key_id_of_name soft_tss (soft_name (soft_public (fleet_skey [2])))"
  have "?kid \<noteq> key_id_of_name soft_tss (soft_name (soft_public (v_primary (soft_view enrolled_node) srk_template)))"
    using enrolled_node_key_ids unfolding enrolled_node_view .
  from failed_probe_hides_the_fleet_key [OF soft_device.tpm_device_axioms _ enrolled_node_view(2) this,
      of "TctiNameConf ''swtpm''" "\<lparr>dec_ciphertext = [], dec_uid = [], dec_key_id = ?kid, dec_annotations = []\<rparr>"
      "soft_error ''retry''"]
  show ?thesis by (auto simp: soft_reachable_def)
qed

end
