(* ===== verification/BTree_Map.thy ===== *)
theory BTree_Map
  imports Prelude "HOL-Library.List_Lexorder" "HOL-Library.Char_ord"
begin

text \<open>
  The operations of \<open>BTreeMap\<close> that the sources use, on association lists with
  strictly increasing keys. The locale \<open>ordered_map\<close> is what a client relies on:
  lookups after insertions, and that the entries come out in the order of their
  keys. Strings are ordered by their bytes, as Rust orders \<open>String\<close>.
\<close>

fun btree_get :: "'k::linorder \<Rightarrow> ('k \<times> 'v) list \<Rightarrow> 'v option" where
  "btree_get k [] = None"
| "btree_get k ((k', v) # m) = (if k = k' then Some v else if k < k' then None else btree_get k m)"

definition btree_contains_key :: "'k::linorder \<Rightarrow> ('k \<times> 'v) list \<Rightarrow> bool" where
  "btree_contains_key k m = (btree_get k m \<noteq> None)"

fun btree_insert :: "'k::linorder \<Rightarrow> 'v \<Rightarrow> ('k \<times> 'v) list \<Rightarrow> ('k \<times> 'v) list" where
  "btree_insert k v [] = [(k, v)]"
| "btree_insert k v ((k', v') # m) =
     (if k < k' then (k, v) # (k', v') # m
      else if k = k' then (k, v) # m
      else (k', v') # btree_insert k v m)"

definition btree_into_values :: "('k \<times> 'v) list \<Rightarrow> 'v list" where
  "btree_into_values m = map snd m"

definition btree_invar :: "('k::linorder \<times> 'v) list \<Rightarrow> bool" where
  "btree_invar m = sorted_wrt (<) (map fst m)"

section \<open>What a client relies on\<close>

locale ordered_map =
  fixes empty :: 'm
    and get :: "'k::linorder \<Rightarrow> 'm \<Rightarrow> 'v option"
    and ins :: "'k \<Rightarrow> 'v \<Rightarrow> 'm \<Rightarrow> 'm"
    and entries :: "'m \<Rightarrow> ('k \<times> 'v) list"
    and invar :: "'m \<Rightarrow> bool"
  assumes invar_empty: "invar empty"
    and invar_ins: "invar m \<Longrightarrow> invar (ins k v m)"
    and get_empty: "get k empty = None"
    and get_ins: "invar m \<Longrightarrow> get k' (ins k v m) = (if k' = k then Some v else get k' m)"
    and get_entries: "invar m \<Longrightarrow> get k m = map_of (entries m) k"
    and entries_sorted: "invar m \<Longrightarrow> sorted_wrt (<) (map fst (entries m))"
begin

text \<open>Inserting from a list, the first entry of a key staying: what a de-duplicating loop does.\<close>

definition add_new :: "'k \<Rightarrow> 'v \<Rightarrow> 'm \<Rightarrow> 'm" where
  "add_new k v m = (if get k m = None then ins k v m else m)"

lemma add_new_invar: "invar m \<Longrightarrow> invar (add_new k v m)"
  by (simp add: add_new_def invar_ins)

lemma get_add_new:
  "invar m \<Longrightarrow> get k' (add_new k v m) = (if k' = k \<and> get k m = None then Some v else get k' m)"
  by (auto simp: add_new_def get_ins)

lemma entries_from_keys:
  assumes "invar m"
  shows "entries m = map (\<lambda>k. (k, the (get k m))) (map fst (entries m))"
proof -
  have "distinct (map fst (entries m))"
    using entries_sorted [OF assms] by (simp add: strict_sorted_iff)
  then show ?thesis
    by (auto simp: get_entries [OF assms] comp_def intro!: map_idI [symmetric])
qed

text \<open>The entries depend on the contents only, not on the order of the insertions.\<close>

lemma entries_unique:
  assumes "invar m" and "invar m'" and "\<And>k. get k m = get k m'"
  shows "entries m = entries m'"
proof -
  have "dom (map_of (entries m)) = dom (map_of (entries m'))"
    using assms(3) by (simp add: dom_def flip: get_entries [OF assms(1)] get_entries [OF assms(2)])
  then have "set (map fst (entries m)) = set (map fst (entries m'))"
    by (simp add: dom_map_of_conv_image_fst)
  then have "map fst (entries m) = map fst (entries m')"
    using assms(1,2) by (metis entries_sorted strict_sorted_equal)
  then show ?thesis
    using entries_from_keys [OF assms(1)] entries_from_keys [OF assms(2)] assms(3) by simp
qed

end

section \<open>The association lists provide it\<close>

lemma btree_insert_keys: "set (map fst (btree_insert k v m)) = insert k (set (map fst m))"
  by (induction k v m rule: btree_insert.induct) auto

lemma btree_invar_insert: "btree_invar m \<Longrightarrow> btree_invar (btree_insert k v m)"
proof (induction k v m rule: btree_insert.induct)
  case (2 k v k' v' m)
  then show ?case
    using btree_insert_keys [of k v m] by (auto simp: btree_invar_def)
qed (simp add: btree_invar_def)

lemma btree_get_below: "\<forall>y \<in> set (map fst m). k < y \<Longrightarrow> btree_get k m = None"
  by (cases "(k, m)" rule: btree_get.cases) auto

lemma btree_get_insert:
  "btree_invar m \<Longrightarrow> btree_get k' (btree_insert k v m) = (if k' = k then Some v else btree_get k' m)"
proof (induction k v m rule: btree_insert.induct)
  case (2 k v k1 v1 m)
  then show ?case
    using btree_get_below [of m k'] by (auto simp: btree_invar_def dest: order.strict_trans)
qed auto

lemma btree_get_map_of: "btree_invar m \<Longrightarrow> btree_get k m = map_of m k"
proof (induction k m rule: btree_get.induct)
  case (2 k k' v m)
  then have "k \<notin> set (map fst m)" if "k < k'"
    using that by (fastforce simp: btree_invar_def)
  then have "map_of m k = None" if "k < k'" using that by (simp add: map_of_eq_None_iff)
  with 2 show ?case by (auto simp: btree_invar_def)
qed simp

interpretation btree: ordered_map "[]" btree_get btree_insert "\<lambda>m. m" btree_invar
  by unfold_locales
    ((rule btree_invar_insert btree_get_insert btree_get_map_of, assumption) |
      simp add: btree_invar_def)+

end
