(* ===== verification/Vex.thy ===== *)
theory Vex
  imports BTree_Map Host
begin

text \<open>
  \<open>src/crates/sceau-vex/src/auto_vex_presence.rs\<close>: the derivation of
  \<open>component_not_present\<close> statements, the guarded loading of its inputs and the
  set of CVEs that are triaged by hand. \<open>serde_json\<close> is the record \<open>json\<close>; a
  \<open>HashSet\<close> is a set; the entries of a directory come in the order, unspecified
  in Rust, in which the operating system lists them.
\<close>

section \<open>Schemas\<close>

record GrypeVuln =
  grype_vuln_id :: string

record GrypeArtifact =
  artifact_purl :: "string option"

record GrypeMatch =
  match_vulnerability :: GrypeVuln
  match_artifact :: GrypeArtifact

record GrypeReport =
  matches :: "GrypeMatch list"

record SbomComponent =
  component_purl :: "string option"

record Sbom =
  components :: "SbomComponent list option"

record Vuln =
  vuln_name :: string

record Product =
  product_id :: string

record Statement =
  stmt_vulnerability :: Vuln
  stmt_products :: "Product list"
  stmt_status :: string
  stmt_justification :: "string option"
  stmt_impact_statement :: "string option"
  stmt_timestamp :: string

record Document =
  doc_context :: string
  doc_id :: string
  doc_author :: string
  doc_timestamp :: string
  doc_version :: u32
  doc_statements :: "Statement list"

definition OPENVEX_CONTEXT :: string where
  "OPENVEX_CONTEXT = ''https://openvex.dev/ns/v0.2.0''"

definition OPENVEX_VERSION :: u32 where
  "OPENVEX_VERSION = 1"

definition AUTO_IMPACT_STATEMENT :: string where
  "AUTO_IMPACT_STATEMENT =
     ''Auto-derived by auto-vex-presence: the vulnerable component's package '' @
     ''URL is not present in any release SBOM, so the CVE cannot be exploited '' @
     ''against this product.''"

text \<open>An error of the operating system, or one that the code builds, with what its text reports.\<close>

datatype io_failure =
    OsFailure io_error
  | FileTooLarge string nat
  | ParseFailure string string
  | EmptySbom string

fun failure_kind :: "io_failure \<Rightarrow> io_error" where
  "failure_kind (OsFailure e) = e"
| "failure_kind (FileTooLarge path n) = InvalidData"
| "failure_kind (ParseFailure path e) = InvalidData"
| "failure_kind (EmptySbom path) = InvalidData"

record json =
  grype_from_slice :: "bytes \<Rightarrow> (GrypeReport, string) outcome"
  sbom_from_slice :: "bytes \<Rightarrow> (Sbom, string) outcome"
  document_from_slice :: "bytes \<Rightarrow> (Document, string) outcome"
  document_to_string_pretty :: "Document \<Rightarrow> (string, string) outcome"

section \<open>Loading\<close>

definition MAX_INPUT_FILE_BYTES :: nat where
  "MAX_INPUT_FILE_BYTES = 256 * 1024 * 1024"

definition read_file_capped :: "fs \<Rightarrow> string \<Rightarrow> (bytes, io_failure) outcome" where
  "read_file_capped fs path =
     obind (omap_err OsFailure (fs_metadata_len fs path)) (\<lambda>len.
     if len > MAX_INPUT_FILE_BYTES then Err (FileTooLarge path len)
     else omap_err OsFailure (fs_read fs path))"

definition load_sbom_from_path :: "json \<Rightarrow> fs \<Rightarrow> string \<Rightarrow> (Sbom, io_failure) outcome" where
  "load_sbom_from_path J fs path =
     obind (read_file_capped fs path) (\<lambda>bytes.
     obind (omap_err (ParseFailure path) (sbom_from_slice J bytes)) (\<lambda>sbom.
     if (case components sbom of None \<Rightarrow> True | Some cs \<Rightarrow> cs = []) then Err (EmptySbom path)
     else Ok sbom))"

text \<open>\<open>Path::extension\<close> of a file name: what follows its last dot, unless that dot is its first character.\<close>

definition path_extension :: "string \<Rightarrow> string option" where
  "path_extension name =
     (let ext = rev (takeWhile (\<lambda>c. c \<noteq> CHR ''.'') (rev name)) in
      if CHR ''.'' \<notin> set name \<or> length name = Suc (length ext) then None else Some ext)"

definition is_statement_file :: "string \<Rightarrow> bool" where
  "is_statement_file name =
     (path_extension name = Some ''json'' \<and>
      \<not> (valid_utf8 (bytes_of_string name) \<and> starts_with ''.'' name))"

fun load_triaged_entries ::
  "json \<Rightarrow> fs \<Rightarrow> string \<Rightarrow> (string, io_error) outcome list \<Rightarrow> string set \<Rightarrow>
     (string set, io_failure) outcome" where
  "load_triaged_entries J fs vex_dir [] triaged = Ok triaged"
| "load_triaged_entries J fs vex_dir (entry # entries) triaged =
     obind (omap_err OsFailure entry) (\<lambda>name.
     if \<not> is_statement_file name then load_triaged_entries J fs vex_dir entries triaged
     else
       let path = path_join vex_dir name in
       obind (read_file_capped fs path) (\<lambda>bytes.
       obind (omap_err (ParseFailure path) (document_from_slice J bytes)) (\<lambda>doc.
       load_triaged_entries J fs vex_dir entries
         (triaged \<union> set (map (\<lambda>s. vuln_name (stmt_vulnerability s)) (doc_statements doc))))))"

text \<open>\<open>read_dir\<close> either fails or lists the directory.\<close>

type_synonym dirs = "string \<Rightarrow> ((string, io_error) outcome list, io_error) outcome"

definition load_triaged_from_vex_dir ::
  "json \<Rightarrow> fs \<Rightarrow> dirs \<Rightarrow> string \<Rightarrow> (string set, io_failure) outcome" where
  "load_triaged_from_vex_dir J fs dirs vex_dir = (case dirs vex_dir of
      Ok entries \<Rightarrow> load_triaged_entries J fs vex_dir entries {}
    | Err e \<Rightarrow> if e = NotFound then Ok {} else Err (OsFailure e)
    | Panic s \<Rightarrow> Panic s)"

section \<open>The derivation\<close>

definition sbom_purls :: "Sbom list \<Rightarrow> string set" where
  "sbom_purls sboms = set (List.map_filter component_purl
     (concat (map (\<lambda>s. case components s of None \<Rightarrow> [] | Some cs \<Rightarrow> cs) sboms)))"

definition presence_statement :: "string \<Rightarrow> string \<Rightarrow> string \<Rightarrow> Statement" where
  "presence_statement product_purl statement_timestamp cve =
     \<lparr>stmt_vulnerability = \<lparr>vuln_name = cve\<rparr>, stmt_products = [\<lparr>product_id = product_purl\<rparr>],
      stmt_status = ''not_affected'', stmt_justification = Some ''component_not_present'',
      stmt_impact_statement = Some AUTO_IMPACT_STATEMENT, stmt_timestamp = statement_timestamp\<rparr>"

definition presence_step ::
  "string set \<Rightarrow> string set \<Rightarrow> string \<Rightarrow> string \<Rightarrow>
     (string \<times> Statement) list \<Rightarrow> GrypeMatch \<Rightarrow> (string \<times> Statement) list" where
  "presence_step purls already_triaged product_purl statement_timestamp emitted m =
     (let cve = grype_vuln_id (match_vulnerability m) in
      if cve \<in> already_triaged then emitted
      else if btree_contains_key cve emitted then emitted
      else (case artifact_purl (match_artifact m) of
          None \<Rightarrow> emitted
        | Some p \<Rightarrow>
            if p = [] then emitted
            else if p \<in> purls then emitted
            else btree_insert cve (presence_statement product_purl statement_timestamp cve) emitted))"

definition compute_presence_vex ::
  "GrypeReport \<Rightarrow> Sbom list \<Rightarrow> string set \<Rightarrow> string \<Rightarrow> string \<Rightarrow> Statement list" where
  "compute_presence_vex grype sboms already_triaged product_purl statement_timestamp =
     btree_into_values (foldl
       (presence_step (sbom_purls sboms) already_triaged product_purl statement_timestamp)
       [] (matches grype))"

definition build_document :: "Statement list \<Rightarrow> string \<Rightarrow> string \<Rightarrow> string \<Rightarrow> Document" where
  "build_document statements ident author timestamp =
     \<lparr>doc_context = OPENVEX_CONTEXT, doc_id = ident, doc_author = author,
      doc_timestamp = timestamp, doc_version = OPENVEX_VERSION, doc_statements = statements\<rparr>"

end
