(* ===== verification/Vex_Bin.thy ===== *)
theory Vex_Bin
  imports Vex
begin

text \<open>
  \<open>src/crates/sceau-vex/src/bin/auto_vex_presence.rs\<close>: the command around the
  derivation. The world is the file system and what was printed. The crate \<open>time\<close> (a
  date is a count of nanoseconds), the listing of directories and the answer of the
  operating system to opening a file for writing are arguments; parsing of the
  command line is done by \<open>clap\<close>, whose result is the record \<open>VexCli\<close>.
\<close>

record VexCli =
  cli_grype_json :: string
  cli_sbom :: "string list"
  cli_vex_dir :: string
  cli_product_purl :: string
  cli_id :: string
  cli_author :: string
  cli_timestamp :: "string option"
  cli_output :: "string option"

record vex_world =
  vw_fs :: fs
  vw_stdout :: string
  vw_stderr :: string

datatype offset_date_time = OffsetDateTime int

record vex_env =
  env_json :: json
  env_dirs :: dirs
  env_now_utc :: offset_date_time
  env_replace_nanosecond :: "offset_date_time \<Rightarrow> nat \<Rightarrow> (offset_date_time, string) outcome"
  env_format_rfc3339 :: "offset_date_time \<Rightarrow> (string, string) outcome"
  env_open_for_writing :: "string \<Rightarrow> io_error option"

datatype VexError =
    ReadGrype string io_failure
  | ParseGrype string string
  | LoadSbom string io_failure
  | LoadVexDir string io_failure
  | FormatTime string
  | RenderDocument string
  | WriteOutput string io_error

fun load_sboms :: "json \<Rightarrow> fs \<Rightarrow> string list \<Rightarrow> (Sbom list, VexError) outcome" where
  "load_sboms J fs [] = Ok []"
| "load_sboms J fs (path # paths) =
     obind (omap_err (LoadSbom path) (load_sbom_from_path J fs path)) (\<lambda>sbom.
     obind (load_sboms J fs paths) (\<lambda>sboms.
     Ok (sbom # sboms)))"

definition fs_write ::
  "vex_env \<Rightarrow> string \<Rightarrow> string \<Rightarrow> (vex_world, unit, io_error) rs" where
  "fs_write E path contents = (\<lambda>w. case env_open_for_writing E path of
      Some e \<Rightarrow> (Err e, w)
    | None \<Rightarrow> (Ok (), w\<lparr>vw_fs := (vw_fs w)(path \<mapsto> File (bytes_of_string contents))\<rparr>))"

definition print_out :: "string \<Rightarrow> (vex_world, unit, 'e) rs" where
  "print_out s = (\<lambda>w. (Ok (), w\<lparr>vw_stdout := vw_stdout w @ s\<rparr>))"

definition print_err :: "string \<Rightarrow> (vex_world, unit, 'e) rs" where
  "print_err s = (\<lambda>w. (Ok (), w\<lparr>vw_stderr := vw_stderr w @ s\<rparr>))"

definition summary_line :: "nat \<Rightarrow> nat \<Rightarrow> nat \<Rightarrow> string \<Rightarrow> string" where
  "summary_line n_matches n_statements n_triaged vex_dir =
     ''auto-vex-presence: '' @ show_nat n_matches @ '' grype match(es) -> '' @
     show_nat n_statements @ '' statement(s) emitted ('' @ show_nat n_triaged @
     '' already triaged in '' @ vex_dir @ '')'' @ [CHR 10]"

definition now_rfc3339 :: "vex_env \<Rightarrow> (string, string) outcome" where
  "now_rfc3339 E =
     obind (env_replace_nanosecond E (env_now_utc E) 0) (\<lambda>now.
     env_format_rfc3339 E now)"

text \<open>What \<open>run\<close> reads, up to the document it renders.\<close>

definition read_inputs ::
  "vex_env \<Rightarrow> fs \<Rightarrow> VexCli \<Rightarrow> (GrypeReport \<times> Sbom list \<times> string set \<times> string, VexError) outcome" where
  "read_inputs E fs cli =
     obind (omap_err (ReadGrype (cli_grype_json cli)) (read_file_capped fs (cli_grype_json cli))) (\<lambda>grype_bytes.
     obind (omap_err (ParseGrype (cli_grype_json cli)) (grype_from_slice (env_json E) grype_bytes)) (\<lambda>grype.
     obind (load_sboms (env_json E) fs (cli_sbom cli)) (\<lambda>sboms.
     obind (omap_err (LoadVexDir (cli_vex_dir cli))
       (load_triaged_from_vex_dir (env_json E) fs (env_dirs E) (cli_vex_dir cli))) (\<lambda>triaged.
     obind (case cli_timestamp cli of
         Some ts \<Rightarrow> Ok ts
       | None \<Rightarrow> omap_err FormatTime (now_rfc3339 E)) (\<lambda>timestamp.
     Ok (grype, sboms, triaged, timestamp))))))"

definition run :: "vex_env \<Rightarrow> VexCli \<Rightarrow> (vex_world, unit, VexError) rs" where
  "run E cli =
     bindR (\<lambda>w. (read_inputs E (vw_fs w) cli, w)) (\<lambda>(grype, sboms, triaged, timestamp).
     let statements = compute_presence_vex grype sboms triaged (cli_product_purl cli) timestamp;
         doc = build_document statements (cli_id cli) (cli_author cli) timestamp in
     bindR (lift (omap_err RenderDocument (document_to_string_pretty (env_json E) doc))) (\<lambda>text.
     let rendered = text @ [CHR 10] in
     bindR (case cli_output cli of
         Some path \<Rightarrow> map_err (WriteOutput path) (fs_write E path rendered)
       | None \<Rightarrow> print_out rendered) (\<lambda>_.
     print_err (summary_line (length (matches grype)) (length (doc_statements doc)) (card triaged)
       (cli_vex_dir cli)))))"

text \<open>The exit code of \<open>main\<close>.\<close>

definition vex_main :: "vex_env \<Rightarrow> VexCli \<Rightarrow> vex_world \<Rightarrow> nat" where
  "vex_main E cli w = (case fst (run E cli w) of Ok _ \<Rightarrow> 0 | Err _ \<Rightarrow> 1 | Panic _ \<Rightarrow> 101)"

end
