(* ===== verification/Vex_Spec.thy ===== *)
theory Vex_Spec
  imports Vex_Bin
begin

text \<open>
  What the VEX tool computes, as sets: which CVEs are dismissed, what a directory of
  hand-written statements contributes, which files an input is accepted from and
  what a run leaves behind; and a line-based stand-in for \<open>serde_json\<close> on which the
  properties are evaluated.
\<close>

section \<open>Definitions\<close>

definition absent_match :: "string set \<Rightarrow> GrypeMatch \<Rightarrow> bool" where
  "absent_match purls m = (case artifact_purl (match_artifact m) of
      None \<Rightarrow> False | Some p \<Rightarrow> p \<noteq> [] \<and> p \<notin> purls)"

definition match_cve :: "GrypeMatch \<Rightarrow> string" where
  "match_cve m = grype_vuln_id (match_vulnerability m)"

text \<open>The CVEs that are dismissed: untriaged, with a match whose purl is in no SBOM.\<close>

definition dismissed_cves :: "GrypeMatch list \<Rightarrow> string set \<Rightarrow> string set \<Rightarrow> string set" where
  "dismissed_cves ms purls triaged = match_cve ` {m \<in> set ms. absent_match purls m} - triaged"

text \<open>What one directory entry contributes to the triaged set.\<close>

definition entry_cves ::
  "json \<Rightarrow> fs \<Rightarrow> string \<Rightarrow> (string, io_error) outcome \<Rightarrow> (string set, io_failure) outcome" where
  "entry_cves J fs dir entry =
     obind (omap_err OsFailure entry) (\<lambda>name.
     if \<not> is_statement_file name then Ok {}
     else
       obind (read_file_capped fs (path_join dir name)) (\<lambda>bytes.
       obind (omap_err (ParseFailure (path_join dir name)) (document_from_slice J bytes)) (\<lambda>doc.
       Ok ((\<lambda>s. vuln_name (stmt_vulnerability s)) ` set (doc_statements doc)))))"

text \<open>One value per line, fields separated by a space; it stands for the JSON syntax.\<close>

fun split_on :: "char \<Rightarrow> string \<Rightarrow> string list" where
  "split_on c [] = [[]]"
| "split_on c (x # xs) = (if x = c then [] # split_on c xs
     else (case split_on c xs of [] \<Rightarrow> [[x]] | y # ys \<Rightarrow> (x # y) # ys))"

definition text_lines :: "bytes \<Rightarrow> string list" where
  "text_lines b = filter (\<lambda>l. l \<noteq> []) (split_on (CHR 10) (string_of_bytes b))"

definition optional_text :: "string \<Rightarrow> string option" where
  "optional_text s = (if s = ''-'' then None else Some s)"

definition line_match :: "string \<Rightarrow> GrypeMatch" where
  "line_match l = (case split_on (CHR '' '') l of
      [cve, purl] \<Rightarrow> \<lparr>match_vulnerability = \<lparr>grype_vuln_id = cve\<rparr>,
                     match_artifact = \<lparr>artifact_purl = optional_text purl\<rparr>\<rparr>
    | _ \<Rightarrow> \<lparr>match_vulnerability = \<lparr>grype_vuln_id = l\<rparr>, match_artifact = \<lparr>artifact_purl = None\<rparr>\<rparr>)"

definition line_json :: json where
  "line_json =
     \<lparr>grype_from_slice = (\<lambda>b. Ok \<lparr>matches = map line_match (text_lines b)\<rparr>),
      sbom_from_slice = (\<lambda>b. Ok \<lparr>components =
        Some (map (\<lambda>l. \<lparr>component_purl = optional_text l\<rparr>) (text_lines b))\<rparr>),
      document_from_slice = (\<lambda>b. Ok (build_document
        (map (presence_statement [] []) (text_lines b)) [] [] [])),
      document_to_string_pretty = (\<lambda>d. Ok (concat (map (\<lambda>s.
        vuln_name (stmt_vulnerability s) @ [CHR 10]) (doc_statements d))))\<rparr>"

section \<open>Lemmas\<close>

lemma finite_dismissed_cves [simp]: "finite (dismissed_cves ms purls triaged)"
  by (simp add: dismissed_cves_def)

lemma presence_step_alt:
  "presence_step purls triaged prd ts emitted m =
     (if match_cve m \<notin> triaged \<and> absent_match purls m
      then btree.add_new (match_cve m) (presence_statement prd ts (match_cve m)) emitted
      else emitted)"
  by (auto simp: presence_step_def Let_def btree_contains_key_def absent_match_def match_cve_def
      btree.add_new_def split: option.splits)

lemma presence_fold:
  assumes "btree_invar emitted"
  shows "btree_invar (foldl (presence_step purls triaged prd ts) emitted ms) \<and>
    btree_get cve (foldl (presence_step purls triaged prd ts) emitted ms) =
      (case btree_get cve emitted of Some s \<Rightarrow> Some s
       | None \<Rightarrow> if cve \<in> dismissed_cves ms purls triaged
                 then Some (presence_statement prd ts cve) else None)"
  using assms
proof (induction ms arbitrary: emitted)
  case Nil
  then show ?case by (simp add: dismissed_cves_def split: option.split)
next
  case (Cons m ms)
  let ?e = "presence_step purls triaged prd ts emitted m"
  have "btree_invar ?e" using Cons.prems by (simp add: presence_step_alt btree.add_new_invar)
  from Cons.IH [OF this] Cons.prems show ?case
    by (auto simp: presence_step_alt btree.get_add_new dismissed_cves_def split: option.splits)
qed

lemma compute_presence_vex_eq:
  "compute_presence_vex grype sboms triaged prd ts =
     map (presence_statement prd ts)
       (sorted_list_of_set (dismissed_cves (matches grype) (sbom_purls sboms) triaged))"
proof -
  let ?D = "dismissed_cves (matches grype) (sbom_purls sboms) triaged"
  let ?r = "foldl (presence_step (sbom_purls sboms) triaged prd ts) [] (matches grype)"
  have inv: "btree_invar ?r" using presence_fold [OF btree.invar_empty] by blast
  have get: "btree_get cve ?r = (if cve \<in> ?D then Some (presence_statement prd ts cve) else None)" for cve
    using presence_fold [OF btree.invar_empty] by simp
  have "set (map fst ?r) = ?D"
    using get btree.get_entries [OF inv] by (auto simp flip: dom_map_of_conv_image_fst split: if_splits)
  moreover have "sorted_wrt (<) (map fst ?r)" by (rule btree.entries_sorted [OF inv])
  ultimately have "map fst ?r = sorted_list_of_set ?D"
    by (metis sorted_list_of_set.idem_if_sorted_distinct strict_sorted_iff)
  with btree.entries_from_keys [OF inv]
  have "map snd ?r = map snd (map (\<lambda>k. (k, the (btree_get k ?r))) (sorted_list_of_set ?D))"
    by (metis (no_types, lifting))
  also have "\<dots> = map (presence_statement prd ts) (sorted_list_of_set ?D)"
    by (simp add: get)
  finally show ?thesis by (simp only: compute_presence_vex_def btree_into_values_def)
qed

lemma load_triaged_entries_step:
  "load_triaged_entries J fs dir (e # es) T =
     obind (entry_cves J fs dir e) (\<lambda>N. load_triaged_entries J fs dir es (T \<union> N))"
  by (cases e) (simp_all add: entry_cves_def obind_assoc Let_def)

lemma is_ok_iff: "is_ok r \<longleftrightarrow> (\<exists>x. r = Ok x)"
  by (cases r) simp_all

lemma load_triaged_entries_Ok_iff:
  "load_triaged_entries J fs dir es T = Ok R \<longleftrightarrow>
     (\<forall>e \<in> set es. is_ok (entry_cves J fs dir e)) \<and>
     R = T \<union> \<Union> {N. \<exists>e \<in> set es. entry_cves J fs dir e = Ok N}"
proof (induction es arbitrary: T)
  case (Cons e es)
  show ?case
  proof (cases "entry_cves J fs dir e")
    case (Ok N)
    have "{M. \<exists>e' \<in> set (e # es). entry_cves J fs dir e' = Ok M} =
      insert N {M. \<exists>e' \<in> set es. entry_cves J fs dir e' = Ok M}"
      using Ok by auto
    then show ?thesis
      unfolding load_triaged_entries_step using Ok Cons.IH by (simp add: Un_assoc)
  qed (simp_all add: load_triaged_entries_step del: load_triaged_entries.simps)
qed auto

lemma read_file_capped_Ok_iff:
  "read_file_capped fs path = Ok b \<longleftrightarrow> fs path = Some (File b) \<and> length b \<le> MAX_INPUT_FILE_BYTES"
proof (cases "fs path")
  case (Some node)
  then show ?thesis
    by (cases node) (auto simp: read_file_capped_def fs_metadata_len_def fs_read_def)
qed (simp add: read_file_capped_def fs_metadata_len_def)

lemma set_sbom_purls_append [simp]: "sbom_purls (xs @ ys) = sbom_purls xs \<union> sbom_purls ys"
  by (simp add: sbom_purls_def List.map_filter_def)

lemma sbom_purls_empty:
  assumes "\<And>s c cs. s \<in> set sboms \<Longrightarrow> components s = Some cs \<Longrightarrow> c \<in> set cs \<Longrightarrow> component_purl c = None"
  shows "sbom_purls sboms = {}"
  using assms
proof (induction sboms)
  case (Cons s sboms)
  have "sbom_purls [s] = {}"
    using Cons.prems [of s]
    by (cases "components s") (force simp: sbom_purls_def List.map_filter_def)+
  moreover have "sbom_purls sboms = {}" by (rule Cons.IH) (use Cons.prems in auto)
  ultimately show ?case using set_sbom_purls_append [of "[s]" sboms] by simp
qed (simp add: sbom_purls_def List.map_filter_def)

lemma no_components_iff:
  "(case components sbom of None \<Rightarrow> True | Some cs \<Rightarrow> cs = []) \<longleftrightarrow>
     \<not> (\<exists>c cs. components sbom = Some (c # cs))"
  by (cases "components sbom"; cases "the (components sbom)") auto

lemma dismissed_cves_mono:
  "dismissed_cves ms (P \<union> Q) (T \<union> U) \<subseteq> dismissed_cves ms P T"
  by (auto simp: dismissed_cves_def absent_match_def split: option.splits)

lemma mem_dismissed_cvesI:
  assumes "m \<in> set ms" and "absent_match purls m" and "match_cve m \<notin> T"
  shows "match_cve m \<in> dismissed_cves ms purls T"
  using assms by (auto simp: dismissed_cves_def)

lemma doc_statements_build_document [simp]: "doc_statements (build_document s i a t) = s"
  by (simp add: build_document_def)

lemma run_eq:
  assumes "read_inputs E (vw_fs w) cli = Ok (grype, sboms, triaged, ts)"
    and "document_to_string_pretty (env_json E) (build_document
       (compute_presence_vex grype sboms triaged (cli_product_purl cli) ts)
       (cli_id cli) (cli_author cli) ts) = Ok body"
  shows "run E cli w = bindR (case cli_output cli of
         Some path \<Rightarrow> map_err (WriteOutput path) (fs_write E path (body @ [CHR 10]))
       | None \<Rightarrow> print_out (body @ [CHR 10])) (\<lambda>_.
     print_err (summary_line (length (matches grype))
       (length (compute_presence_vex grype sboms triaged (cli_product_purl cli) ts))
       (card triaged) (cli_vex_dir cli))) w"
  using assms by (simp add: run_def bindR_apply Let_def)

lemma run_OkE:
  assumes "run E cli w = (Ok u, w')"
  obtains grype sboms triaged ts body where
    "read_inputs E (vw_fs w) cli = Ok (grype, sboms, triaged, ts)"
    and "document_to_string_pretty (env_json E) (build_document
       (compute_presence_vex grype sboms triaged (cli_product_purl cli) ts)
       (cli_id cli) (cli_author cli) ts) = Ok body"
proof -
  obtain grype sboms triaged ts where r: "read_inputs E (vw_fs w) cli = Ok (grype, sboms, triaged, ts)"
    using assms by (cases "read_inputs E (vw_fs w) cli") (auto simp: run_def bindR_apply)
  then show thesis
    using assms that
    by (cases "document_to_string_pretty (env_json E) (build_document
       (compute_presence_vex grype sboms triaged (cli_product_purl cli) ts)
       (cli_id cli) (cli_author cli) ts)") (auto simp: run_def bindR_apply Let_def)
qed

lemma run_Err_same_world:
  assumes "run E cli w = (Err e, w')"
  shows "w' = w"
proof (cases "read_inputs E (vw_fs w) cli")
  case (Ok i)
  obtain grype sboms triaged ts where i: "i = (grype, sboms, triaged, ts)" by (cases i)
  show ?thesis
  proof (cases "document_to_string_pretty (env_json E) (build_document
       (compute_presence_vex grype sboms triaged (cli_product_purl cli) ts)
       (cli_id cli) (cli_author cli) ts)")
    case (Ok body)
    with assms \<open>read_inputs E (vw_fs w) cli = Ok i\<close> i show ?thesis
      by (auto simp: run_eq bindR_apply print_out_def print_err_def fs_write_def map_err_apply
          split: option.splits)
  qed (use assms Ok i in \<open>auto simp: run_def bindR_apply Let_def\<close>)
qed (use assms in \<open>auto simp: run_def bindR_apply\<close>)

lemma entry_cves_Ok_iff:
  "entry_cves J fs dir entry = Ok N \<longleftrightarrow> (\<exists>name. entry = Ok name \<and>
     (if is_statement_file name
      then \<exists>b doc. read_file_capped fs (path_join dir name) = Ok b \<and> document_from_slice J b = Ok doc \<and>
        N = (\<lambda>s. vuln_name (stmt_vulnerability s)) ` set (doc_statements doc)
      else N = {}))"
  by (cases entry) (auto simp: entry_cves_def obind_Ok_iff)

lemma mem_entry_cves_iff:
  "(\<exists>N. entry_cves J fs dir e = Ok N \<and> cve \<in> N) \<longleftrightarrow> (\<exists>name b doc s. e = Ok name \<and>
     is_statement_file name \<and> fs (path_join dir name) = Some (File b) \<and>
     document_from_slice J b = Ok doc \<and> length b \<le> 268435456 \<and>
     s \<in> set (doc_statements doc) \<and> vuln_name (stmt_vulnerability s) = cve)"
proof (cases e)
  case (Ok name)
  then show ?thesis
    by (cases "is_statement_file name")
      (auto simp: entry_cves_Ok_iff read_file_capped_Ok_iff MAX_INPUT_FILE_BYTES_def)
qed (simp_all add: entry_cves_Ok_iff)

lemma union_entry_cves:
  "\<Union> {N. \<exists>e \<in> set entries. entry_cves J fs dir e = Ok N} =
    {cve. \<exists>name b doc s. Ok name \<in> set entries \<and> is_statement_file name \<and>
       fs (path_join dir name) = Some (File b) \<and> document_from_slice J b = Ok doc \<and>
       length b \<le> 268435456 \<and> s \<in> set (doc_statements doc) \<and> vuln_name (stmt_vulnerability s) = cve}"
proof -
  have "cve \<in> \<Union> {N. \<exists>e \<in> set entries. entry_cves J fs dir e = Ok N} \<longleftrightarrow>
    (\<exists>e \<in> set entries. \<exists>N. entry_cves J fs dir e = Ok N \<and> cve \<in> N)" for cve
    by blast
  then show ?thesis unfolding mem_entry_cves_iff by blast
qed

end
