(* ===== verification/Vex_Properties.thy ===== *)
theory Vex_Properties
  imports Vex_Spec
begin

text \<open>
  The properties of the VEX tool, each with an evaluation on concrete inputs where
  it has hypotheses.
\<close>

section \<open>Inputs for the evaluations\<close>

definition sample_match :: "string \<Rightarrow> string \<Rightarrow> GrypeMatch" where
  "sample_match cve purl =
     \<lparr>match_vulnerability = \<lparr>grype_vuln_id = cve\<rparr>, match_artifact = \<lparr>artifact_purl = Some purl\<rparr>\<rparr>"

definition sample_fs :: fs where
  "sample_fs path =
     (if path = ''g'' then Some (File (bytes_of_string ''C pkg''))
      else if path = ''s'' then Some (File (bytes_of_string ''-''))
      else if path = ''v/a.json'' then Some (File (bytes_of_string ''A''))
      else None)"

definition sample_env :: vex_env where
  "sample_env =
     \<lparr>env_json = line_json,
      env_dirs = (\<lambda>d. if d = ''v'' then Ok [Ok ''a.json'', Ok ''.b.json'', Ok ''README''] else Err NotFound),
      env_now_utc = OffsetDateTime 1767225600123456789,
      env_replace_nanosecond = (\<lambda>t n. case t of OffsetDateTime i \<Rightarrow> Ok (OffsetDateTime (i - i mod 1000000000 + int n))),
      env_format_rfc3339 = (\<lambda>t. Ok ''2026-01-01T00:00:00Z''),
      env_open_for_writing = (\<lambda>p. if p = ''out'' then None else Some AccessDenied)\<rparr>"

definition sample_cli :: "string option \<Rightarrow> VexCli" where
  "sample_cli output =
     \<lparr>cli_grype_json = ''g'', cli_sbom = [''s''], cli_vex_dir = ''v'', cli_product_purl = ''p'',
      cli_id = ''i'', cli_author = ''a'', cli_timestamp = None, cli_output = output\<rparr>"

definition sample_world :: vex_world where
  "sample_world = \<lparr>vw_fs = sample_fs, vw_stdout = [], vw_stderr = []\<rparr>"

lemmas sample_simps = text_lines_def optional_text_def line_match_def line_json_def sample_fs_def
  read_file_capped_Ok_iff MAX_INPUT_FILE_BYTES_def

section \<open>The derivation\<close>

text \<open>
  C12. The statements emitted are, in increasing order of the CVE identifiers and
  one per identifier, exactly the \<open>component_not_present\<close> statements for the CVEs
  that are not triaged and have a match whose purl is non-empty and in no SBOM.
  Neither the order of the matches nor repetitions change the result.
\<close>

theorem presence_vex_characterised:
  "compute_presence_vex grype sboms triaged product_purl ts =
     map (presence_statement product_purl ts) (sorted_list_of_set
       {cve. cve \<notin> triaged \<and> (\<exists>m p. m \<in> set (matches grype) \<and>
          grype_vuln_id (match_vulnerability m) = cve \<and> artifact_purl (match_artifact m) = Some p \<and>
          p \<noteq> [] \<and> p \<notin> sbom_purls sboms)})"
proof -
  have "dismissed_cves (matches grype) (sbom_purls sboms) triaged =
    {cve. cve \<notin> triaged \<and> (\<exists>m p. m \<in> set (matches grype) \<and>
       grype_vuln_id (match_vulnerability m) = cve \<and> artifact_purl (match_artifact m) = Some p \<and>
       p \<noteq> [] \<and> p \<notin> sbom_purls sboms)}"
    by (auto simp: dismissed_cves_def absent_match_def match_cve_def split: option.splits)
  then show ?thesis by (simp add: compute_presence_vex_eq)
qed

text \<open>
  C36. A CVE that one match places in a component of an SBOM is still dismissed for
  the whole product when another match of the same CVE names a purl that is in no
  SBOM: the statement is keyed by the CVE alone.
\<close>

theorem partially_present_cve_dismissed:
  assumes "m \<in> set (matches grype)" and "m' \<in> set (matches grype)"
    and "grype_vuln_id (match_vulnerability m) = cve" and "grype_vuln_id (match_vulnerability m') = cve"
    and "artifact_purl (match_artifact m) = Some p" and "p \<in> sbom_purls sboms"
    and "artifact_purl (match_artifact m') = Some p'" and "p' \<notin> sbom_purls sboms" and "p' \<noteq> []"
    and "cve \<notin> triaged"
  shows "presence_statement product_purl ts cve \<in>
    set (compute_presence_vex grype sboms triaged product_purl ts)"
proof -
  have "cve \<in> dismissed_cves (matches grype) (sbom_purls sboms) triaged"
    using mem_dismissed_cvesI [OF assms(2)] assms(4,7-10) by (simp add: absent_match_def match_cve_def)
  then show ?thesis by (simp add: compute_presence_vex_eq)
qed

theorem partially_present_cve_dismissed_witness:
  "presence_statement ''p'' ''t'' ''C'' \<in> set (compute_presence_vex
     \<lparr>matches = [sample_match ''C'' ''in'', sample_match ''C'' ''out'']\<rparr>
     [\<lparr>components = Some [\<lparr>component_purl = Some ''in''\<rparr>]\<rparr>] {} ''p'' ''t'')"
  by (rule partially_present_cve_dismissed [where m = "sample_match ''C'' ''in''"
        and m' = "sample_match ''C'' ''out''" and p = "''in''" and p' = "''out''"])
    (simp_all add: sample_match_def sbom_purls_def List.map_filter_def)

section \<open>Loading\<close>

text \<open>
  C37. An SBOM is loaded exactly when its file is readable, at most 256 MiB long,
  parses, and lists at least one component.
\<close>

theorem sbom_loading_fails_closed:
  "load_sbom_from_path J fs path = Ok sbom \<longleftrightarrow>
     (\<exists>b c cs. fs path = Some (File b) \<and> length b \<le> 268435456 \<and>
        sbom_from_slice J b = Ok sbom \<and> components sbom = Some (c # cs))"
  by (auto simp: load_sbom_from_path_def obind_Ok_iff read_file_capped_Ok_iff
      MAX_INPUT_FILE_BYTES_def no_components_iff split: if_splits)


lemma sample_sboms:
  "load_sboms line_json sample_fs [''s''] = Ok [\<lparr>components = Some [\<lparr>component_purl = None\<rparr>]\<rparr>]"
proof -
  have "read_file_capped sample_fs ''s'' = Ok (bytes_of_string ''-'')"
    by (simp add: sample_simps)
  then show ?thesis by (simp add: load_sbom_from_path_def) (simp add: sample_simps)
qed


text \<open>
  C35. The triaged set of a directory that can be listed: loading succeeds exactly
  when every entry is readable and every visible \<open>*.json\<close> file in it is within the
  size limit and parses, and then the set holds the CVE names of all statements of
  those files and no others, in whatever order the entries are listed.
\<close>

theorem triaged_set_characterised:
  assumes "dirs vex_dir = Ok entries"
  shows "load_triaged_from_vex_dir J fs dirs vex_dir = Ok T \<longleftrightarrow>
    (\<forall>e \<in> set entries. \<exists>name. e = Ok name \<and> (is_statement_file name \<longrightarrow>
       (\<exists>b doc. fs (path_join vex_dir name) = Some (File b) \<and> length b \<le> 268435456 \<and>
          document_from_slice J b = Ok doc))) \<and>
    T = {cve. \<exists>name b doc s. Ok name \<in> set entries \<and> is_statement_file name \<and>
       fs (path_join vex_dir name) = Some (File b) \<and> document_from_slice J b = Ok doc \<and>
       length b \<le> 268435456 \<and> s \<in> set (doc_statements doc) \<and> vuln_name (stmt_vulnerability s) = cve}"
proof -
  have ok: "is_ok (entry_cves J fs vex_dir e) \<longleftrightarrow> (\<exists>name. e = Ok name \<and> (is_statement_file name \<longrightarrow>
       (\<exists>b doc. fs (path_join vex_dir name) = Some (File b) \<and> length b \<le> 268435456 \<and>
          document_from_slice J b = Ok doc)))" for e
    by (auto simp: is_ok_iff entry_cves_Ok_iff read_file_capped_Ok_iff MAX_INPUT_FILE_BYTES_def)
  have "\<Union> {N. \<exists>e \<in> set entries. entry_cves J fs vex_dir e = Ok N} =
    {cve. \<exists>name b doc s. Ok name \<in> set entries \<and> is_statement_file name \<and>
       fs (path_join vex_dir name) = Some (File b) \<and> document_from_slice J b = Ok doc \<and>
       length b \<le> 268435456 \<and> s \<in> set (doc_statements doc) \<and> vuln_name (stmt_vulnerability s) = cve}"
    by (rule union_entry_cves)
  then show ?thesis
    using assms by (simp add: load_triaged_from_vex_dir_def load_triaged_entries_Ok_iff ok)
qed

lemma sample_statement_files:
  "is_statement_file ''a.json''" "\<not> is_statement_file ''.b.json''" "\<not> is_statement_file ''README''"
  by (simp_all add: is_statement_file_def path_extension_def starts_with_def bytes_of_string_def
      in_range_def unat_of_nat take_bit_eq_mod)

lemma sample_statement_file:
  "sample_fs (path_join ''v'' ''a.json'') = Some (File b) \<longleftrightarrow> b = bytes_of_string ''A''"
  by (auto simp: sample_fs_def path_join_def starts_with_def)

lemma sample_document:
  "document_from_slice line_json (bytes_of_string ''A'') =
     Ok (build_document [presence_statement [] [] ''A''] [] [] [])"
  by (simp add: line_json_def text_lines_def)

theorem triaged_set_characterised_witness:
  "load_triaged_from_vex_dir line_json sample_fs (env_dirs sample_env) ''v'' = Ok {''A''}"
  using triaged_set_characterised [of "env_dirs sample_env" "''v''"
      "[Ok ''a.json'', Ok ''.b.json'', Ok ''README'']" line_json sample_fs "{''A''}"]
  by (simp add: sample_env_def sample_statement_files sample_statement_file sample_document
      presence_statement_def conj_disj_distribR ex_disj_distrib)

section \<open>The command\<close>

text \<open>
  A successful run leaves exactly one thing behind besides its summary line: the
  rendered document with the derived statements, followed by a newline, in the
  output file when one is given and on standard output otherwise. No other file
  changes.
\<close>

theorem run_writes_the_document:
  assumes "run E cli w = (Ok u, w')"
  shows "\<exists>grype sboms triaged ts body.
    read_inputs E (vw_fs w) cli = Ok (grype, sboms, triaged, ts) \<and>
    document_to_string_pretty (env_json E) (build_document
      (compute_presence_vex grype sboms triaged (cli_product_purl cli) ts)
      (cli_id cli) (cli_author cli) ts) = Ok body \<and>
    (case cli_output cli of
       Some path \<Rightarrow> vw_stdout w' = vw_stdout w \<and>
         vw_fs w' = (vw_fs w)(path \<mapsto> File (bytes_of_string (body @ [CHR 10])))
     | None \<Rightarrow> vw_stdout w' = vw_stdout w @ body @ [CHR 10] \<and> vw_fs w' = vw_fs w)"
proof (rule run_OkE [OF assms])
  fix grype sboms triaged ts body
  assume i: "read_inputs E (vw_fs w) cli = Ok (grype, sboms, triaged, ts)"
    and d: "document_to_string_pretty (env_json E) (build_document
      (compute_presence_vex grype sboms triaged (cli_product_purl cli) ts)
      (cli_id cli) (cli_author cli) ts) = Ok body"
  have "case cli_output cli of
       Some path \<Rightarrow> vw_stdout w' = vw_stdout w \<and>
         vw_fs w' = (vw_fs w)(path \<mapsto> File (bytes_of_string (body @ [CHR 10])))
     | None \<Rightarrow> vw_stdout w' = vw_stdout w @ body @ [CHR 10] \<and> vw_fs w' = vw_fs w"
    using assms unfolding run_eq [OF i d]
    by (auto simp: bindR_apply map_err_apply fs_write_def print_out_def print_err_def
        split: option.splits)
  with i d show ?thesis by blast
qed

lemma sample_inputs:
  "read_inputs sample_env sample_fs (sample_cli output) =
     Ok (\<lparr>matches = [sample_match ''C'' ''pkg'']\<rparr>, [\<lparr>components = Some [\<lparr>component_purl = None\<rparr>]\<rparr>],
         {''A''}, ''2026-01-01T00:00:00Z'')"
proof -
  have "read_file_capped sample_fs ''g'' = Ok (bytes_of_string ''C pkg'')"
    by (simp add: read_file_capped_Ok_iff sample_fs_def MAX_INPUT_FILE_BYTES_def)
  moreover have "grype_from_slice line_json (bytes_of_string ''C pkg'') =
      Ok \<lparr>matches = [sample_match ''C'' ''pkg'']\<rparr>"
    by (simp add: line_json_def text_lines_def line_match_def optional_text_def sample_match_def)
  moreover have "load_triaged_from_vex_dir line_json sample_fs (env_dirs sample_env) ''v'' = Ok {''A''}"
  proof -
    have "read_file_capped sample_fs (path_join ''v'' ''a.json'') = Ok (bytes_of_string ''A'')"
      by (simp add: read_file_capped_Ok_iff sample_statement_file MAX_INPUT_FILE_BYTES_def)
    then show ?thesis
      by (simp add: load_triaged_from_vex_dir_def sample_env_def sample_statement_files sample_document
          presence_statement_def)
  qed
  ultimately show ?thesis
    using sample_sboms by (simp add: read_inputs_def now_rfc3339_def sample_cli_def sample_env_def)
qed

lemma sample_statements:
  "compute_presence_vex \<lparr>matches = [sample_match ''C'' ''pkg'']\<rparr>
     [\<lparr>components = Some [\<lparr>component_purl = None\<rparr>]\<rparr>] {''A''} p t = [presence_statement p t ''C'']"
  by (simp add: compute_presence_vex_def presence_step_def sample_match_def sbom_purls_def
      List.map_filter_def btree_contains_key_def btree_into_values_def Let_def)

lemma sample_run:
  "run sample_env (sample_cli (Some path)) sample_world =
     (if path = ''out'' then (Ok (), sample_world\<lparr>
        vw_fs := sample_fs(''out'' \<mapsto> File (bytes_of_string (''C'' @ [CHR 10, CHR 10]))),
        vw_stderr := summary_line 1 1 1 ''v''\<rparr>)
      else (Err (WriteOutput path AccessDenied), sample_world))"
proof -
  let ?cli = "sample_cli (Some path)"
  have i: "read_inputs sample_env (vw_fs sample_world) ?cli =
    Ok (\<lparr>matches = [sample_match ''C'' ''pkg'']\<rparr>, [\<lparr>components = Some [\<lparr>component_purl = None\<rparr>]\<rparr>],
         {''A''}, ''2026-01-01T00:00:00Z'')"
    using sample_inputs by (simp add: sample_world_def)
  have d: "document_to_string_pretty (env_json sample_env) (build_document
      (compute_presence_vex \<lparr>matches = [sample_match ''C'' ''pkg'']\<rparr>
        [\<lparr>components = Some [\<lparr>component_purl = None\<rparr>]\<rparr>] {''A''} (cli_product_purl ?cli)
        ''2026-01-01T00:00:00Z'') (cli_id ?cli) (cli_author ?cli) ''2026-01-01T00:00:00Z'') =
      Ok (''C'' @ [CHR 10])"
    by (simp add: sample_statements) (simp add: sample_env_def line_json_def presence_statement_def)
  show ?thesis
    unfolding run_eq [OF i d] sample_statements
    by (auto simp: sample_cli_def sample_env_def bindR_apply map_err_apply fs_write_def print_err_def
        sample_world_def)
qed

theorem run_writes_the_document_witness:
  "\<exists>w'. run sample_env (sample_cli (Some ''out'')) sample_world = (Ok (), w') \<and>
     vw_stdout w' = [] \<and> (\<exists>body. vw_fs w' = sample_fs(''out'' \<mapsto> File (bytes_of_string (body @ [CHR 10]))))"
proof -
  obtain w' where r: "run sample_env (sample_cli (Some ''out'')) sample_world = (Ok (), w')"
    by (simp add: sample_run)
  then show ?thesis
    using run_writes_the_document [OF r] by (auto simp: sample_cli_def sample_world_def)
qed

text \<open>
  A failing run leaves nothing behind: no file is written and nothing is printed
  before the error, and the exit code is 1.
\<close>

theorem failing_run_changes_nothing:
  assumes "run E cli w = (Err e, w')"
  shows "w' = w \<and> vex_main E cli w = 1"
  using run_Err_same_world [OF assms] assms by (simp add: vex_main_def)

theorem failing_run_changes_nothing_witness:
  "vex_main sample_env (sample_cli (Some ''/etc/x'')) sample_world = 1"
  using failing_run_changes_nothing [of sample_env "sample_cli (Some ''/etc/x'')" sample_world
      "WriteOutput ''/etc/x'' AccessDenied" sample_world]
  by (simp add: sample_run)

end
