(* ===== verification/Effects.thy ===== *)
theory Effects
  imports App
begin

text \<open>
  What a whole function does to the world, from what its calls do to it. A
  computation \<open>evolves\<close> along a relation when the worlds before and after it are
  related, however it ends: with a value, an error or a panic. The rules in
  \<open>evolves_rules\<close> follow the combinators of the model, so that the code of a
  function is also the outline of its proof.
\<close>

named_theorems evolves_rules

section \<open>Computations and relations between worlds\<close>

definition evolves :: "('w \<Rightarrow> 'w \<Rightarrow> bool) \<Rightarrow> ('w, 'a, 'e) rs \<Rightarrow> bool" where
  "evolves R m = (\<forall>w. R w (snd (m w)))"

text \<open>A relation between worlds, for computations that carry a state of their own beside the world.\<close>

definition beside :: "('w \<Rightarrow> 'w \<Rightarrow> bool) \<Rightarrow> 's \<times> 'w \<Rightarrow> 's \<times> 'w \<Rightarrow> bool" where
  "beside R a b = R (snd a) (snd b)"

text \<open>The relations that compose: nothing happening is related, and one change after another.\<close>

locale evolution =
  fixes R :: "'w \<Rightarrow> 'w \<Rightarrow> bool"
  assumes stays: "R w w" and goes_on: "R a b \<Longrightarrow> R b c \<Longrightarrow> R a c"
begin

lemma evolves_ret [evolves_rules]: "evolves R (ret x)"
  by (simp add: evolves_def stays)

lemma evolves_lift [evolves_rules]: "evolves R (lift r)"
  by (simp add: evolves_def stays)

lemma evolves_read [evolves_rules]: "evolves R (\<lambda>w. (f w, w))"
  by (simp add: evolves_def stays)

lemma evolves_bindR [evolves_rules]:
  "evolves R m \<Longrightarrow> (\<And>x. evolves R (f x)) \<Longrightarrow> evolves R (bindR m f)"
  by (auto simp: evolves_def bindR_def split: prod.split outcome.split) (metis goes_on snd_conv)+

lemma evolves_map_err [evolves_rules]: "evolves R m \<Longrightarrow> evolves R (map_err g m)"
  by (simp add: evolves_def map_err_apply)

lemma evolves_attempt [evolves_rules]: "evolves R m \<Longrightarrow> evolves R (attempt m)"
  by (auto simp: evolves_def attempt_def split: prod.split outcome.split) (metis snd_conv)+

lemma evolution_beside: "evolution (beside R)"
  by unfold_locales (auto simp: beside_def stays intro: goes_on)

lemma evolves_reachable:
  assumes "r\<^sup>*\<^sup>* a b" and "\<And>x y. r x y \<Longrightarrow> R (f x) (f y)"
  shows "R (f a) (f b)"
  using assms(1) by (induction rule: rtranclp_induct) (auto intro: stays goes_on assms(2))

end

section \<open>Branches and local state\<close>

lemma evolves_case_prod [evolves_rules]:
  "(\<And>a b. evolves R (f a b)) \<Longrightarrow> evolves R (case x of (a, b) \<Rightarrow> f a b)"
  by (cases x) simp

lemma evolves_case_outcome [evolves_rules]:
  "(\<And>a. evolves R (f a)) \<Longrightarrow> (\<And>e. evolves R (g e)) \<Longrightarrow> (\<And>s. evolves R (h s)) \<Longrightarrow>
   evolves R (case x of Ok a \<Rightarrow> f a | Err e \<Rightarrow> g e | Panic s \<Rightarrow> h s)"
  by (cases x) simp_all

lemma evolves_case_option [evolves_rules]:
  "evolves R m \<Longrightarrow> (\<And>a. evolves R (f a)) \<Longrightarrow> evolves R (case x of None \<Rightarrow> m | Some a \<Rightarrow> f a)"
  by (cases x) simp_all

lemma evolves_if [evolves_rules]: "evolves R m \<Longrightarrow> evolves R n \<Longrightarrow> evolves R (if b then m else n)"
  by simp

lemma evolves_Let [evolves_rules]: "evolves R (f x) \<Longrightarrow> evolves R (Let x f)"
  by simp

lemma evolves_beside:
  "(\<And>s w. R w (snd (snd (m (s, w))))) \<Longrightarrow> evolves (beside R) m"
  by (simp add: evolves_def beside_def)

lemma beside_run: "evolves (beside R) m \<Longrightarrow> R w (snd (snd (m (s, w))))"
  by (simp add: evolves_def beside_def)

lemma evolves_on_world: "evolves R m \<Longrightarrow> evolves (beside R) (on_world m)"
  by (auto simp: evolves_def beside_def on_world_def split: prod.split) (metis snd_conv)

lemma evolves_bindR_lift:
  "(\<And>x. r = Ok x \<Longrightarrow> evolves R (f x)) \<Longrightarrow> (\<And>w. R w w) \<Longrightarrow> evolves R (bindR (lift r) f)"
  by (cases r) (auto simp: evolves_def bindR_def)

lemma evolves_mono: "evolves R m \<Longrightarrow> (\<And>a b. R a b \<Longrightarrow> R' a b) \<Longrightarrow> evolves R' m"
  by (simp add: evolves_def)

lemma evolves_here: "(\<And>v. evolves R (f v)) \<Longrightarrow> evolves R (\<lambda>w. f w w)"
  by (simp add: evolves_def)

text \<open>How a sequence ended: in its first part, or in the second after the first succeeded.\<close>

lemma bindR_runE:
  assumes "bindR m f s = (r, s')"
  obtains (ok) x s1 where "m s = (Ok x, s1)" "f x s1 = (r, s')"
  | (stop) r1 where "m s = (r1, s')" "\<not> is_ok r1" "\<not> is_ok r"
  using assms by (auto simp: bindR_apply split: prod.splits outcome.splits)

section \<open>Computations that do not panic\<close>

named_theorems calm_rules

text \<open>
  An outcome that is not a panic; code none of whose runs panics; the values that code
  can return. The rule for sequencing lets what follows use what came before.
\<close>

definition returns :: "('a, 'e) outcome \<Rightarrow> bool" where
  "returns r = (\<not> is_panic r)"

lemma returns_iff [simp]: "returns (Ok x)" "returns (Err e)" "\<not> returns (Panic s)"
  by (simp_all add: returns_def)

definition calm :: "('w, 'a, 'e) rs \<Rightarrow> bool" where
  "calm m = (\<forall>w. returns (fst (m w)))"

definition yields :: "('w, 'a, 'e) rs \<Rightarrow> 'a \<Rightarrow> bool" where
  "yields m x = (\<exists>w w'. m w = (Ok x, w'))"

lemma calm_ret [calm_rules]: "calm (ret x)"
  by (simp add: calm_def)

lemma calm_lift [calm_rules]: "returns r \<Longrightarrow> calm (lift r)"
  by (simp add: calm_def)

lemma calmD: "calm m \<Longrightarrow> m w = (r, w') \<Longrightarrow> returns r"
  by (metis calm_def fst_conv)

lemma calmI: "(\<And>w r w'. m w = (r, w') \<Longrightarrow> returns r) \<Longrightarrow> calm m"
  by (metis calm_def surjective_pairing)

lemma calm_bindR [calm_rules]:
  assumes "calm m" and "\<And>x. yields m x \<Longrightarrow> calm (f x)"
  shows "calm (bindR m f)"
proof -
  have "returns (fst (bindR m f w))" for w
  proof (cases "m w")
    case (Pair r w')
    from calmD [OF assms(1) Pair] assms(2) Pair show ?thesis
      by (cases r) (auto simp: bindR_apply calm_def yields_def)
  qed
  then show ?thesis by (simp add: calm_def)
qed

lemma returns_map_err [calm_rules]: "returns r \<Longrightarrow> returns (omap_err g r)"
  by (cases r) simp_all

lemma returns_bind [calm_rules]: "returns r \<Longrightarrow> (\<And>x. r = Ok x \<Longrightarrow> returns (f x)) \<Longrightarrow> returns (obind r f)"
  by (cases r) simp_all

lemma returns_ok_or [calm_rules]: "returns (ok_or e y)"
  by (cases y) simp_all

declare returns_iff(1,2) [calm_rules]

lemma returns_if [calm_rules]:
  "(b \<Longrightarrow> returns r) \<Longrightarrow> (\<not> b \<Longrightarrow> returns s) \<Longrightarrow> returns (if b then r else s)"
  by simp

lemma returns_Let [calm_rules]: "returns (f x) \<Longrightarrow> returns (Let x f)"
  by simp

lemma calm_map_err [calm_rules]: "calm m \<Longrightarrow> calm (map_err g m)"
  by (simp add: calm_def map_err_apply returns_map_err)

lemma calm_attempt [calm_rules]: "calm m \<Longrightarrow> calm (attempt m)"
  by (rule calmI) (auto simp: attempt_def dest: calmD split: prod.splits outcome.splits)

lemma calm_case_prod [calm_rules]:
  "(\<And>a b. x = (a, b) \<Longrightarrow> calm (f a b)) \<Longrightarrow> calm (case x of (a, b) \<Rightarrow> f a b)"
  by (cases x) simp

lemma calm_case_option [calm_rules]:
  "calm m \<Longrightarrow> (\<And>a. calm (f a)) \<Longrightarrow> calm (case x of None \<Rightarrow> m | Some a \<Rightarrow> f a)"
  by (cases x) simp_all

lemma calm_case_outcome [calm_rules]:
  "(\<And>a. calm (f a)) \<Longrightarrow> (\<And>e. calm (g e)) \<Longrightarrow> (\<And>s. calm (h s)) \<Longrightarrow>
   calm (case x of Ok a \<Rightarrow> f a | Err e \<Rightarrow> g e | Panic s \<Rightarrow> h s)"
  by (cases x) simp_all

lemma calm_if [calm_rules]: "calm m \<Longrightarrow> calm n \<Longrightarrow> calm (if b then m else n)"
  by simp

lemma calm_Let [calm_rules]: "calm (f x) \<Longrightarrow> calm (Let x f)"
  by simp

lemma calm_read: "(\<And>w. returns (f w)) \<Longrightarrow> calm (\<lambda>w. (f w, w))"
  by (simp add: calm_def)

lemma calm_on_world: "calm m \<Longrightarrow> calm (on_world m)"
  by (rule calmI) (auto simp: on_world_def dest: calmD split: prod.splits)

lemma calm_then_ret: "calm m \<Longrightarrow> returns (fst (bindR m (\<lambda>x. ret (f x)) h))"
  using calm_bindR [of m "\<lambda>x. ret (f x)", OF _ calm_ret] by (simp add: calm_def)

lemma yields_attempt: "yields (attempt m) r \<Longrightarrow> returns r"
  by (auto simp: yields_def attempt_Ok_iff returns_def)

lemma yields_map_err [dest]: "yields (map_err g m) x \<Longrightarrow> yields m x"
  by (simp add: yields_def map_err_Ok_iff)

lemma yields_bindR: "yields (bindR m f) x \<Longrightarrow> \<exists>y. yields m y \<and> yields (f y) x"
  by (auto simp: yields_def bindR_Ok_iff)

end
