(* ===== verification/Tpm_Frame.thy ===== *)
theory Tpm_Frame
  imports Effects Kms_Run
begin

text \<open>
  What the operations of sceau leave as it was. If every command of the TPM crate,
  and every call of the other crates, changes the world only along a relation, then
  so do the sealer, the KMS handlers in any interleaving, the enrollment service and
  the subcommands. Nothing is assumed of what the calls return: the lemmas hold with
  a TPM that refuses or fails at any point.
\<close>

text \<open>The requests that the enrollment server passes to the handler, one after the other.\<close>

definition enroll_request ::
  "'w tss \<Rightarrow> 'w pki \<Rightarrow> 'w kube \<Rightarrow> 'w enroll_world \<Rightarrow> 'w enroll_world \<Rightarrow> bool" where
  "enroll_request X P K a b = (\<exists>req. b = snd (duplicate X P K req a))"

text \<open>Persistent keys: all as they were, and all but the one at the handle of the fleet key.\<close>

definition same_storage :: "('w \<Rightarrow> 'k tpm_view) \<Rightarrow> 'w \<Rightarrow> 'w \<Rightarrow> bool" where
  "same_storage view w w' = (v_nv (view w') = v_nv (view w))"

definition same_beside_fleet :: "('w \<Rightarrow> 'k tpm_view) \<Rightarrow> 'w \<Rightarrow> 'w \<Rightarrow> bool" where
  "same_beside_fleet view w w' = (\<forall>h. h \<noteq> FLEET_KEY_PERSISTENT_HANDLE \<longrightarrow> v_nv (view w') h = v_nv (view w) h)"

fun writes_fleet_key :: "Command \<Rightarrow> bool" where
  "writes_fleet_key (Genesis force) = True"
| "writes_fleet_key (Join seed dir) = True"
| "writes_fleet_key command = False"

section \<open>The commands that leave persistent keys alone\<close>

text \<open>
  The promise of the TPM crate: every command changes the world along \<open>R\<close>, whatever it
  returns. \<open>EvictControl\<close> is not among them.
\<close>

locale tpm_frame = evolution R for R :: "'w \<Rightarrow> 'w \<Rightarrow> bool" +
  fixes X :: "'w tss"
  assumes
    frame_context_new [evolves_rules]: "\<And>tc. evolves R (context_new X tc)" and
    frame_nullauth_begin [evolves_rules]: "\<And>c. evolves R (nullauth_begin X c)" and
    frame_nullauth_end [evolves_rules]: "\<And>c s. evolves R (nullauth_end X c s)" and
    frame_set_session: "\<And>c t w. R w (set_session X c t w)" and
    frame_start_auth_session [evolves_rules]: "\<And>c st alg hash. evolves R (start_auth_session X c st alg hash)" and
    frame_tr_sess_set_attributes [evolves_rules]: "\<And>c s a b. evolves R (tr_sess_set_attributes X c s a b)" and
    frame_policy_command_code [evolves_rules]: "\<And>c p code. evolves R (policy_command_code X c p code)" and
    frame_policy_get_digest [evolves_rules]: "\<And>c p. evolves R (policy_get_digest X c p)" and
    frame_flush_context [evolves_rules]: "\<And>c h. evolves R (flush_context X c h)" and
    frame_create_primary [evolves_rules]: "\<And>c hier t. evolves R (create_primary X c hier t)" and
    frame_read_public [evolves_rules]: "\<And>c k. evolves R (read_public X c k)" and
    frame_create [evolves_rules]: "\<And>c k t sens. evolves R (create X c k t sens)" and
    frame_load [evolves_rules]: "\<And>c k priv pub. evolves R (load X c k priv pub)" and
    frame_unseal_object [evolves_rules]: "\<And>c h. evolves R (unseal_object X c h)" and
    frame_load_external_public [evolves_rules]: "\<And>c pub hier. evolves R (load_external_public X c pub hier)" and
    frame_duplicate_object [evolves_rules]: "\<And>c h n d alg. evolves R (duplicate_object X c h n d alg)" and
    frame_import_object [evolves_rules]: "\<And>c h d pub priv sec alg. evolves R (import_object X c h d pub priv sec alg)" and
    frame_tr_from_tpm_public [evolves_rules]: "\<And>c ph. evolves R (tr_from_tpm_public X c ph)"
begin

lemma evolves_nullauth [evolves_rules]: "evolves R f \<Longrightarrow> evolves R (execute_with_nullauth_session X conv c f)"
  unfolding execute_with_nullauth_session_def by (intro evolves_rules)

lemma evolves_with_session [evolves_rules]: "evolves R f \<Longrightarrow> evolves R (execute_with_session X c s f)"
  by (auto simp: evolves_def execute_with_session_def Let_def split: prod.split outcome.split)
    (metis frame_set_session goes_on snd_conv)+

lemma evolves_without_session [evolves_rules]: "evolves R f \<Longrightarrow> evolves R (execute_without_session X c f)"
  unfolding execute_without_session_def by (intro evolves_rules)

lemma frame_start_session [evolves_rules]: "evolves R (start_session X c st)"
  unfolding start_session_def by (intro evolves_rules)

lemma frame_template [evolves_rules]: "evolves R (duplicable_storage_public X c)"
  unfolding duplicable_storage_public_def duplication_auth_policy_digest_def by (intro evolves_rules)

lemma frame_load_fleet_key [evolves_rules]: "evolves R (load_fleet_key X c)"
  unfolding load_fleet_key_def by (intro evolves_rules)

lemma frame_create_transport_key [evolves_rules]: "evolves R (create_transport_key X c)"
  unfolding create_transport_key_def by (intro evolves_rules)

lemma frame_duplicate_for_joiner [evolves_rules]: "evolves R (duplicate_for_joiner X c h p)"
  unfolding duplicate_for_joiner_def duplication_auth_policy_session_def by (intro evolves_rules)

lemma frame_TpmSealer_new [evolves_rules]: "evolves R (TpmSealer_new X tc)"
  unfolding TpmSealer_new_def by (intro evolves_rules)

lemma frame_TpmSealer_from_primary [evolves_rules]: "evolves R (TpmSealer_from_primary X c h)"
  unfolding TpmSealer_from_primary_def by (intro evolves_rules)

lemma frame_seal [evolves_rules]: "evolves R (seal X s d)"
  unfolding seal_def by (intro evolves_rules)

lemma frame_unseal [evolves_rules]: "evolves R (unseal X s ct)"
  unfolding unseal_def by (intro evolves_rules)

lemma frame_TpmSealer_drop: "R w (TpmSealer_drop X s w)"
  using evolves_nullauth [OF frame_flush_context, of id "sealer_context s"]
  by (simp add: TpmSealer_drop_def evolves_def stays)

lemma frame_drop_opt: "R w (drop_opt X s w)"
  by (simp add: drop_opt_def stays frame_TpmSealer_drop split: option.split)

lemma frame_dropping [evolves_rules]: "evolves R (dropping X s)"
  by (simp add: dropping_def evolves_def frame_TpmSealer_drop)

lemma frame_build_sealer [evolves_rules]: "evolves R (build_sealer X tc)"
  unfolding build_sealer_def by (intro evolves_rules)

lemma frame_serve_sealers [evolves_rules]: "evolves R (serve_sealers X tc force)"
  unfolding serve_sealers_def by (intro evolves_rules)

lemma frame_run_status [evolves_rules]: "evolves R (run_status X tcti)"
  unfolding run_status_def by (intro evolves_rules)

lemma frame_with_sealer: "(\<And>s. evolves R (body s)) \<Longrightarrow> evolves (beside R) (with_sealer body)"
  by (rule evolves_beside) (auto simp: with_sealer_def evolves_def stays split: prod.split outcome.split; metis snd_conv)

lemma frame_with_legacy_sealer: "(\<And>s. evolves R (body s)) \<Longrightarrow> evolves (beside R) (with_legacy_sealer l body)"
  by (rule evolves_beside) (auto simp: with_legacy_sealer_def evolves_def stays split: prod.split outcome.split; metis snd_conv)

lemma frame_encrypt: "evolves (beside R) (encrypt X req)"
  unfolding encrypt_def by (intro frame_with_sealer evolves_rules)

lemma frame_decrypt_with [evolves_rules]: "evolves R (decrypt_with X req s)"
  unfolding decrypt_with_def by (intro evolves_rules)

lemma frame_preferred: "evolves (beside R) (with_sealer (decrypt_with X req))"
  by (intro frame_with_sealer evolves_rules)

lemma frame_fallback: "evolves (beside R) (with_legacy_sealer l (decrypt_with X req))"
  by (intro frame_with_legacy_sealer evolves_rules)

lemma frame_decrypt: "evolves (beside R) (decrypt X req)"
proof -
  have "evolves (beside R) (\<lambda>(self, w). case kms_legacy_sealer self of
      Some legacy \<Rightarrow> with_legacy_sealer legacy (decrypt_with X req) (self, w) | None \<Rightarrow> (Ok None, (self, w)))"
    using beside_run [OF frame_fallback] by (intro evolves_beside) (auto simp: stays split: option.split)
  then show ?thesis
    unfolding decrypt_def
    by (intro evolution.evolves_bindR [OF evolution_beside] evolves_case_option evolution.evolves_ret [OF evolution_beside]
        evolution.evolves_lift [OF evolution_beside] frame_preferred)
qed

text \<open>Whatever the requests of a run of the service do.\<close>

lemma frame_kms_step:
  assumes "kms_step X admitted s s'"
  shows "R (kr_world s) (kr_world s')"
  using assms
proof (cases rule: kms_step.cases)
  case (encrypt_ends i ereq er self w)
  with beside_run [OF frame_encrypt, of "kr_world s" ereq "kr_service s"] show ?thesis by simp
next
  case (decrypt_unlocks i dreq dr self w)
  with beside_run [OF frame_preferred, of "kr_world s" dreq "kr_service s"] show ?thesis by simp
next
  case (legacy_unlocks i dreq legacy dr self w)
  with beside_run [OF frame_fallback, of "kr_world s" legacy dreq "kr_service s"] show ?thesis by simp
qed (simp_all add: stays)

end

section \<open>The servers and the other crates\<close>

text \<open>
  The promise of the other crates. The servers may do anything that a sequence of
  requests to the handlers does, in every interleaving of the KMS requests.
\<close>

locale node_frame = tpm_frame R X for R :: "'w \<Rightarrow> 'w \<Rightarrow> bool" and X :: "'w tss" +
  fixes P :: "'w pki" and K :: "'w kube" and L :: "'w listener" and D :: "'w dialer" and V :: "'w kms_server"
  assumes
    frame_key_pair_generate [evolves_rules]: "evolves R (key_pair_generate P)" and
    frame_kube_get_node [evolves_rules]: "\<And>client node. evolves R (kube_get_node K client node)" and
    frame_kubeconfig_read_from [evolves_rules]: "\<And>path. evolves R (kubeconfig_read_from L path)" and
    frame_config_from_custom_kubeconfig [evolves_rules]:
      "\<And>kubeconfig. evolves R (config_from_custom_kubeconfig L kubeconfig)" and
    frame_endpoint_connect [evolves_rules]: "\<And>e. evolves R (endpoint_connect D e)" and
    frame_client_duplicate [evolves_rules]: "\<And>ch req. evolves R (client_duplicate D ch req)" and
    listener_runs_handler: "\<And>addr tls timeout self w. \<exists>self'. (enroll_request X P K)\<^sup>*\<^sup>* (self, w)
      (self', snd (listener_run L addr tls timeout self w))" and
    server_runs_handlers: "\<And>self fs w. \<exists>s. (kms_step X (\<lambda>_. True))\<^sup>*\<^sup>* (kms_start self w) s \<and>
      kr_world s = snd (snd (serve_with_incoming_shutdown V self (fs, w)))"
begin

lemma frame_authorize_node [evolves_rules]: "evolves R (authorize_node K client node)"
  unfolding authorize_node_def by (intro evolves_rules)

lemma frame_with_context: "(\<And>c. evolves R (body c)) \<Longrightarrow> evolves (beside R) (with_context body)"
  by (rule evolves_beside) (auto simp: with_context_def evolves_def stays split: prod.split outcome.split; metis snd_conv)

lemma frame_handle_duplicate: "evolves (beside R) (handle_duplicate X P K request)"
proof -
  have "evolves (beside R) (\<lambda>(self, w). on_world (map_err f (authorize_node K (es_kube_client self) node)) (self, w))"
    for f :: "AuthzError \<Rightarrow> enroll_status" and node
    using beside_run [OF evolves_on_world, OF evolves_map_err, OF frame_authorize_node] by (intro evolves_beside) simp
  moreover have "evolves (beside R) (\<lambda>(self, w). with_context (\<lambda>context. map_err f
      (duplicate_for_joiner X context (es_fleet_key_handle self) p)) (self, w))"
    for f :: "FleetError \<Rightarrow> enroll_status" and p
    using beside_run [OF frame_with_context, OF evolves_map_err, OF frame_duplicate_for_joiner]
    by (intro evolves_beside) simp
  ultimately show ?thesis
    unfolding handle_duplicate_def
    by (intro evolution.evolves_bindR [OF evolution_beside] evolution.evolves_lift [OF evolution_beside])
qed

lemma frame_duplicate: "evolves (beside R) (duplicate X P K request)"
proof (rule evolves_beside)
  fix self w
  show "R w (snd (snd (duplicate X P K request (self, w))))"
    using beside_run [OF frame_handle_duplicate, of w request "self\<lparr>es_remaining := es_remaining self - 1\<rparr>"]
    by (auto simp: duplicate_def take_permit_def Let_def stays split: prod.split outcome.split)
qed

lemma frame_listener_run [evolves_rules]: "evolves R (listener_run L addr tls timeout self)"
proof -
  have "R w (snd (listener_run L addr tls timeout self w))" for w
  proof -
    obtain self' where "(enroll_request X P K)\<^sup>*\<^sup>* (self, w) (self', snd (listener_run L addr tls timeout self w))"
      using listener_runs_handler by blast
    then have "R (snd (self, w)) (snd (self', snd (listener_run L addr tls timeout self w)))"
      by (rule evolves_reachable) (use frame_duplicate in \<open>auto simp: enroll_request_def evolves_def beside_def\<close>)
    then show ?thesis by simp
  qed
  then show ?thesis by (simp add: evolves_def)
qed

lemma frame_run_enroll [evolves_rules]: "evolves R (run_enroll X P L fs listen max_requests timeout tcti dir)"
  unfolding run_enroll_def enroll_tls_def enroll_kube_client_def mint_enroll_server_identity_def
  by (intro evolves_rules)

lemma frame_join_channel [evolves_rules]: "evolves R (join_channel D fs seed dir)"
  unfolding join_channel_def by (intro evolves_rules)

lemma frame_serve_until_shutdown: "evolves (beside R) (serve_until_shutdown X V sealers)"
proof (rule evolves_beside)
  fix fs w
  obtain s where r: "(kms_step X (\<lambda>_. True))\<^sup>*\<^sup>* (kms_start (serve_service sealers) w) s"
    and s: "kr_world s = snd (snd (serve_with_incoming_shutdown V (serve_service sealers) (fs, w)))"
    using server_runs_handlers by blast
  have "R w (kr_world s)"
    using evolves_reachable [OF r, where f = kr_world, OF frame_kms_step] by (simp add: kms_start_def)
  then have "R w (drop_opt X (snd sealers) (TpmSealer_drop X (fst sealers) (kr_world s)))"
    by (rule goes_on [OF _ goes_on [OF frame_TpmSealer_drop frame_drop_opt]])
  then show "R w (snd (snd (serve_until_shutdown X V sealers (fs, w))))"
    by (auto simp: s serve_until_shutdown_def map_err_apply split: prod.split)
qed

lemma frame_on_fs: "evolves (beside R) (on_fs m)"
  by (intro evolves_beside) (simp add: on_fs_def stays split: prod.split)

lemma frame_or_drop:
  assumes "evolves (beside R) m"
  shows "evolves (beside R) (or_drop X sealers m)"
proof (rule evolves_beside)
  fix fs w
  obtain r fs' w' where m: "m (fs, w) = (r, (fs', w'))" by (metis surj_pair)
  with beside_run [OF assms, of w fs] have "R w w'" by simp
  moreover have "R w' (TpmSealer_drop X (fst sealers) (drop_opt X (snd sealers) w'))"
    by (rule goes_on [OF frame_drop_opt frame_TpmSealer_drop])
  ultimately show "R w (snd (snd (or_drop X sealers m (fs, w))))"
    by (cases r) (simp_all add: or_drop_def m goes_on [of w w'])
qed

lemma frame_run_serve: "evolves (beside R) (run_serve X V umask_mode tcti socket force_legacy)"
  unfolding run_serve_def
  by (intro evolution.evolves_bindR [OF evolution_beside] evolution.evolves_lift [OF evolution_beside]
      evolution.evolves_ret [OF evolution_beside] frame_on_fs frame_or_drop frame_serve_until_shutdown
      evolves_on_world frame_serve_sealers)

end

section \<open>The commands that change persistent keys\<close>

text \<open>With the command that makes keys persistent, at the handle that the sources give it.\<close>

locale writer_frame = node_frame +
  assumes frame_evict_control: "\<And>c p h ph. persistent_tpm_handle_new X FLEET_KEY_PERSISTENT_HANDLE = Ok ph \<Longrightarrow>
    evolves R (evict_control X c p h ph)"
begin

lemma frame_persist [evolves_rules]: "evolves R (persist X c h)"
  unfolding persist_def
  by (rule evolves_bindR_lift [OF _ stays]) (intro evolves_rules frame_evict_control, simp)

lemma frame_delete [evolves_rules]: "evolves R (delete_persisted_fleet_key X c)"
proof -
  have "evolves R (bindR (lift (omap_err FleetTss (persistent_tpm_handle_new X FLEET_KEY_PERSISTENT_HANDLE)))
      (\<lambda>ph. bindR (map_err FleetTss (execute_with_nullauth_session X id c
        (evict_control X c ProvisionOwner h ph))) (\<lambda>_. ret ())))" for h
    by (rule evolves_bindR_lift [OF _ stays]) (intro evolves_rules frame_evict_control, simp)
  then show ?thesis
    unfolding delete_persisted_fleet_key_def
    by (intro evolves_bindR [OF evolves_attempt [OF frame_load_fleet_key]] evolves_case_outcome evolves_ret)
qed

lemma frame_create_fleet_key [evolves_rules]: "evolves R (create_fleet_key X c force)"
  unfolding create_fleet_key_def create_new_fleet_key_def by (intro evolves_rules)

lemma frame_import_and_persist [evolves_rules]: "evolves R (import_and_persist X c h blob)"
  unfolding import_and_persist_def by (intro evolves_rules)

lemma frame_run_genesis [evolves_rules]: "evolves R (run_genesis X tcti force)"
  unfolding run_genesis_def by (intro evolves_rules)

lemma frame_run_join [evolves_rules]: "evolves R (run_join X D fs seed tcti dir)"
  unfolding run_join_def by (intro evolves_rules)

end

section \<open>Persistent keys\<close>

lemma evolution_same_storage: "evolution (same_storage view)"
  by unfold_locales (simp_all add: same_storage_def)

lemma evolution_same_beside_fleet: "evolution (same_beside_fleet view)"
  by unfold_locales (simp_all add: same_beside_fleet_def)

lemma same_storage_beside_fleet: "same_storage view w w' \<Longrightarrow> same_beside_fleet view w w'"
  by (simp add: same_storage_def same_beside_fleet_def)

lemma tpm_frame_mono:
  assumes "tpm_frame R X" and "evolution R'" and "\<And>a b. R a b \<Longrightarrow> R' a b"
  shows "tpm_frame R' X"
proof -
  note laws = assms(1) [unfolded tpm_frame_def tpm_frame_axioms_def]
  show ?thesis
    using assms(2) laws unfolding tpm_frame_def tpm_frame_axioms_def
    by (auto intro: evolves_mono [of R] assms(3))
qed

lemma node_frame_mono:
  assumes "node_frame R X P K L D V" and "evolution R'" and "\<And>a b. R a b \<Longrightarrow> R' a b"
  shows "node_frame R' X P K L D V"
proof -
  note laws = assms(1) [unfolded node_frame_def node_frame_axioms_def]
  have "tpm_frame R' X" using laws assms(2,3) by (blast intro: tpm_frame_mono)
  then show ?thesis
    using laws unfolding node_frame_def node_frame_axioms_def
    by (auto intro: evolves_mono [of R] assms(3))
qed

text \<open>
  The promise about persistent keys: no command but \<open>EvictControl\<close> touches them, and that
  one only the handle it is given. It makes \<open>writer_frame\<close> hold for the keys at all other
  handles.
\<close>

locale key_storage = node_frame "same_storage view" X P K L D V
  for view :: "'w \<Rightarrow> 'k tpm_view" and X P K L D V +
  assumes
    evict_keeps_other_handles: "\<And>c p h ph w k. k \<noteq> ph \<Longrightarrow>
      v_nv (view (snd (evict_control X c p h ph w))) k = v_nv (view w) k" and
    persistent_handle_is_its_number: "\<And>n ph. persistent_tpm_handle_new X n = Ok ph \<Longrightarrow> ph = n"
begin

lemma evict_beside_fleet:
  assumes "persistent_tpm_handle_new X FLEET_KEY_PERSISTENT_HANDLE = Ok ph"
  shows "evolves (same_beside_fleet view) (evict_control X c p h ph)"
  using persistent_handle_is_its_number [OF assms] evict_keeps_other_handles
  by (simp add: evolves_def same_beside_fleet_def)

end

sublocale key_storage \<subseteq> fleet_slot: writer_frame "same_beside_fleet view" X P K L D V
  using node_frame_mono [OF node_frame_axioms evolution_same_beside_fleet same_storage_beside_fleet] evict_beside_fleet
  by (intro writer_frame.intro writer_frame_axioms.intro)

context key_storage
begin

lemma main_keeps_storage:
  assumes "\<not> writes_fleet_key (cli_command cli)"
  shows "evolves (beside (same_storage view)) (sceau_main X P L D V umask_mode cli)"
proof (rule evolves_beside)
  fix fs w
  note rules = evolution.evolves_bindR [OF evolution_beside] evolution.evolves_ret [OF evolution_beside]
    evolves_on_world evolves_map_err
  show "same_storage view w (snd (snd (sceau_main X P L D V umask_mode cli (fs, w))))"
    using assms
    by (cases "cli_command cli")
      (simp_all add: sceau_main_def beside_run [OF rules(1) [OF evolves_on_world rules(2)]]
        beside_run [OF rules(1) [OF frame_run_serve rules(2)]]
        frame_run_enroll frame_run_status evolves_map_err)
qed

lemma main_keeps_other_handles:
  "evolves (beside (same_beside_fleet view)) (sceau_main X P L D V umask_mode cli)"
proof (rule evolves_beside)
  fix fs w
  note rules = evolution.evolves_bindR [OF fleet_slot.evolution_beside]
    evolution.evolves_ret [OF fleet_slot.evolution_beside]
  show "same_beside_fleet view w (snd (snd (sceau_main X P L D V umask_mode cli (fs, w))))"
    by (cases "cli_command cli")
      (simp_all add: sceau_main_def beside_run [OF rules(1) [OF evolves_on_world rules(2)]]
        beside_run [OF rules(1) [OF fleet_slot.frame_run_serve rules(2)]]
        fleet_slot.frame_run_enroll fleet_slot.frame_run_status fleet_slot.evolves_map_err
        fleet_slot.frame_run_genesis fleet_slot.frame_run_join)
qed

end

end
