(* ===== verification/Panic_Free.thy ===== *)
theory Panic_Free
  imports Effects Kms_Run Enroll_Spec Tpm_Frame
begin

text \<open>
  sceau does not panic. The code has slices, an \<open>expect\<close> on the marshalled public
  area of a sealed object and a slice of the hex digest; none of them fails when the
  crates keep what they document, and then no lock is ever poisoned. Nothing is
  assumed of whether a call succeeds.
\<close>

text \<open>A request of a run of the service that ended in a panic.\<close>

fun panicked :: "kms_task \<Rightarrow> bool" where
  "panicked (EncryptDone req r) = is_panic r"
| "panicked (DecryptDone req r) = is_panic r"
| "panicked t = False"

lemma yields_nullauth: "yields (execute_with_nullauth_session X conv c f) x \<Longrightarrow> yields f x"
  by (auto simp: yields_def execute_with_nullauth_session_Ok_iff)

section \<open>The TPM crate\<close>

text \<open>
  The TPM crate reports failures as errors, and the public area of an object that the
  TPM has created can be marshalled.
\<close>

locale calm_tss = tss_codec X for X :: "'w tss" +
  assumes
    calm_codec [calm_rules]:
      "\<And>s. returns (tcti_from_str X s)" "\<And>a. returns (object_attributes_build X a)"
      "\<And>q. returns (rsa_parameters_build X q)" "\<And>t. returns (public_build X t)"
      "\<And>p. returns (public_marshall X p)" "\<And>b. returns (public_unmarshall X b)"
      "\<And>b. returns (private_try_from X b)" "\<And>b. returns (sensitive_data_try_from X b)"
      "\<And>b. returns (encrypted_secret_try_from X b)" "\<And>b. returns (data_try_from X b)"
      "\<And>n. returns (persistent_tpm_handle_new X n)" "\<And>s. returns (policy_session_try_from X s)" and
    calm_sessions [calm_rules]:
      "\<And>tc. calm (context_new X tc)" "\<And>c. calm (nullauth_begin X c)" "\<And>c s. calm (nullauth_end X c s)"
      "\<And>c st alg hash. calm (start_auth_session X c st alg hash)"
      "\<And>c s a b. calm (tr_sess_set_attributes X c s a b)" "\<And>c q code. calm (policy_command_code X c q code)"
      "\<And>c q. calm (policy_get_digest X c q)" "\<And>c h. calm (flush_context X c h)" and
    calm_objects [calm_rules]:
      "\<And>c hier t. calm (create_primary X c hier t)" "\<And>c k. calm (read_public X c k)"
      "\<And>c k t d. calm (create X c k t d)" "\<And>c k priv p. calm (load X c k priv p)"
      "\<And>c h. calm (unseal_object X c h)" "\<And>c p hier. calm (load_external_public X c p hier)"
      "\<And>c h n d alg. calm (duplicate_object X c h n d alg)"
      "\<And>c h d p priv sec alg. calm (import_object X c h d p priv sec alg)"
      "\<And>c q h ph. calm (evict_control X c q h ph)" "\<And>c ph. calm (tr_from_tpm_public X c ph)" and
    created_public_marshalls:
      "\<And>c k t d priv p. yields (create X c k t d) (priv, p) \<Longrightarrow> is_ok (public_marshall X p)"
begin

lemma calm_nullauth [calm_rules]: "calm f \<Longrightarrow> calm (execute_with_nullauth_session X conv c f)"
  unfolding execute_with_nullauth_session_def by (intro calm_rules; (assumption | erule yields_attempt))

lemma calm_with_session [calm_rules]: "calm f \<Longrightarrow> calm (execute_with_session X c s f)"
  by (rule calmI) (auto simp: execute_with_session_def Let_def dest: calmD split: prod.splits outcome.splits)

lemma calm_without_session [calm_rules]: "calm f \<Longrightarrow> calm (execute_without_session X c f)"
  unfolding execute_without_session_def by (intro calm_rules)

lemma returns_key_id [calm_rules]: "returns (derive_key_id X name_bytes)"
proof -
  have "length (hex_encode X (sha256 X name_bytes)) = 64"
    by (simp add: hex_length sha256_length)
  moreover have "\<not> is_utf8_continuation (hex_encode X (sha256 X name_bytes) ! 16)"
    using hex_ascii [OF nth_mem, of 16 "sha256 X name_bytes"] calculation by (simp add: is_utf8_continuation_def)
  ultimately show ?thesis by (simp add: derive_key_id_def str_slice_to_def)
qed

lemma returns_templates [calm_rules]: "returns (srk_public X)" "returns (sealed_public X fixed)"
  unfolding srk_public_def sealed_public_def by (intro calm_rules)+

lemma returns_decode [calm_rules]: "returns (envelope_decode X ct)"
proof (cases "\<exists>b1 b2 rest. ct = ENVELOPE_VERSION # b1 # b2 # rest")
  case True
  then show ?thesis by (auto simp: envelope_decode_Cons Let_def intro!: calm_rules)
next
  case False
  then show ?thesis by (subst envelope_decode_malformed) auto
qed

lemma calm_TpmSealer_new [calm_rules]: "calm (TpmSealer_new X tc)"
  unfolding TpmSealer_new_def by (intro calm_rules)

lemma calm_TpmSealer_from_primary [calm_rules]: "calm (TpmSealer_from_primary X c h)"
  unfolding TpmSealer_from_primary_def by (intro calm_rules)

lemma calm_seal [calm_rules]: "calm (seal X s d)"
proof -
  have "returns (envelope_encode X p priv)"
    if "yields (execute_with_nullauth_session X TpmTss (sealer_context s)
        (bindR (lift (sealed_public X (sealer_child_fixed s))) (\<lambda>template.
         map_err TpmTss (create X (sealer_context s) (sealer_primary s) template (Some v))))) (priv, p)"
    for v priv p
  proof -
    from that obtain t where "yields (create X (sealer_context s) (sealer_primary s) t (Some v)) (priv, p)"
      by (auto dest!: yields_nullauth yields_bindR)
    then have "is_ok (public_marshall X p)" by (rule created_public_marshalls)
    then show ?thesis by (cases "public_marshall X p") (simp_all add: envelope_encode_def)
  qed
  then show ?thesis
    unfolding seal_def by (intro calm_rules) simp
qed

lemma calm_unseal [calm_rules]: "calm (unseal X s ct)"
  unfolding unseal_def by (intro calm_rules)

lemma calm_sessions_and_templates [calm_rules]:
  "calm (start_session X c st)" "calm (duplicable_storage_public X c)"
  unfolding start_session_def duplicable_storage_public_def duplication_auth_policy_digest_def
  by (intro calm_rules)+

lemma returns_key_handle [calm_rules]: "returns (key_handle_from h)"
  by (simp add: key_handle_from_def)

lemma calm_fleet_handle [calm_rules]: "calm (load_fleet_key X c)" "calm (persist X c h)"
  unfolding load_fleet_key_def persist_def by (intro calm_rules)+

lemma calm_delete [calm_rules]: "calm (delete_persisted_fleet_key X c)"
  unfolding delete_persisted_fleet_key_def by (intro calm_rules)

lemma calm_create_fleet_key [calm_rules]: "calm (create_fleet_key X c force)"
  unfolding create_fleet_key_def create_new_fleet_key_def by (intro calm_rules)

lemma calm_create_transport_key [calm_rules]: "calm (create_transport_key X c)"
  unfolding create_transport_key_def by (intro calm_rules)

lemma calm_duplicate_for_joiner [calm_rules]: "calm (duplicate_for_joiner X c h p)"
  unfolding duplicate_for_joiner_def duplication_auth_policy_session_def
  by (intro calm_rules; (erule yields_attempt))

lemma calm_import_and_persist [calm_rules]: "calm (import_and_persist X c h blob)"
  unfolding import_and_persist_def by (intro calm_rules; (erule yields_attempt))

lemma calm_build_sealer [calm_rules]: "calm (build_sealer X tc)"
  unfolding build_sealer_def by (intro calm_rules)

lemma calm_serve_sealers [calm_rules]: "calm (serve_sealers X tc force)"
  unfolding serve_sealers_def by (intro calm_rules)

lemma calm_dropping [calm_rules]: "calm (dropping X s)"
  by (simp add: dropping_def calm_def)

lemma calm_run_status [calm_rules]: "calm (run_status X tcti)"
  unfolding run_status_def by (intro calm_rules)

lemma calm_run_genesis [calm_rules]: "calm (run_genesis X tcti force)"
  unfolding run_genesis_def by (intro calm_rules)

text \<open>The handlers: nothing panics under a lock, so no lock is ever poisoned.\<close>

lemma with_sealer_unpoisoned:
  assumes "\<And>s. calm (body s)"
  shows "calm (with_sealer body)" and "fst (snd (with_sealer body (self, w))) = self"
proof -
  show "calm (with_sealer body)"
    by (rule calmI) (auto simp: with_sealer_def dest: calmD [OF assms] split: prod.splits if_splits outcome.splits)
  show "fst (snd (with_sealer body (self, w))) = self"
    by (auto simp: with_sealer_def dest: calmD [OF assms] split: prod.splits outcome.splits)
qed

lemma with_legacy_sealer_unpoisoned:
  assumes "\<And>s. calm (body s)"
  shows "calm (with_legacy_sealer l body)" and "fst (snd (with_legacy_sealer l body (self, w))) = self"
proof -
  show "calm (with_legacy_sealer l body)"
    by (rule calmI) (auto simp: with_legacy_sealer_def dest: calmD [OF assms] split: prod.splits if_splits outcome.splits)
  show "fst (snd (with_legacy_sealer l body (self, w))) = self"
    by (auto simp: with_legacy_sealer_def dest: calmD [OF assms] split: prod.splits outcome.splits)
qed

lemma calm_sealer_bodies [calm_rules]:
  "calm (decrypt_with X req s)"
  "calm (bindR (map_err g (seal X s d)) (\<lambda>ct. ret (f ct)))"
  unfolding decrypt_with_def by (intro calm_rules)+

lemma encrypt_unpoisoned: "calm (encrypt X req)" "fst (snd (encrypt X req (self, w))) = self"
  unfolding encrypt_def by (rule with_sealer_unpoisoned, intro calm_rules)+


lemma preferred_unpoisoned:
  "calm (with_sealer (decrypt_with X req))" "fst (snd (with_sealer (decrypt_with X req) (self, w))) = self"
  by (rule with_sealer_unpoisoned, intro calm_rules)+

lemma fallback_unpoisoned:
  "calm (with_legacy_sealer l (decrypt_with X req))"
  "fst (snd (with_legacy_sealer l (decrypt_with X req) (self, w))) = self"
  by (rule with_legacy_sealer_unpoisoned, intro calm_rules)+

lemma decrypt_unpoisoned: "calm (decrypt X req)" "fst (snd (decrypt X req (self, w))) = self"
proof -
  let ?fallback = "\<lambda>(self, w). case kms_legacy_sealer self of
      Some legacy \<Rightarrow> with_legacy_sealer legacy (decrypt_with X req) (self, w) | None \<Rightarrow> (Ok None, (self, w))"
  note fb = fallback_unpoisoned and pr = preferred_unpoisoned
  have c: "calm ?fallback"
    by (rule calmI) (auto dest: calmD [OF fb(1)] split: option.splits)
  then show "calm (decrypt X req)"
    unfolding decrypt_def by (intro calm_rules pr(1))
  have evo: "evolution (\<lambda>a b :: KmsService \<times> 'w. fst b = fst a)"
    by unfold_locales simp_all
  have "evolves (\<lambda>a b. fst b = fst a) (decrypt X req)"
    unfolding decrypt_def
    by (intro evolution.evolves_bindR [OF evo] evolves_case_option evolution.evolves_ret [OF evo]
        evolution.evolves_lift [OF evo]) (auto simp: evolves_def fb(2) pr(2) split: option.split)
  then show "fst (snd (decrypt X req (self, w))) = self"
    by (simp add: evolves_def)
qed

lemma kms_step_unpoisoned:
  assumes "kms_step X admitted s s'" and "kr_service s = self" and "\<not> list_ex panicked (kr_tasks s)"
  shows "kr_service s' = self \<and> \<not> list_ex panicked (kr_tasks s')"
  using assms
proof (cases rule: kms_step.cases)
  case (encrypt_ends i ereq er self' w)
  with calmD [OF encrypt_unpoisoned(1) encrypt_ends(4)] encrypt_unpoisoned(2) [of ereq "kr_service s" "kr_world s"] assms
  show ?thesis by (auto simp: list_ex_iff returns_def dest!: set_update_subset_insert [THEN subsetD])
next
  case (decrypt_unlocks i dreq dr self' w)
  with calmD [OF preferred_unpoisoned(1) decrypt_unlocks(4)]
    preferred_unpoisoned(2) [of dreq "kr_service s" "kr_world s"] assms
  show ?thesis
    by (cases dr) (auto simp: list_ex_iff returns_def after_preferred_def split: option.splits
        dest!: set_update_subset_insert [THEN subsetD])
next
  case (legacy_unlocks i dreq legacy dr self' w)
  with calmD [OF fallback_unpoisoned(1) legacy_unlocks(5)]
    fallback_unpoisoned(2) [of legacy dreq "kr_service s" "kr_world s"] assms
  show ?thesis
    by (cases dr) (auto simp: list_ex_iff returns_def after_legacy_def split: option.splits
        dest!: set_update_subset_insert [THEN subsetD])
qed (auto simp: list_ex_iff dest!: set_update_subset_insert [THEN subsetD])

lemma kms_run_unpoisoned:
  assumes "(kms_step X admitted)\<^sup>*\<^sup>* (kms_start self w) s"
  shows "kr_service s = self \<and> \<not> list_ex panicked (kr_tasks s)"
  using assms by (induction rule: rtranclp_induct) (auto simp: kms_start_def dest: kms_step_unpoisoned)

end

section \<open>The other crates\<close>

text \<open>The other crates report failures as errors, too.\<close>

locale calm_node = calm_tss X for X :: "'w tss" +
  fixes P :: "'w pki" and K :: "'w kube" and L :: "'w listener" and D :: "'w dialer" and V :: "'w kms_server"
  assumes
    calm_pki [calm_rules]:
      "\<And>b. returns (parse_x509_certificate P b)" "\<And>b. returns (parse_x509_pem P b)"
      "\<And>q. returns (pem_parse_x509 P q)" "\<And>s. returns (from_pkcs1_pem P s)" "\<And>k. returns (to_pkcs8_pem P k)"
      "\<And>s. returns (key_pair_from_pem P s)" "\<And>s kp. returns (issuer_from_ca_cert_pem P s kp)"
      "\<And>names. returns (certificate_params_new P names)" "calm (key_pair_generate P)"
      "\<And>params kp i. returns (signed_by P params kp i)" and
    calm_kube [calm_rules]: "\<And>client node. calm (kube_get_node K client node)" and
    calm_listener [calm_rules]:
      "\<And>s. returns (socket_addr_from_str L s)" "\<And>path. calm (kubeconfig_read_from L path)"
      "\<And>k. calm (config_from_custom_kubeconfig L k)" "\<And>k. returns (client_try_from L k)"
      "\<And>tls. returns (server_tls L tls)" "\<And>addr tls timeout self. calm (listener_run L addr tls timeout self)" and
    calm_dialer [calm_rules]:
      "\<And>uri. returns (channel_from_shared D uri)" "\<And>e tls. returns (endpoint_tls_config D e tls)"
      "\<And>e. calm (endpoint_connect D e)" "\<And>ch req. calm (client_duplicate D ch req)" and
    calm_server [calm_rules]: "\<And>self. calm (serve_with_incoming_shutdown V self)"
begin

lemma returns_node_name [calm_rules]: "returns (node_name_from_cn cn)"
  using node_name_from_cn_total [of cn] by auto

lemma returns_common_names [calm_rules]:
  "returns (common_name_from_x509 cert label)" "returns (common_name_from_pem P pem path)" "returns (peer_cert_common_name P der)"
  unfolding common_name_from_pem_def peer_cert_common_name_def common_name_from_x509_def by (intro calm_rules)+

lemma returns_reads [calm_rules]: "returns (fs_read fs path)" "returns (fs_read_to_string fs path)"
  using fs_read_no_panic by (simp_all add: returns_def)

lemma returns_own_node_name [calm_rules]: "returns (own_node_name P fs dir)"
  unfolding own_node_name_def by (intro calm_rules)

lemma returns_ca_key [calm_rules]: "returns (ca_key_to_pkcs8_pem P pem)"
  unfolding ca_key_to_pkcs8_pem_def by (intro calm_rules)

lemma returns_leaf_params [calm_rules]: "returns (leaf_params P node now params)"
  unfolding leaf_params_def by (intro calm_rules)

lemma calm_identity [calm_rules]: "calm (mint_enroll_server_identity P fs node dir)"
  unfolding mint_enroll_server_identity_def by (intro calm_rules calm_read)

lemma calm_run_enroll [calm_rules]: "calm (run_enroll X P L fs listen max_requests timeout tcti dir)"
  unfolding run_enroll_def enroll_tls_def enroll_kube_client_def by (intro calm_rules)

lemma returns_blob [calm_rules]: "returns (blob_of_response X r)" "returns (join_marshall X p)"
  unfolding blob_of_response_def join_marshall_def by (intro calm_rules)+

lemma calm_run_join [calm_rules]: "calm (run_join X D fs seed tcti dir)"
  unfolding run_join_def join_channel_def by (intro calm_rules)

lemma returns_peer_node_name [calm_rules]: "returns (peer_node_name P request)"
  unfolding peer_node_name_def by (intro calm_rules)

lemma returns_response [calm_rules]: "returns (response_of_blob X blob)"
  unfolding response_of_blob_def marshall_def by (intro calm_rules)

lemma calm_with_context:
  assumes "\<And>c. calm (body c)"
  shows "calm (with_context body)"
  by (rule calmI) (auto simp: with_context_def dest: calmD [OF assms] split: prod.splits if_splits outcome.splits)

lemma calm_handle_duplicate: "calm (handle_duplicate X P K request)"
proof -
  have "calm (\<lambda>(self :: EnrollService, w). on_world (map_err f (authorize_node K (es_kube_client self) node)) (self, w))"
    for f :: "AuthzError \<Rightarrow> enroll_status" and node
  proof -
    have "calm (on_world (map_err f (authorize_node K client node)) :: ('w enroll_world, unit, enroll_status) rs)" for client
      unfolding authorize_node_def by (intro calm_on_world calm_rules)
    then show ?thesis by (auto simp: calm_def)
  qed
  moreover have "calm (\<lambda>(self, w). with_context (\<lambda>context. map_err f
      (duplicate_for_joiner X context (es_fleet_key_handle self) p)) (self, w))" for f :: "FleetError \<Rightarrow> enroll_status" and p
  proof -
    have "calm (with_context (\<lambda>context. map_err f (duplicate_for_joiner X context h p)))" for h
      by (intro calm_with_context calm_rules)
    then show ?thesis by (auto simp: calm_def)
  qed
  ultimately show ?thesis unfolding handle_duplicate_def by (intro calm_rules)
qed

lemma duplicate_unpoisoned:
  "calm (duplicate X P K request)" "es_context (fst (snd (duplicate X P K request (self, w)))) = es_context self"
proof -
  show "calm (duplicate X P K request)"
    by (rule calmI) (auto simp: duplicate_def take_permit_def Let_def dest!: calmD [OF calm_handle_duplicate]
        split: if_splits prod.splits outcome.splits)
  have "es_context self' = es_context self1" if "handle_duplicate X P K request (self1, v) = (r, (self', w'))"
    for self1 self' v r w'
    using handle_duplicate_service [OF that] calmD [OF calm_handle_duplicate that] by (simp add: returns_def)
  then show "es_context (fst (snd (duplicate X P K request (self, w)))) = es_context self"
    by (fastforce simp: duplicate_def take_permit_def Let_def split: prod.split outcome.split)
qed

lemma calm_on_fs: "calm m \<Longrightarrow> calm (on_fs m)"
  by (rule calmI) (auto simp: on_fs_def dest: calmD split: prod.splits)

lemma calm_mkdir: "calm (mkdir path)"
  by (rule calmI) (auto simp: mkdir_def fs_parent_dir_def split: option.splits outcome.splits if_splits fs_node.splits)

lemma calm_remove_file [calm_rules]: "calm (remove_file path)"
  by (rule calmI) (auto simp: remove_file_def split: option.splits fs_node.splits)

lemma calm_create_dir_all [calm_rules]: "calm (create_dir_all path)"
proof -
  have "returns (fst (create_dir_all path fs))" for fs
  proof (induction "length path" arbitrary: path fs rule: less_induct)
    case less
    have "returns (fst (create_dir_all d fs))" if "path_parent path = Some d" for d fs
      using less path_parent_shorter [OF that] by simp
    then show ?case
      using calm_mkdir [of path]
      by (subst create_dir_all.simps) (auto simp: calm_def split: option.split prod.split outcome.split io_error.split, (metis fst_conv returns_iff(3))+)
  qed
  then show ?thesis by (simp add: calm_def)
qed

lemma returns_parent_dir: "returns (fs_parent_dir fs path)"
  by (simp add: fs_parent_dir_def split: option.split fs_node.split)

lemma calm_open_socket [calm_rules]: "calm (open_socket umask_mode socket)"
proof -
  have "calm (unix_listener_bind umask_mode socket)"
    using returns_parent_dir [of _ socket]
    by (auto simp: calm_def unix_listener_bind_def split: outcome.split) (metis returns_iff(3))+
  moreover have "calm (set_permissions socket mode)" for mode
    by (simp add: calm_def set_permissions_def split: option.split fs_node.split)
  ultimately show ?thesis unfolding open_socket_def by (intro calm_rules)
qed

lemma calm_prepare_socket [calm_rules]: "calm (prepare_socket socket)"
proof -
  have "calm (\<lambda>fs. if fs_exists fs socket then map_err f (remove_file socket) fs else (Ok (), fs))"
    for f :: "io_error \<Rightarrow> AnyError"
    using calm_map_err [OF calm_remove_file, of f socket] by (simp add: calm_def)
  then show ?thesis unfolding prepare_socket_def by (intro calm_rules)
qed

lemma calm_or_drop: "calm m \<Longrightarrow> calm (or_drop X sealers m)"
  by (rule calmI) (auto simp: or_drop_def dest: calmD split: prod.splits outcome.splits)

lemma calm_serve_until_shutdown: "calm (serve_until_shutdown X V sealers)"
  by (rule calmI) (auto simp: serve_until_shutdown_def dest: calmD [OF calm_map_err [OF calm_server]] split: prod.splits)

lemma calm_run_serve: "calm (run_serve X V umask_mode tcti socket force_legacy)"
  unfolding run_serve_def
  by (intro calm_rules calm_on_fs calm_or_drop calm_serve_until_shutdown calm_on_world)

lemma calm_main: "calm (sceau_main X P L D V umask_mode cli)"
proof -
  have "returns (fst (sceau_main X P L D V umask_mode cli (fs, w)))" for fs w
    by (cases "cli_command cli")
      (simp_all add: sceau_main_def calm_then_ret calm_on_world calm_run_serve calm_run_genesis calm_run_status
        calm_map_err calm_run_enroll calm_run_join)
  then show ?thesis by (simp add: calm_def split_paired_all)
qed

end

end
