(* ===== verification/Frame_Properties.thy ===== *)
theory Frame_Properties
  imports Tpm_Frame Panic_Free Enroll_Properties Life_Properties
begin

text \<open>
  What no run of sceau does: write a persistent key other than the fleet key, or
  panic. The contracts behind both are interpreted on the software TPM and cluster,
  with servers that pass a request on to the handlers.
\<close>

section \<open>Servers that pass a request on\<close>

definition busy_listener :: "soft listener" where
  "busy_listener = sample_listener\<lparr>listener_run := (\<lambda>addr tls timeout service w.
     (Ok (), snd (snd (duplicate soft_tss soft_pki (soft_kube [''edge-2''])
       (sample_request (Some [node_cert])) (service, w)))))\<rparr>"

definition busy_server :: "soft kms_server" where
  "busy_server = \<lparr>serve_with_incoming_shutdown = (\<lambda>service (fs, w).
     (Ok (), (fs, snd (snd (encrypt soft_tss \<lparr>enc_plaintext = [1, 2, 3], enc_uid = ''''\<rparr> (service, w))))))\<rparr>"

definition shared_device :: soft where
  "shared_device = sample_seed\<lparr>sw_nv := (0x81000001, srk_skey [7]) # sw_nv sample_seed\<rparr>"

section \<open>Persistent keys on the software TPM\<close>

lemma busy_server_runs:
  "\<exists>s. (kms_step X (\<lambda>_. True))\<^sup>*\<^sup>* (kms_start self w) s \<and> kr_world s = snd (snd (encrypt X req (self, w)))"
proof -
  obtain r self' w' where e: "encrypt X req (self, w) = (r, (self', w'))" by (metis surj_pair)
  let ?s = "\<lambda>ts. \<lparr>kr_service = self, kr_world = w, kr_tasks = ts\<rparr>"
  have 1: "kms_step X (\<lambda>_. True) (?s []) (?s [EncryptArrived req])"
    using kms_step.encrypt_arrives [of X _ "?s []" req] by simp
  have 2: "kms_step X (\<lambda>_. True) (?s [EncryptArrived req]) (?s [EncryptLocked req])"
    using kms_step.encrypt_locks [of 0 "?s [EncryptArrived req]" req X] by simp
  have 3: "kms_step X (\<lambda>_. True) (?s [EncryptLocked req]) \<lparr>kr_service = self', kr_world = w', kr_tasks = [EncryptDone req r]\<rparr>"
    using kms_step.encrypt_ends [of 0 "?s [EncryptLocked req]" req X r self' w'] e by simp
  show ?thesis
    using 1 2 3 e by (intro exI conjI) (rule converse_rtranclp_into_rtranclp rtranclp.rtrancl_refl | simp add: kms_start_def)+
qed

lemma soft_kept_iff: "evolves (same_storage soft_view) m \<longleftrightarrow> (\<forall>w. map_of (sw_nv (snd (m w))) = map_of (sw_nv w))"
  by (simp add: evolves_def same_storage_def soft_view_def)

interpretation soft_kept: evolution "same_storage soft_view"
  by (rule evolution_same_storage)

lemma soft_kept_set_tr: "sw_nv (set_tr c h e w) = sw_nv w" "sw_nv (del_tr c h w) = sw_nv w"
  by (simp_all add: set_tr_def del_tr_def put_tr_def)

lemma soft_kept_add [evolves_rules]: "evolves (same_storage soft_view) (soft_add c e)"
  by (simp add: soft_kept_iff soft_add_def Let_def soft_kept_set_tr)

lemma soft_kept_with_key [evolves_rules]:
  "(\<And>k. evolves (same_storage soft_view) (f k)) \<Longrightarrow> evolves (same_storage soft_view) (with_key c h f)"
  by (simp add: soft_kept_iff with_key_def split: option.split)

lemma soft_kept_when [evolves_rules]:
  "evolves (same_storage soft_view) m \<Longrightarrow> evolves (same_storage soft_view) n \<Longrightarrow>
   evolves (same_storage soft_view) (\<lambda>w. if b w then m w else n w)"
  by (simp add: soft_kept_iff)

lemma soft_kept_set_session: "sw_nv (soft_set_session c t w) = sw_nv w"
  by (simp add: soft_set_session_def split: option.split)

lemma soft_kept_start [evolves_rules]: "evolves (same_storage soft_view) (soft_start_session c ty)"
  unfolding soft_start_session_def by (intro evolves_rules)

lemmas soft_kept_defs = soft_kept_iff soft_kept_set_tr soft_kept_set_session soft_context_new_def require_def Let_def
  soft_nullauth_end_def soft_flush_def soft_policy_command_code_def soft_policy_get_digest_def soft_unseal_def

lemma soft_kept_plain_commands [evolves_rules]:
  "evolves (same_storage soft_view) (soft_context_new tc)"
  "evolves (same_storage soft_view) (soft_flush c h)"
  "evolves (same_storage soft_view) (soft_nullauth_end c s)"
  "evolves (same_storage soft_view) (soft_policy_command_code c p cc)"
  "evolves (same_storage soft_view) (soft_policy_get_digest c p)"
  "evolves (same_storage soft_view) (soft_unseal c h)"
  by (auto simp: soft_kept_defs split: option.split entity.split policy_session.split)

lemma soft_kept_nullauth_begin [evolves_rules]: "evolves (same_storage soft_view) (soft_nullauth_begin c)"
  unfolding soft_nullauth_begin_def by (intro evolves_rules) (simp add: soft_kept_iff soft_kept_set_session)

lemma soft_kept_key_commands [evolves_rules]:
  "evolves (same_storage soft_view) (soft_read_public c kh)"
  "evolves (same_storage soft_view) (soft_load_external c pub hier)"
  unfolding soft_read_public_def soft_load_external_def by (intro evolves_rules)+

lemma soft_kept_create_primary [evolves_rules]: "evolves (same_storage soft_view) (soft_create_primary c hier t)"
  unfolding soft_create_primary_def
  by (intro soft_kept_when soft_kept.evolves_read
      evolves_here [of _ "\<lambda>v. bindR (soft_add c (TransientKey (soft_primary v t))) (\<lambda>h. ret (key_of_object h))"])
    (intro evolves_rules)

lemma soft_kept_parent_commands [evolves_rules]:
  "evolves (same_storage soft_view) (soft_create c kh t data)"
  "evolves (same_storage soft_view) (soft_import c h ek pub priv sec alg)"
  "evolves (same_storage soft_view) (soft_duplicate c h parent ek alg)"
  unfolding soft_create_def soft_import_def soft_duplicate_def
  by (rule soft_kept_with_key, simp add: soft_kept_iff split: option.split entity.split)+

lemma soft_kept_load [evolves_rules]: "evolves (same_storage soft_view) (soft_load c kh priv pub)"
  unfolding soft_load_def Let_def by (intro evolves_rules)

lemma soft_kept_tr_from_public [evolves_rules]: "evolves (same_storage soft_view) (soft_tr_from_public c ph)"
  using soft_kept_add by (simp add: soft_kept_iff soft_tr_from_public_def split: option.split)

lemma soft_evict_other_handles: "k \<noteq> ph \<Longrightarrow> v_nv (soft_view (snd (soft_evict c p h ph w))) k = v_nv (soft_view w) k"
  by (auto simp: soft_evict_def soft_view_def soft_add_def Let_def bindR_apply soft_kept_set_tr split: option.split entity.split)

lemma soft_tpm_frame: "tpm_frame (same_storage soft_view) soft_tss"
  using soft_kept_set_session unfolding tpm_frame_def tpm_frame_axioms_def
  by (simp add: soft_kept.evolution_axioms soft_tss_def) (intro conjI allI evolves_rules, simp_all add: same_storage_def soft_view_def)

lemma busy_listener_runs:
  "\<exists>self'. (enroll_request soft_tss soft_pki (soft_kube [''edge-2'']))\<^sup>*\<^sup>* (self, w)
     (self', snd (listener_run busy_listener addr tls timeout self w))"
proof -
  obtain r self' w' where d: "duplicate soft_tss soft_pki (soft_kube [''edge-2'']) (sample_request (Some [node_cert]))
      (self, w) = (r, (self', w'))"
    by (metis surj_pair)
  then have "enroll_request soft_tss soft_pki (soft_kube [''edge-2'']) (self, w) (self', w')"
    by (auto simp: enroll_request_def intro!: exI [of _ "sample_request (Some [node_cert])"])
  then show ?thesis
    by (intro exI [of _ self'] r_into_rtranclp) (simp add: busy_listener_def d)
qed

lemma soft_crates_kept:
  "evolves (same_storage soft_view) (key_pair_generate soft_pki)"
  "evolves (same_storage soft_view) (kube_get_node (soft_kube nodes) client node)"
  "evolves (same_storage soft_view) (kubeconfig_read_from busy_listener path)"
  "evolves (same_storage soft_view) (config_from_custom_kubeconfig busy_listener kubeconfig)"
  "evolves (same_storage soft_view) (endpoint_connect soft_dialer e)"
  "evolves (same_storage soft_view) (client_duplicate soft_dialer ch req)"
  by (simp_all add: soft_kept_iff soft_pki_def soft_kube_def busy_listener_def sample_listener_def soft_dialer_def
      split: endpoint.split)

interpretation soft_storage: key_storage soft_view soft_tss soft_pki "soft_kube [''edge-2'']" busy_listener soft_dialer
  busy_server
proof (intro key_storage.intro key_storage_axioms.intro node_frame.intro node_frame_axioms.intro)
  fix self :: KmsService and fs :: fs and w :: soft
  show "\<exists>s. (kms_step soft_tss (\<lambda>_. True))\<^sup>*\<^sup>* (kms_start self w) s \<and>
      kr_world s = snd (snd (serve_with_incoming_shutdown busy_server self (fs, w)))"
    using busy_server_runs by (simp add: busy_server_def)
next
  fix c p h and ph k :: u32 and w
  assume "k \<noteq> ph"
  then show "v_nv (soft_view (snd (evict_control soft_tss c p h ph w))) k = v_nv (soft_view w) k"
    unfolding soft_tss_def tss.simps by (rule soft_evict_other_handles)
next
  fix n ph
  assume "persistent_tpm_handle_new soft_tss n = Ok ph"
  then show "ph = n" by (simp add: soft_tss_def split: if_splits)
qed (rule soft_tpm_frame soft_crates_kept busy_listener_runs)+

section \<open>The software crates do not panic\<close>

lemma soft_calm_add [calm_rules]: "calm (soft_add c e)"
  by (simp add: calm_def soft_add_def Let_def)

lemma soft_calm_with_key [calm_rules]: "(\<And>k. calm (f k)) \<Longrightarrow> calm (with_key c h f)"
  by (simp add: calm_def with_key_def split: option.split)

lemma soft_calm_when: "calm m \<Longrightarrow> calm n \<Longrightarrow> calm (\<lambda>w. if b w then m w else n w)"
  by (simp add: calm_def)

lemma soft_calm_start [calm_rules]: "calm (soft_start_session c ty)"
  unfolding soft_start_session_def by (intro calm_rules)

lemma soft_calm_plain [calm_rules]:
  "calm (soft_context_new tc)" "calm (soft_flush c h)" "calm (soft_policy_command_code c q cc)"
  "calm (soft_policy_get_digest c q)" "calm (soft_unseal c h)" "calm (soft_nullauth_end c s)"
  by (simp_all add: calm_def soft_context_new_def require_def Let_def soft_flush_def soft_policy_command_code_def
      soft_policy_get_digest_def soft_unseal_def soft_nullauth_end_def split: option.split entity.split policy_session.split)

lemma soft_calm_sessions [calm_rules]: "calm (soft_nullauth_begin c)"
  unfolding soft_nullauth_begin_def by (intro calm_rules) (simp add: calm_def)

lemma soft_calm_add_key: "returns (fst (bindR (soft_add c e) (\<lambda>h. ret (f h)) w))"
  by (rule calm_then_ret [OF soft_calm_add])

lemma soft_calm_keys [calm_rules]:
  "calm (soft_create_primary c hier t)" "calm (soft_read_public c kh)" "calm (soft_load_external c p hier)"
  "calm (soft_create c kh t d)" "calm (soft_load c kh priv p)" "calm (soft_duplicate c h parent ek alg)"
  "calm (soft_import c h ek p priv sec alg)"
  by (simp_all add: calm_def soft_create_primary_def soft_read_public_def soft_load_external_def soft_create_def
      soft_load_def soft_duplicate_def soft_import_def with_key_def Let_def soft_calm_add_key split: option.split entity.split)

lemma soft_calm_nv [calm_rules]: "calm (soft_evict c q h ph)" "calm (soft_tr_from_public c ph)"
  by (auto simp: calm_def soft_evict_def soft_tr_from_public_def soft_add_def bindR_apply Let_def split: option.split entity.split)

lemma soft_created_marshalls:
  assumes "yields (soft_create c kh t d) (priv, p)"
  shows "is_ok (soft_marshall p)"
proof -
  obtain fixed where "sealing_template fixed t" and "p = t\<lparr>pub_unique := []\<rparr>"
    using assms by (auto simp: yields_def soft_create_def with_key_def split: option.splits if_splits)
  then show ?thesis by (subst soft_marshall_ok) (simp_all add: sealing_template_def)
qed

lemma soft_returns_codec: "returns (soft_marshall p)" "returns (soft_unmarshall b)"
  by (simp_all add: soft_marshall_def soft_unmarshall_def returns_ok_or)

interpretation soft_calm: calm_tss soft_tss
proof (intro calm_tss.intro soft_codec.tss_codec_axioms calm_tss_axioms.intro)
  fix c k t d priv p
  assume "yields (create soft_tss c k t d) (priv, p)"
  then show "is_ok (public_marshall soft_tss p)" using soft_created_marshalls by (simp add: soft_tss_def)
qed (auto simp: soft_tss_def soft_returns_codec intro!: calm_rules split: auth_session.split)


section \<open>Properties\<close>

text \<open>
  C8. The only persistent key that sceau ever writes is the fleet key. Whatever the
  subcommand, the requests its server answers, and the errors and panics on the way,
  the TPM holds the same keys at every other persistent handle afterwards; serve,
  enroll and status leave the fleet key as it was, too.
\<close>

theorem only_the_fleet_key_is_written:
  assumes "key_storage view X P K L D V"
    and "sceau_main X P L D V umask_mode cli (fs, w) = (r, (fs', w'))"
    and "h \<noteq> FLEET_KEY_PERSISTENT_HANDLE \<or> \<not> writes_fleet_key (cli_command cli)"
  shows "v_nv (view w') h = v_nv (view w) h"
  using beside_run [OF key_storage.main_keeps_storage [OF assms(1)], of cli w umask_mode fs]
    beside_run [OF key_storage.main_keeps_other_handles [OF assms(1)], of w umask_mode cli fs] assms(2,3)
  by (auto simp: same_storage_def same_beside_fleet_def)

theorem only_the_fleet_key_is_written_witness:
  "\<exists>r fs' w'. sceau_main soft_tss soft_pki busy_listener soft_dialer busy_server 0
     \<lparr>cli_tcti = ''swtpm'', cli_command = Genesis True\<rparr> (soft_fs, shared_device) = (r, (fs', w')) \<and>
     v_nv (soft_view w') 0x81000001 = Some (srk_skey [7])"
proof -
  let ?run = "sceau_main soft_tss soft_pki busy_listener soft_dialer busy_server 0
     \<lparr>cli_tcti = ''swtpm'', cli_command = Genesis True\<rparr> (soft_fs, shared_device)"
  obtain r fs' w' where run: "?run = (r, (fs', w'))" by (metis surj_pair)
  have "v_nv (soft_view w') 0x81000001 = v_nv (soft_view shared_device) 0x81000001"
    by (rule only_the_fleet_key_is_written [OF soft_storage.key_storage_axioms run])
      (simp add: FLEET_KEY_PERSISTENT_HANDLE_def)
  with run show ?thesis by (simp add: soft_view_def shared_device_def)
qed



end
