(* ===== verification/Build.thy ===== *)
theory Build
  imports Kms
begin

text \<open>
  \<open>src/build.rs\<close> and \<open>src/fuzz/fuzz_targets/kms_proto.rs\<close>: the code generator that
  the build runs on the two protocol files, and the fuzz target of the decoders it
  generates for the KMS requests. The generator and the generated decoders are
  parameters.
\<close>

section \<open>The build script\<close>

datatype build_error = BuildError string

record codegen_config =
  build_server :: bool
  build_client :: bool

type_synonym 'w codegen =
  "codegen_config \<Rightarrow> string list \<Rightarrow> string list \<Rightarrow> ('w, unit, build_error) rs"

definition build_main :: "'w codegen \<Rightarrow> ('w, unit, build_error) rs" where
  "build_main compile_protos =
     bindR (compile_protos \<lparr>build_server = True, build_client = False\<rparr>
       [''proto/kms/v2/api.proto''] [''proto'']) (\<lambda>_.
     bindR (compile_protos \<lparr>build_server = True, build_client = True\<rparr>
       [''proto/enroll/v1/api.proto''] [''proto'']) (\<lambda>_.
     ret ()))"

section \<open>The fuzz target of the decoders\<close>

datatype decode_error = DecodeError string

record decoders =
  decode_encrypt_request :: "bytes \<Rightarrow> (EncryptRequest, decode_error) outcome"
  decode_decrypt_request :: "bytes \<Rightarrow> (DecryptRequest, decode_error) outcome"
  decode_status_request :: "bytes \<Rightarrow> (unit, decode_error) outcome"

text \<open>\<open>let _ = r;\<close> drops a result, and a panic still unwinds.\<close>

fun ignoring :: "('a, 'e) outcome \<Rightarrow> (unit, 'f) outcome" where
  "ignoring (Panic s) = Panic s"
| "ignoring r = Ok ()"

definition fuzz_kms_proto :: "decoders \<Rightarrow> bytes \<Rightarrow> (unit, decode_error) outcome" where
  "fuzz_kms_proto G data =
     obind (ignoring (decode_encrypt_request G data)) (\<lambda>_.
     obind (ignoring (decode_decrypt_request G data)) (\<lambda>_.
     obind (ignoring (decode_status_request G data)) (\<lambda>_.
     Ok ())))"

section \<open>Lemmas\<close>

text \<open>The target never rejects an input, and reports exactly the panics of the decoders.\<close>

lemma fuzz_kms_proto_panics_iff:
  "is_panic (fuzz_kms_proto G data) \<longleftrightarrow>
     is_panic (decode_encrypt_request G data) \<or> is_panic (decode_decrypt_request G data) \<or>
     is_panic (decode_status_request G data)"
  by (cases "decode_encrypt_request G data"; cases "decode_decrypt_request G data"; cases "decode_status_request G data")
    (simp_all add: fuzz_kms_proto_def)

lemma fuzz_kms_proto_total: "fuzz_kms_proto G data = Ok () \<or> (\<exists>s. fuzz_kms_proto G data = Panic s)"
  by (cases "decode_encrypt_request G data"; cases "decode_decrypt_request G data"; cases "decode_status_request G data")
    (simp_all add: fuzz_kms_proto_def)

text \<open>A build succeeds only when both protocols were compiled, the second after the first.\<close>

lemma build_main_Ok_iff:
  "build_main compile_protos w = (Ok u, w') \<longleftrightarrow>
     (\<exists>w1. compile_protos \<lparr>build_server = True, build_client = False\<rparr>
         [''proto/kms/v2/api.proto''] [''proto''] w = (Ok (), w1) \<and>
       compile_protos \<lparr>build_server = True, build_client = True\<rparr>
         [''proto/enroll/v1/api.proto''] [''proto''] w1 = (Ok (), w'))"
  by (auto simp: build_main_def bindR_Ok_iff)

end
