(* ===== verification/Deploy.thy ===== *)
theory Deploy
  imports Effects
begin

text \<open>
  \<open>src/scripts/deploy-test-nodes.sh\<close>: copying a build to test nodes over SSH. The
  programs that the script runs are a parameter, from the argument vector and the
  world to an exit status and what was printed; so are the tests on files and the
  expansion of patterns. Under \<open>set -e\<close> a command with a non-zero status ends the
  script, an \<open>Err\<close> of the model, except in a condition. Progress messages are not
  part of the model.
\<close>

section \<open>The shell\<close>

record 'w shell =
  exec :: "string list \<Rightarrow> 'w \<Rightarrow> (nat \<times> string) \<times> 'w"
  is_file :: "string \<Rightarrow> 'w \<Rightarrow> bool"
  is_dir :: "string \<Rightarrow> 'w \<Rightarrow> bool"
  glob :: "string \<Rightarrow> 'w \<Rightarrow> string list"
  glob_in :: "string \<Rightarrow> string \<Rightarrow> 'w \<Rightarrow> string list"
  script_root :: "'w \<Rightarrow> string option"

datatype script_error =
    ParameterNotSet string
  | UnknownArch string
  | NotBuilt string string
  | BadSourceMode string
  | RootNotFound
  | CommandFailed nat

text \<open>
  The variables that the handler of \<open>EXIT\<close> reads, and the world. Before the script
  assigns them they have the values of the environment it was called in.
\<close>

record 'w script =
  work_dir :: string
  container_id :: string
  outside :: 'w

text \<open>The environment of the call, \<open>None\<close> for a variable that is not set.\<close>

record environ =
  env_HOSTS :: "string option"
  env_ARCH_NAME :: "string option"
  env_BINARY :: "string option"
  env_SSH_KEY :: "string option"
  env_REMOTE_DIR :: "string option"
  env_CONTAINER_TOOL :: "string option"
  env_SOURCE_MODE :: "string option"
  env_IMAGE_REF :: "string option"
  env_TMPDIR :: "string option"

definition or_else :: "string option \<Rightarrow> string \<Rightarrow> string" where
  "or_else v d = (case v of None \<Rightarrow> d | Some s \<Rightarrow> if s = [] then d else s)"

definition required :: "string \<Rightarrow> string option \<Rightarrow> (string, script_error) outcome" where
  "required name v = (case v of
      None \<Rightarrow> Err (ParameterNotSet name)
    | Some s \<Rightarrow> if s = [] then Err (ParameterNotSet name) else Ok s)"

definition is_ifs :: "char \<Rightarrow> bool" where
  "is_ifs c = (c = CHR '' '' \<or> c = CHR 0x09 \<or> c = CHR 0x0A)"

fun split_words :: "string \<Rightarrow> string \<Rightarrow> string list" where
  "split_words word [] = (if word = [] then [] else [word])"
| "split_words word (c # cs) =
     (if is_ifs c then (if word = [] then split_words [] cs else word # split_words [] cs)
      else split_words (word @ [c]) cs)"

text \<open>An unquoted expansion: split into words, then patterns expanded.\<close>

definition unquoted :: "'w shell \<Rightarrow> string \<Rightarrow> 'w \<Rightarrow> string list" where
  "unquoted T s w = concat (map (\<lambda>word. glob T word w) (split_words [] s))"

definition strip_newlines :: "string \<Rightarrow> string" where
  "strip_newlines s = rev (dropWhile (\<lambda>c. c = CHR 0x0A) (rev s))"

text \<open>A command of the script, and one whose status does not matter, with its output.\<close>

definition run_with ::
  "'w shell \<Rightarrow> ('w \<Rightarrow> string list) \<Rightarrow> ('w script, string, script_error) rs" where
  "run_with T argv = (\<lambda>s. case exec T (argv (outside s)) (outside s) of ((status, out), w) \<Rightarrow>
     (if status = 0 then Ok (strip_newlines out) else Err (CommandFailed status), s\<lparr>outside := w\<rparr>))"

definition output_of ::
  "'w shell \<Rightarrow> ('w \<Rightarrow> string list) \<Rightarrow> ('w script, string, script_error) rs" where
  "output_of T argv = (\<lambda>s. case exec T (argv (outside s)) (outside s) of ((status, out), w) \<Rightarrow>
     (Ok (strip_newlines out), s\<lparr>outside := w\<rparr>))"

definition run_cmd :: "'w shell \<Rightarrow> string list \<Rightarrow> ('w script, string, script_error) rs" where
  "run_cmd T argv = run_with T (\<lambda>_. argv)"

definition look :: "('w \<Rightarrow> 'a) \<Rightarrow> ('w script, 'a, script_error) rs" where
  "look f = (\<lambda>s. (Ok (f (outside s)), s))"

definition base_name :: "string \<Rightarrow> string \<Rightarrow> string" where
  "base_name path suffix =
     (let name = rev (takeWhile (\<lambda>c. c \<noteq> CHR ''/'') (rev path)) in
      case strip_prefix (rev suffix) (rev name) of
        Some r \<Rightarrow> if r = [] then name else rev r
      | None \<Rightarrow> name)"

section \<open>Where the binary comes from\<close>

definition triples :: "string \<Rightarrow> (string \<times> string, script_error) outcome" where
  "triples arch =
     (if arch = ''amd64'' then Ok (''x86_64-unknown-linux-gnu'', ''x86_64-linux-gnu'')
      else if arch = ''arm64'' then Ok (''aarch64-unknown-linux-gnu'', ''aarch64-linux-gnu'')
      else Err (UnknownArch arch))"

definition source_mode :: "'w shell \<Rightarrow> string option \<Rightarrow> ('w script, string, script_error) rs" where
  "source_mode T mode =
     (if or_else mode [] = [] then
        bindR (output_of T (\<lambda>_. [''uname'', ''-s''])) (\<lambda>system.
        ret (if system = ''Darwin'' then ''image'' else ''local''))
      else ret (or_else mode []))"

definition cleanup :: "'w shell \<Rightarrow> string \<Rightarrow> ('w script, unit, script_error) rs" where
  "cleanup T tool =
     bindR (\<lambda>s. if work_dir s \<noteq> [] then run_cmd T [''rm'', ''-rf'', work_dir s] s else (Ok [], s)) (\<lambda>_ s.
     if container_id s \<noteq> [] then (Ok (), snd (run_cmd T [tool, ''rm'', ''-f'', container_id s] s))
     else (Ok (), s))"

definition trap_exit ::
  "'w shell \<Rightarrow> string \<Rightarrow> ('w script, unit, script_error) rs \<Rightarrow> ('w script, unit, script_error) rs" where
  "trap_exit T tool body = (\<lambda>s. case body s of (r, s1) \<Rightarrow>
     (case cleanup T tool s1 of (Ok _, s2) \<Rightarrow> (r, s2) | (e, s2) \<Rightarrow> (e, s2)))"

definition from_local ::
  "'w shell \<Rightarrow> string \<Rightarrow> string \<Rightarrow> string \<Rightarrow> string \<Rightarrow> ('w script, string \<times> string, script_error) rs" where
  "from_local T repo_root arch binary triple =
     (let bin_path = repo_root @ ''/binaries/'' @ arch @ ''/'' @ binary;
          lib_dir = repo_root @ ''/binaries/'' @ arch @ ''/rootfs/usr/lib/'' @ triple in
      bindR (look (\<lambda>w. is_file T bin_path w \<and> is_dir T lib_dir w)) (\<lambda>built.
      if built then ret (bin_path, lib_dir) else lift (Err (NotBuilt bin_path lib_dir))))"

definition from_image ::
  "'w shell \<Rightarrow> environ \<Rightarrow> string \<Rightarrow> string \<Rightarrow> string \<Rightarrow> string \<Rightarrow>
     ('w script, string \<times> string, script_error) rs" where
  "from_image T env tool arch binary sys_triple =
     bindR (lift (required ''IMAGE_REF'' (env_IMAGE_REF env))) (\<lambda>image.
     bindR (run_cmd T [''mktemp'', ''-d'', or_else (env_TMPDIR env) ''/tmp'' @ ''/sceau-deploy.XXXXXX'']) (\<lambda>dir.
     bindR (\<lambda>s. (Ok (), s\<lparr>work_dir := dir\<rparr>)) (\<lambda>_.
     bindR (run_cmd T [''mkdir'', ''-p'', dir @ ''/lib'']) (\<lambda>_.
     bindR (run_cmd T [tool, ''pull'', ''--platform'', ''linux/'' @ arch, image]) (\<lambda>_.
     bindR (run_cmd T [tool, ''create'', ''--platform'', ''linux/'' @ arch, image]) (\<lambda>container.
     bindR (\<lambda>s. (Ok (), s\<lparr>container_id := container\<rparr>)) (\<lambda>_.
     bindR (run_cmd T [tool, ''cp'', container @ '':/usr/local/bin/'' @ binary, dir @ ''/'' @ binary]) (\<lambda>_.
     bindR (run_cmd T [tool, ''cp'', container @ '':/usr/lib/'' @ sys_triple, dir @ ''/lib/'' @ sys_triple]) (\<lambda>_.
     bindR (run_cmd T [tool, ''rm'', ''-f'', container]) (\<lambda>_.
     bindR (\<lambda>s. (Ok (), s\<lparr>container_id := []\<rparr>)) (\<lambda>_.
     bindR (run_cmd T [''chmod'', ''0755'', dir @ ''/'' @ binary]) (\<lambda>_.
     ret (dir @ ''/'' @ binary, dir @ ''/lib/'' @ sys_triple)))))))))))))"

section \<open>One host\<close>

definition ssh :: "'w shell \<Rightarrow> string \<Rightarrow> string \<Rightarrow> string \<Rightarrow> 'w \<Rightarrow> string list" where
  "ssh T opts host remote_cmd w = ''ssh'' # unquoted T opts w @ [host, remote_cmd]"

definition scp :: "'w shell \<Rightarrow> string \<Rightarrow> ('w \<Rightarrow> string list) \<Rightarrow> string \<Rightarrow> 'w \<Rightarrow> string list" where
  "scp T opts files target w = ''scp'' # unquoted T opts w @ files w @ [target]"

definition is_active_cmd :: "string \<Rightarrow> string" where
  "is_active_cmd service = ''systemctl is-active '' @ service @ '' 2>/dev/null || true''"

definition stop_cmd :: "string \<Rightarrow> string" where
  "stop_cmd service = ''sudo systemctl stop '' @ service"

definition start_cmd :: "string \<Rightarrow> string" where
  "start_cmd service = ''sudo systemctl start '' @ service"

record release =
  rel_bin_path :: string
  rel_lib_dir :: string
  rel_binary :: string
  rel_unit_path :: string
  rel_remote_dir :: string
  rel_ssh_opts :: string

definition rel_service :: "release \<Rightarrow> string" where
  "rel_service rel = base_name (rel_unit_path rel) ''.service''"

definition stop_if_active ::
  "'w shell \<Rightarrow> release \<Rightarrow> string \<Rightarrow> ('w script, bool, script_error) rs" where
  "stop_if_active T rel host =
     bindR (output_of T (ssh T (rel_ssh_opts rel) host (is_active_cmd (rel_service rel)))) (\<lambda>state.
     if state = ''active'' then
       bindR (run_with T (ssh T (rel_ssh_opts rel) host (stop_cmd (rel_service rel)))) (\<lambda>_. ret True)
     else ret False)"

definition copy_unit ::
  "'w shell \<Rightarrow> release \<Rightarrow> string \<Rightarrow> ('w script, unit, script_error) rs" where
  "copy_unit T rel host =
     (let unit = base_name (rel_unit_path rel) [] in
      bindR (look (is_file T (rel_unit_path rel))) (\<lambda>present.
      if present then
        bindR (run_with T (scp T (rel_ssh_opts rel) (\<lambda>_. [rel_unit_path rel])
          (host @ '':'' @ rel_remote_dir rel @ ''/bin/'' @ unit))) (\<lambda>_.
        bindR (run_with T (ssh T (rel_ssh_opts rel) host
          (''sudo mv '' @ rel_remote_dir rel @ ''/bin/'' @ unit @ '' /etc/systemd/system/'' @ unit @
           '' && sudo systemctl daemon-reload''))) (\<lambda>_.
        ret ()))
      else ret ()))"

definition copy_release ::
  "'w shell \<Rightarrow> release \<Rightarrow> string \<Rightarrow> ('w script, unit, script_error) rs" where
  "copy_release T rel host =
     (let dir = rel_remote_dir rel; opts = rel_ssh_opts rel in
      bindR (run_with T (scp T opts (\<lambda>_. [rel_bin_path rel])
        (host @ '':'' @ dir @ ''/bin/'' @ rel_binary rel))) (\<lambda>_.
      bindR (run_with T (scp T opts (glob_in T (rel_lib_dir rel) ''*.so*'')
        (host @ '':'' @ dir @ ''/lib/''))) (\<lambda>_.
      bindR (run_with T (ssh T opts host
        (''sudo chmod 0755 '' @ dir @ ''/bin/'' @ rel_binary rel @
         '' && sudo chmod 0644 '' @ dir @ ''/lib/*.so*''))) (\<lambda>_.
      copy_unit T rel host))))"

definition deploy_host ::
  "'w shell \<Rightarrow> release \<Rightarrow> string \<Rightarrow> ('w script, unit, script_error) rs" where
  "deploy_host T rel host =
     (let bin = rel_remote_dir rel @ ''/bin''; lib = rel_remote_dir rel @ ''/lib'' in
      bindR (run_with T (ssh T (rel_ssh_opts rel) host
        (''sudo mkdir -p '' @ bin @ '' '' @ lib @ '' && sudo chown $(id -u):$(id -g) '' @ bin @ '' '' @ lib))) (\<lambda>_.
      bindR (stop_if_active T rel host) (\<lambda>was_active.
      bindR (copy_release T rel host) (\<lambda>_.
      if was_active then
        bindR (run_with T (ssh T (rel_ssh_opts rel) host (start_cmd (rel_service rel)))) (\<lambda>_. ret ())
      else ret ()))))"

fun deploy_hosts :: "'w shell \<Rightarrow> release \<Rightarrow> string list \<Rightarrow> ('w script, unit, script_error) rs" where
  "deploy_hosts T rel [] = ret ()"
| "deploy_hosts T rel (host # hosts) = bindR (deploy_host T rel host) (\<lambda>_. deploy_hosts T rel hosts)"

section \<open>The script\<close>

definition deploy_main :: "'w shell \<Rightarrow> environ \<Rightarrow> ('w script, unit, script_error) rs" where
  "deploy_main T env =
     bindR (lift (required ''HOSTS'' (env_HOSTS env))) (\<lambda>hosts.
     let arch = or_else (env_ARCH_NAME env) ''amd64''; binary = or_else (env_BINARY env) ''sceau'';
         ssh_key = or_else (env_SSH_KEY env) []; remote_dir = or_else (env_REMOTE_DIR env) ''/opt/sceau'';
         tool = or_else (env_CONTAINER_TOOL env) ''docker'' in
     bindR (lift (triples arch)) (\<lambda>(triple, sys_triple).
     bindR (source_mode T (env_SOURCE_MODE env)) (\<lambda>mode.
     bindR (\<lambda>s. (ok_or RootNotFound (script_root T (outside s)), s)) (\<lambda>repo_root.
     bindR (\<lambda>s. (Ok (), s\<lparr>work_dir := []\<rparr>)) (\<lambda>_.
     trap_exit T tool
       (bindR (if mode = ''local'' then from_local T repo_root arch binary triple
               else if mode = ''image'' then from_image T env tool arch binary sys_triple
               else lift (Err (BadSourceMode mode))) (\<lambda>(bin_path, lib_dir).
        bindR (look (unquoted T hosts)) (\<lambda>targets.
        deploy_hosts T
          \<lparr>rel_bin_path = bin_path, rel_lib_dir = lib_dir, rel_binary = binary,
           rel_unit_path = repo_root @ ''/contrib/systemd/'' @ binary @ ''.service'',
           rel_remote_dir = remote_dir,
           rel_ssh_opts = (if ssh_key = [] then [] else ''-i '' @ ssh_key)\<rparr> targets))))))))"

section \<open>Services on the hosts\<close>






section \<open>Hosts that run services\<close>

text \<open>
  Simulated hosts: the world is the list of the running services and whether copies
  fail. Every other command succeeds and prints nothing.
\<close>

type_synonym hosts = "(string \<times> string) list \<times> bool"



text \<open>A shell that records what it runs, the last command first.\<close>

definition logging_shell :: "string list list shell" where
  "logging_shell = \<lparr>exec = (\<lambda>argv w. ((0, []), argv # w)), is_file = (\<lambda>path w. True), is_dir = (\<lambda>path w. True),
     glob = (\<lambda>word w. [word]), glob_in = (\<lambda>dir pat w. [dir @ ''/'' @ pat]), script_root = (\<lambda>w. Some ''/src'')\<rparr>"

definition sim_environ :: environ where
  "sim_environ = \<lparr>env_HOSTS = Some ''n1 n2'', env_ARCH_NAME = None, env_BINARY = None, env_SSH_KEY = None,
     env_REMOTE_DIR = None, env_CONTAINER_TOOL = None, env_SOURCE_MODE = Some ''local'',
     env_IMAGE_REF = None, env_TMPDIR = None\<rparr>"


text \<open>
  \<open>work_dir\<close> is cleared before the handler of \<open>EXIT\<close> is set, \<open>container_id\<close> is not: a
  value that the caller's environment has for it names a container that a local
  deployment removes.
\<close>

lemma inherited_container_is_removed:
  "snd (deploy_main logging_shell (sim_environ\<lparr>env_HOSTS := Some '' ''\<rparr>)
     \<lparr>work_dir = ''/home'', container_id = ''db'', outside = []\<rparr>) =
   \<lparr>work_dir = [], container_id = ''db'', outside = [[''docker'', ''rm'', ''-f'', ''db'']]\<rparr>"
  by code_simp



end
