(* ===== verification/Spec2Isabelle.thy ===== *)
theory Spec2Isabelle
  imports Sealer_Properties Enroll_Properties Life_Properties Vex_Properties Frame_Properties Build Deploy
begin

text \<open>
  Verification of \<open>sceau\<close>, a Kubernetes KMS v2 plugin that seals data encryption
  keys (DEKs) under a key of a TPM 2.0, and of the command of the \<open>sceau-vex\<close> crate
  that derives VEX statements from scanner reports.

  \<^bold>\<open>The program.\<close> \<open>serve\<close> answers \<open>Encrypt\<close> and \<open>Decrypt\<close> of the API server on a
  Unix socket; it seals under the fleet key, if the TPM holds one, and otherwise
  under a per-node storage key that is derived from the owner seed. \<open>genesis\<close>
  creates the fleet key and makes it persistent. \<open>enroll\<close>, on a node that has the
  key, listens for a bounded number of joiners, checks each one's certificate and its
  Node object and duplicates the key for the joiner's transport key; \<open>join\<close> dials it
  and imports the key. \<open>status\<close> prints the key that \<open>serve\<close> would use.

  \<^bold>\<open>Shape of the model.\<close> Rust's \<open>Result\<close> with panics is \<open>outcome\<close> (\<open>Ok\<close>, \<open>Err\<close>,
  \<open>Panic\<close>); effectful code is a function from a world to an outcome and a world, in
  the order of the source, with \<open>bindR\<close> for the \<open>?\<close> operator. Machine integers are
  words where their width matters: the length field of the envelope, the permit
  counter. Third-party crates are records of functions that the definitions take as
  arguments: \<open>tss\<close> (tss-esapi, sha2, hex), \<open>pki\<close> (x509-parser, rcgen, rsa, time),
  \<open>kube\<close>, \<open>listener\<close>, \<open>dialer\<close> and \<open>kms_server\<close> (kube, tonic), \<open>json\<close> and
  \<open>vex_env\<close> (serde_json, clock and directory listing). Everything terminates by
  structural recursion or a measure; no definition has fuel.

  \<^bold>\<open>Theories of the model\<close>, by source file:
  \<^item> \<open>Prelude\<close>: outcomes, effects, slices, strings, paths; \<open>Host\<close>: UTF-8 and the file
    system as the standard library shows it.
  \<^item> \<open>Tss\<close>: the types and calls of tss-esapi, and its session brackets.
  \<^item> \<open>Tpm\<close>: \<open>src/src/tpm.rs\<close>, with the fuzz target of the envelope. The sealer is the record \<open>TpmSealer\<close>; \<open>seal\<close>, \<open>unseal\<close>,
    \<open>envelope_encode\<close>, \<open>envelope_decode\<close>, \<open>derive_key_id\<close> and the constructors are
    named as in the source.
  \<^item> \<open>Kms\<close>: \<open>src/src/kms.rs\<close>. The service with its mutexes (the value and whether it
    is poisoned) and the three handlers; the messages are those of
    \<open>src/proto/kms/v2/api.proto\<close>.
  \<^item> \<open>Kms_Run\<close>: the same handlers under concurrency. \<open>kms_step\<close> takes a lock, or runs the
    section of code that a handler has under a lock and gives the lock back.
  \<^item> \<open>Fleet\<close>: \<open>src/src/fleet.rs\<close>, the life of the fleet key.
  \<^item> \<open>Authz\<close>, \<open>Certs\<close>: \<open>src/src/authz.rs\<close>, \<open>src/src/certs.rs\<close>.
  \<^item> \<open>Enroll\<close>: \<open>src/src/enroll.rs\<close>. The handler \<open>duplicate\<close> run by itself, the set-up
    \<open>run_enroll\<close>, the relation \<open>permit_step\<close> of the atomic steps that concurrent
    requests make on the permit counter and the notification, and the relation
    \<open>listener_step\<close> of the listener around them: it takes requests, waits for the
    notification or the timeout, and lets the requests in flight finish.
  \<^item> \<open>Join\<close>: \<open>src/src/join.rs\<close>.
  \<^item> \<open>App\<close>: \<open>src/src/main.rs\<close> and \<open>src/src/cli.rs\<close>; \<open>run_serve\<close> works on the file
    system and the world, \<open>sceau_main\<close> dispatches.
  \<^item> \<open>BTree_Map\<close>, \<open>Vex\<close>, \<open>Vex_Bin\<close>: \<open>BTreeMap\<close>, and
    \<open>src/crates/sceau-vex/src/auto_vex_presence.rs\<close> with its binary.
  \<^item> \<open>Build\<close>: \<open>src/build.rs\<close> and the fuzz target of the generated decoders, over the
    generator and the decoders as parameters.
  \<^item> \<open>Deploy\<close>: \<open>src/scripts/deploy-test-nodes.sh\<close>, over a record \<open>shell\<close> of the commands
    it runs and the files it sees. A command that fails ends the script as \<open>set -e\<close>
    has it, and \<open>trap_exit\<close> is the handler of \<open>EXIT\<close>.

  \<^bold>\<open>Contracts.\<close> \<open>Tpm_Contract\<close> has two locales. \<open>tss_codec\<close> is what the sources rely
  on of the encoders. \<open>tpm_device\<close> extends it with the TPM itself, over a view of its
  state: open contexts, handles, current session, persistent objects, and the primary
  key that the owner seed gives for a template. Its laws are those of the TPM 2.0
  commands the sources call: what a successful command adds to or removes from the
  view, that \<open>Unseal\<close> returns what \<open>Create\<close> sealed under the same parent, that
  \<open>Import\<close> yields the key that \<open>Duplicate\<close> wrapped, that \<open>Duplicate\<close> needs a policy
  session whose digest is the key's policy. \<open>Soft_Tpm\<close> is a small software TPM on
  which both locales are interpreted, so the laws can hold together; \<open>Soft_Cluster\<close>
  has concrete instances of the other crates. The witnesses evaluate on them.
  \<open>Kms_Spec.sealing\<close> is the contract between the service and its sealer, given by
  \<open>tpm_device\<close> as a sublocale; \<open>BTree_Map.ordered_map\<close> is the contract of the ordered
  map, interpreted on association lists.

  Two further groups of contracts assume nothing of whether a call succeeds.
  \<open>Effects\<close> has the rules for what a function does to the world, along any relation
  that composes (\<open>evolution\<close>), and for not panicking. \<open>Tpm_Frame\<close> carries such a relation
  from the TPM commands through every operation to the subcommands: \<open>tpm_frame\<close>,
  \<open>node_frame\<close> with the other crates, where a server may pass any sequence of requests to
  the handlers, \<open>writer_frame\<close> with the command that makes keys persistent, and
  \<open>key_storage\<close>, which gives the latter as a sublocale. \<open>Panic_Free\<close> does the same for
  panics: \<open>calm_tss\<close>, \<open>calm_node\<close>. All are interpreted on the software TPM and cluster in
  \<open>Frame_Properties\<close>. \<open>Deploy.remote_services\<close> is what \<open>systemctl\<close> promises over SSH,
  interpreted on simulated hosts.

  \<^bold>\<open>What is proved.\<close>
  \<^item> \<open>Sealer_Spec\<close>, \<open>Kms_Spec\<close>, \<open>Sealer_Properties\<close>: the envelope round trip and exactly
    which envelopes are accepted, without panics; sealing and unsealing implement the
    contract \<open>sealing\<close> and leave nothing on the TPM; the size limit; the error paths of
    the handlers, with what a panic under the lock does to later requests.
  \<^item> \<open>Fleet_Spec\<close>, \<open>Fleet_Properties\<close>: genesis, duplication, import and their clean-up,
    which keys can be duplicated, and that the keys are determined by the owner seed.
  \<^item> \<open>Enroll_Spec\<close>, \<open>Permit_Spec\<close>, \<open>Enroll_Properties\<close>: who is served, that refusals
    change nothing, the accounting of permits for one request and under every
    interleaving, the refinement between the two, termination, and the runs in which
    the limit is exceeded or a permit is lost.
  \<^item> \<open>Permit_Spec\<close> also has the listener: it returns, and it closes only after its
    timeout or after a request was served.
  \<^item> \<open>Kms_Run\<close>: the lock sections of a request that meets no other one make up its
    handler; the locks exclude and no run blocks; every request is answered as if it
    were alone. The locks of the two sealers do not exclude each other.
  \<^item> \<open>Node_Life\<close>: \<open>node_step\<close> is the history of one node (requests, restarts, one arrival
    of a fleet key); every ciphertext ever returned stays readable. \<open>Fleet_Life\<close>:
    \<open>fleet_step\<close> is the history of a cluster (\<open>genesis\<close>, also forced, on one controller, joins that
    succeed or fail, restarts); there is one fleet key.
  \<^item> \<open>Fault_Spec\<close>: the code on a TPM on which one command fails, as an update of the
    record \<open>tss\<close>: what a failed \<open>Unseal\<close>, a failed \<open>EvictControl\<close> and a failed probe of
    the fleet handle leave behind. The properties of these four theories are in
    \<open>Life_Properties\<close>.
  \<^item> \<open>App_Spec\<close> and this theory: the whole path from \<open>genesis\<close> to a ciphertext of one
    node read by another, old ciphertexts after joining, \<open>status\<close> against \<open>serve\<close>, the
    socket of \<open>serve\<close>, and the command line.
  \<^item> \<open>Frame_Properties\<close>: whatever fails, no run of a subcommand changes a persistent key
    other than the fleet key, and only \<open>genesis\<close> and \<open>join\<close> change that one; no
    subcommand and no request panics, so that no lock is poisoned.
  \<^item> \<open>Deploy\<close>: the deployment starts no service that was not running, and after a
    success the same services run.
  \<^item> \<open>Vex_Spec\<close>, \<open>Vex_Properties\<close>: the derivation equals a set-based specification; the
    guards on the inputs and what passes them; the effects of a run.

  \<^bold>\<open>Bounds.\<close> Handles are natural numbers, so that a fresh one always exists; a TPM
  that is out of handles or memory answers with an error, which the contract excludes
  by its assumption that a command in its precondition succeeds; the faults of
  \<open>Fault_Spec\<close> are the exceptions. A session lasts until it is closed, also when
  several commands run in it. The timeout of the listener is counted in whole seconds.
  A digest has at most
  64 bytes. The theorems about single handlers and error paths that mention no
  contract hold for every behaviour of the crates.

  \<^bold>\<open>Not modelled.\<close>
  \<^item> Logging, and the texts of errors where no caller reads them: a message that is the
    display of a value is that value.
  \<^item> The wire encodings of protobuf and TLS, the event loops of tokio and tonic, the
    parser of clap, the code that \<open>src/build.rs\<close> generates: third-party or generated. The
    shutdown signal is inside the server parameter. That the enrollment server takes no
    request after its shutdown future is ready is documented behaviour of tonic that
    \<open>listener_step\<close> builds in.
  \<^item> TPM commands of two sealers that run at the same time: a section of \<open>kms_step\<close> is
    one step, so the commands of two sections do not interleave.
  \<^item> The drop of a tss-esapi \<open>Context\<close>, which closes the connection: a context stays
    open in the view after its last use.
  \<^item> Other processes: the file system of \<open>serve\<close> changes by its own calls, and
    arbitrarily while the server runs. A path is looked up as it is spelled, without
    symbolic links; only sockets carry a mode.
  \<^item> The crate roots, which only declare modules, and the script that builds the fuzzers
    for the continuous integration (\<open>src/.clusterfuzzlite/build.sh\<close>): calls of cargo, ldd and readelf.
  \<^item> What remains of the Rust files beyond the map is comments, imports, attributes and
    the code that exists for tests.
\<close>

section \<open>Inputs for the evaluations\<close>

definition serve_fs :: fs where
  "serve_fs = [''/'' \<mapsto> Directory, ''/run'' \<mapsto> Directory, ''/run/sceau'' \<mapsto> Directory,
     ''/run/sceau/sceau.sock'' \<mapsto> Socket 0]"

definition idle_server :: "'w kms_server" where
  "idle_server = \<lparr>serve_with_incoming_shutdown = (\<lambda>service. ret ())\<rparr>"

lemma serve_fs_parent:
  "path_parent ''/run/sceau/sceau.sock'' = Some ''/run/sceau''"
  "path_parent ''/run/sceau'' = Some ''/run''"
  by (simp_all add: path_parent_def Let_def)

lemma serve_fs_dirs: "create_dir_all ''/run/sceau'' serve_fs = (Ok (), serve_fs)"
  by (subst create_dir_all.simps)
    (simp add: mkdir_def fs_parent_dir_def serve_fs_parent serve_fs_def fs_is_dir_def)


section \<open>A fleet from genesis to decryption on another node\<close>

text \<open>
  C1. End to end: on a TPM that keeps the contract, \<open>genesis\<close> on the seed
  succeeds; the service that \<open>enroll\<close> then builds answers the \<open>join\<close> of an
  authorised node so that \<open>join\<close> succeeds there; afterwards every plaintext that
  one of the two nodes encrypts through its KMS service is decrypted by the KMS
  service of the other, in both directions.
\<close>

theorem enrolled_nodes_interoperate:
  assumes "tpm_device X view kpub name_of sealed_under wrapped_for imported_under extend_policy reachable"
    and "tcti_from_str X tcti = Ok tc" and "reachable tc"
    and "force \<or> v_nv (view ws) FLEET_KEY_PERSISTENT_HANDLE = None"
    and "max_requests \<noteq> 0"
    and "\<And>w. kube_get_node K client node w = (Ok (), w)" and "node \<noteq> []"
    and "parse_x509_certificate P leaf = Ok cert"
    and "common_names cert = Some (''system:node:'' @ node) # rest"
    and "\<And>w. join_channel D fs seed dir w = (Ok ch, w)"
  shows "\<exists>ws1 c ws2 h ws3 wj1. run_genesis X tcti force ws = (Ok (), ws1) \<and>
    context_new X tc ws1 = (Ok c, ws2) \<and> load_fleet_key X c ws2 = (Ok h, ws3) \<and>
    run_join X (answered_by X P K (Some (leaf # chain)) (enroll_service c h client max_requests, ws3) D)
      fs seed tcti dir wj = (Ok (), wj1) \<and>
    interoperates X tc ws3 wj1 \<and> interoperates X tc wj1 ws3"
proof (rule tpm_device.genesis_enroll_join_ok [OF assms(1-6) _ assms(10)])
  show "peer_node_name P \<lparr>peer_certs = Some (leaf # chain), get_ref = req\<rparr> = Ok node" for req
    using assms(7-9) by (simp add: peer_node_name_Ok_iff NODE_IDENTITY_PREFIX_def)
qed

theorem enrolled_nodes_interoperate_witness:
  "\<exists>ws1 c ws2 h ws3 wj1. run_genesis soft_tss ''swtpm'' False (soft_new [1]) = (Ok (), ws1) \<and>
    context_new soft_tss (TctiNameConf ''swtpm'') ws1 = (Ok c, ws2) \<and>
    load_fleet_key soft_tss c ws2 = (Ok h, ws3) \<and>
    run_join soft_tss (answered_by soft_tss soft_pki (soft_kube [''edge-2'']) (Some [node_cert])
      (enroll_service c h (KubeClient 0) 1, ws3) soft_dialer)
      soft_fs ''seed:7443'' ''swtpm'' ''/k0s'' (soft_new [2]) = (Ok (), wj1) \<and>
    interoperates soft_tss (TctiNameConf ''swtpm'') ws3 wj1 \<and>
    interoperates soft_tss (TctiNameConf ''swtpm'') wj1 ws3"
  by (rule enrolled_nodes_interoperate [OF soft_device.tpm_device_axioms, where node = "''edge-2''" and rest = "[]"
        and cert = "X509 [Some ''system:node:edge-2'']"])
    (simp_all add: soft_reachable_def soft_new_def soft_kube_def soft_join_channel soft_peer)

section \<open>Serving across restarts and enrollment\<close>

text \<open>
  What a node encrypted under its per-node key before it had a fleet key, its
  service decrypts after any later restart, whether or not the node has joined a
  fleet in between: the owner seed of the TPM is the same, and the key identifiers
  of the two keys differ.
\<close>

theorem node_ciphertexts_stay_readable:
  assumes "tpm_device X view kpub name_of sealed_under wrapped_for imported_under extend_policy reachable"
    and "reachable tc" and "v_nv (view w) FLEET_KEY_PERSISTENT_HANDLE = None"
    and "v_primary (view v) = v_primary (view w)"
    and "\<And>k. v_nv (view v) FLEET_KEY_PERSISTENT_HANDLE = Some k \<Longrightarrow>
       key_id_of_name X (name_of (kpub k)) \<noteq>
       key_id_of_name X (name_of (kpub (v_primary (view w) srk_template)))"
    and "length (enc_plaintext req) \<le> MAX_SEAL_DATA"
  shows "\<exists>ss w1 resp w2 sv v1. serve_sealers X tc False w = (Ok ss, w1) \<and>
    encrypt X req (serve_service ss, w1) = (Ok resp, (serve_service ss, w2)) \<and>
    serve_sealers X tc False v = (Ok sv, v1) \<and>
    (\<forall>uid ann. \<exists>v2. decrypt X \<lparr>dec_ciphertext = enc_ciphertext resp, dec_uid = uid,
       dec_key_id = enc_key_id resp, dec_annotations = ann\<rparr> (serve_service sv, v1) =
         (Ok \<lparr>dec_plaintext = enc_plaintext req\<rparr>, (serve_service sv, v2)))"
  by (rule tpm_device.srk_ciphertext_readable [OF assms])

theorem node_ciphertexts_stay_readable_witness:
  "\<exists>ss w1 resp w2 sv v1 v2. serve_sealers soft_tss (TctiNameConf ''swtpm'') False (soft_new [1]) = (Ok ss, w1) \<and>
    encrypt soft_tss \<lparr>enc_plaintext = [1, 2, 3], enc_uid = []\<rparr> (serve_service ss, w1) =
      (Ok resp, (serve_service ss, w2)) \<and>
    serve_sealers soft_tss (TctiNameConf ''swtpm'') False enrolled_node = (Ok sv, v1) \<and>
    decrypt soft_tss \<lparr>dec_ciphertext = enc_ciphertext resp, dec_uid = [], dec_key_id = enc_key_id resp,
      dec_annotations = []\<rparr> (serve_service sv, v1) =
        (Ok \<lparr>dec_plaintext = [1, 2, 3]\<rparr>, (serve_service sv, v2))"
proof -
  let ?req = "\<lparr>enc_plaintext = [1, 2, 3], enc_uid = []\<rparr>"
  have "length (enc_plaintext ?req) \<le> MAX_SEAL_DATA" by (simp add: MAX_SEAL_DATA_def)
  moreover have "key_id_of_name soft_tss (soft_name (soft_public k)) \<noteq>
      key_id_of_name soft_tss (soft_name (soft_public (v_primary (soft_view (soft_new [1])) srk_template)))"
    if "v_nv (soft_view enrolled_node) FLEET_KEY_PERSISTENT_HANDLE = Some k" for k
    using that enrolled_node_key_ids unfolding enrolled_node_view by simp
  moreover have "soft_reachable (TctiNameConf ''swtpm'')" by (simp add: soft_reachable_def)
  moreover note node_ciphertexts_stay_readable [OF soft_device.tpm_device_axioms _ enrolled_node_view(1,3),
      of "TctiNameConf ''swtpm''" ?req]
  ultimately
  obtain ss w1 resp w2 sv v1 where
    "serve_sealers soft_tss (TctiNameConf ''swtpm'') False (soft_new [1]) = (Ok ss, w1)"
    "encrypt soft_tss ?req (serve_service ss, w1) = (Ok resp, (serve_service ss, w2))"
    "serve_sealers soft_tss (TctiNameConf ''swtpm'') False enrolled_node = (Ok sv, v1)"
    "\<And>uid ann. \<exists>v2. decrypt soft_tss \<lparr>dec_ciphertext = enc_ciphertext resp, dec_uid = uid,
       dec_key_id = enc_key_id resp, dec_annotations = ann\<rparr> (serve_service sv, v1) =
         (Ok \<lparr>dec_plaintext = [1, 2, 3]\<rparr>, (serve_service sv, v2))"
    by auto
  then show ?thesis by blast
qed

text \<open>
  C20. On a reachable TPM, status succeeds, leaves the persistent keys alone, and
  prints whether serve would use a fleet key and the key_id of the sealer that serve
  would build from the same state.
\<close>

theorem status_reports_the_serving_key:
  assumes "tpm_device X view kpub name_of sealed_under wrapped_for imported_under extend_policy reachable"
    and "tcti_from_str X tcti = Ok tc" and "reachable tc"
  shows "\<exists>w' ss w1. serve_sealers X tc False w = (Ok ss, w1) \<and>
    run_status X tcti w = (Ok (status_line (snd ss \<noteq> None) (sealer_key_id (fst ss))), w') \<and>
    (snd ss \<noteq> None \<longleftrightarrow> v_nv (view w) FLEET_KEY_PERSISTENT_HANDLE \<noteq> None) \<and>
    sealer_key_id (fst ss) = key_id_of_name X (name_of (kpub (serving_key (view w)))) \<and>
    v_nv (view w') = v_nv (view w)"
  using tpm_device.run_status_ok [OF assms, of w] tpm_device.serve_sealers_key [OF assms(1,3), of w]
  by (auto simp: runs_ok_iff)

theorem status_reports_the_serving_key_witness:
  "\<exists>w' ss w1. serve_sealers soft_tss (TctiNameConf ''swtpm'') False enrolled_node = (Ok ss, w1) \<and>
    run_status soft_tss ''swtpm'' enrolled_node =
      (Ok (''fleet_key=true key_id='' @ sealer_key_id (fst ss)), w')"
  using status_reports_the_serving_key [OF soft_device.tpm_device_axioms, of "''swtpm''"
      "TctiNameConf ''swtpm''" enrolled_node] enrolled_node_view(2)
  by (auto simp: soft_reachable_def status_line_def show_bool_def)



text \<open>
  A socket left over by an earlier run makes no difference to \<open>serve\<close>, when the
  directory of the socket is there or can be created: it behaves, with every outcome
  and effect, as if the socket had not been there.
\<close>

theorem stale_socket_makes_no_difference:
  assumes "path_parent socket = Some d" and "create_dir_all d fs = (Ok (), fs1)"
    and "fs socket = Some (Socket m)"
  shows "run_serve X V umask_mode tcti socket force_legacy (fs, w) =
    run_serve X V umask_mode tcti socket force_legacy (fs(socket := None), w)"
proof -
  from prepare_socket_stale [OF assms] show ?thesis by (simp add: run_serve_def bindR_apply on_fs_def)
qed

theorem stale_socket_makes_no_difference_witness:
  "run_serve soft_tss idle_server 493 ''swtpm'' ''/run/sceau/sceau.sock'' False (serve_fs, soft_new [1]) =
   run_serve soft_tss idle_server 493 ''swtpm'' ''/run/sceau/sceau.sock'' False
     (serve_fs(''/run/sceau/sceau.sock'' := None), soft_new [1])"
  by (rule stale_socket_makes_no_difference [OF serve_fs_parent(1) serve_fs_dirs, of 0]) (simp add: serve_fs_def)

section \<open>From the command line\<close>


end
